theory Spec2Isabelle
  imports Complex_Main "HOL-Library.Word" "HOL-Library.Sublist"
begin

section \<open>JavaScript strings\<close>

text \<open>
  A JavaScript string is a sequence of UTF-16 code units; \<open>t.length\<close> counts code
  units and \<open>slice\<close>, \<open>split\<close> and \<open>===\<close> work on them. String literals of the
  source are written \<open>js ''...''\<close>.
\<close>

type_synonym jschar = "16 word"
type_synonym jsstring = "jschar list"
type_synonym byte = "8 word"

definition js :: "string \<Rightarrow> jsstring" where
  "js s = map (\<lambda>c. of_char c) s"

text \<open>
  \<open>t.slice(start)\<close> with one argument: a negative start counts from the end and is
  clamped at 0, a positive one is clamped at the length.
\<close>

definition js_slice :: "jsstring \<Rightarrow> int \<Rightarrow> jsstring" where
  "js_slice t start =
     (if start < 0 then drop (nat (max (int (length t) + start) 0)) t
      else drop (nat (min start (int (length t)))) t)"

section \<open>Helpers: trim\<close>

text \<open>
  \<^verbatim>\<open>function trim(t, max) { max=max||3800; return t.length<=max?t:'...'+t.slice(-(max-3)); }\<close>
  The second argument is \<open>None\<close> when the caller passes none (every call in the
  repository); a \<open>max\<close> of 0 is falsy and also selects 3800.
\<close>

definition trim :: "jsstring \<Rightarrow> int option \<Rightarrow> jsstring" where
  "trim t mx =
     (let m = (case mx of None \<Rightarrow> 3800 | Some k \<Rightarrow> if k = 0 then 3800 else k)
      in if int (length t) \<le> m then t else js ''...'' @ js_slice t (- (m - 3)))"

section \<open>The update throttler inside the message handler\<close>

text \<open>
  \<^verbatim>\<open>
  let lastText = '', lastAt = 0;
  function liveUpdate(t) {
    t = trim(t); if (t === lastText) return; lastText = t;
    const now = Date.now(); if (now - lastAt < 600) return; lastAt = now;
    client.chat.update({ channel: chan, ts: posted.ts, text: t }).catch(function(){});
  }
  \<close>
  The closure variables are the record \<open>throttle\<close>; the reading of \<open>Date.now()\<close> is an
  argument; the result carries the text handed to \<open>client.chat.update\<close>, if any.
\<close>

record throttle =
  lastText :: jsstring
  lastAt :: int

definition throttle0 :: throttle where
  "throttle0 = \<lparr>lastText = [], lastAt = 0\<rparr>"

definition liveUpdate :: "throttle \<Rightarrow> jsstring \<Rightarrow> int \<Rightarrow> throttle \<times> jsstring option" where
  "liveUpdate th t0 now =
     (let t = trim t0 None in
      if t = lastText th then (th, None)
      else let th1 = th\<lparr>lastText := t\<rparr> in
        if now - lastAt th1 < 600 then (th1, None)
        else (th1\<lparr>lastAt := now\<rparr>, Some t))"

text \<open>
  A sequence of \<open>liveUpdate\<close> calls, each with its snapshot and clock reading; the
  second component lists the texts forwarded to the chat surface, oldest first, each
  with the clock reading of the call that forwarded it.
\<close>

fun liveUpdates ::
  "throttle \<Rightarrow> (jsstring \<times> int) list \<Rightarrow> throttle \<times> (jsstring \<times> int) list" where
  "liveUpdates th [] = (th, [])"
| "liveUpdates th ((t, now) # cs) =
     (case liveUpdate th t now of
        (th1, sent) \<Rightarrow>
          (case liveUpdates th1 cs of
             (th2, rest) \<Rightarrow>
               (th2, (case sent of None \<Rightarrow> rest | Some u \<Rightarrow> (u, now) # rest))))"

section \<open>Fast-mode history\<close>

text \<open>
  A history entry is \<open>{ role: 'user' | 'assistant', content }\<close>. After a completed
  fast-mode turn the handler runs
  \<^verbatim>\<open>
  history.push({ role: 'user', content: text }, { role: 'assistant', content: result });
  if (history.length > 20) history.splice(0, 2);
  \<close>
\<close>

datatype role = user | assistant

type_synonym turn = "role \<times> jsstring"
type_synonym history = "turn list"

definition history_push :: "history \<Rightarrow> jsstring \<Rightarrow> jsstring \<Rightarrow> history" where
  "history_push h text result =
     (let h1 = h @ [(user, text), (assistant, result)]
      in if length h1 > 20 then drop 2 h1 else h1)"

text \<open>Role pairing: the entries come in (user, assistant) pairs.\<close>

fun paired :: "history \<Rightarrow> bool" where
  "paired [] = True"
| "paired [x] = False"
| "paired (x # y # h) = (fst x = user \<and> fst y = assistant \<and> paired h)"

section \<open>Runtime primitives used by the worker supervisor\<close>

subsection \<open>Decoding a stdout chunk: \<open>d.toString()\<close>\<close>

text \<open>
  The stdout stream has no encoding set, so every \<open>data\<close> event carries a Buffer and
  \<open>d.toString()\<close> decodes that one chunk as UTF-8 on its own. An ill-formed or
  truncated sequence becomes U+FFFD (one for each maximal ill-formed prefix, the byte
  that broke the sequence being decoded again); a code point above U+FFFF becomes a
  surrogate pair.
\<close>

definition cont :: "byte \<Rightarrow> bool" where
  "cont b = (0x80 \<le> b \<and> b \<le> 0xBF)"

definition tail_bits :: "byte \<Rightarrow> nat" where
  "tail_bits b = unat b - 0x80"

text \<open>The range allowed for the byte that follows the lead byte of a 3- or 4-byte sequence.\<close>

definition second_ok :: "byte \<Rightarrow> byte \<Rightarrow> bool" where
  "second_ok b c =
     (if b = 0xE0 then 0xA0 \<le> c \<and> c \<le> 0xBF
      else if b = 0xED then 0x80 \<le> c \<and> c \<le> 0x9F
      else if b = 0xF0 then 0x90 \<le> c \<and> c \<le> 0xBF
      else if b = 0xF4 then 0x80 \<le> c \<and> c \<le> 0x8F
      else cont c)"

fun utf8_decode :: "byte list \<Rightarrow> nat list" where
  "utf8_decode [] = []"
| "utf8_decode (b # bs) =
     (if b < 0x80 then unat b # utf8_decode bs
      else if 0xC2 \<le> b \<and> b \<le> 0xDF then
        (case bs of
           [] \<Rightarrow> [0xFFFD]
         | c # cs \<Rightarrow>
             if cont c then ((unat b - 0xC0) * 64 + tail_bits c) # utf8_decode cs
             else 0xFFFD # utf8_decode bs)
      else if 0xE0 \<le> b \<and> b \<le> 0xEF then
        (case bs of
           [] \<Rightarrow> [0xFFFD]
         | c # cs \<Rightarrow>
             if second_ok b c then
               (case cs of
                  [] \<Rightarrow> [0xFFFD]
                | d # ds \<Rightarrow>
                    if cont d
                    then ((unat b - 0xE0) * 4096 + tail_bits c * 64 + tail_bits d) # utf8_decode ds
                    else 0xFFFD # utf8_decode cs)
             else 0xFFFD # utf8_decode bs)
      else if 0xF0 \<le> b \<and> b \<le> 0xF4 then
        (case bs of
           [] \<Rightarrow> [0xFFFD]
         | c # cs \<Rightarrow>
             if second_ok b c then
               (case cs of
                  [] \<Rightarrow> [0xFFFD]
                | d # ds \<Rightarrow>
                    if cont d then
                      (case ds of
                         [] \<Rightarrow> [0xFFFD]
                       | e # es \<Rightarrow>
                           if cont e
                           then ((unat b - 0xF0) * 262144 + tail_bits c * 4096
                                   + tail_bits d * 64 + tail_bits e) # utf8_decode es
                           else 0xFFFD # utf8_decode ds)
                    else 0xFFFD # utf8_decode cs)
             else 0xFFFD # utf8_decode bs)
      else 0xFFFD # utf8_decode bs)"

definition utf16 :: "nat \<Rightarrow> jsstring" where
  "utf16 cp =
     (if cp < 0x10000 then [of_nat cp]
      else [of_nat (0xD800 + (cp - 0x10000) div 0x400),
            of_nat (0xDC00 + (cp - 0x10000) mod 0x400)])"

definition toString :: "byte list \<Rightarrow> jsstring" where
  "toString d = concat (map utf16 (utf8_decode d))"

subsection \<open>\<open>split\<close>, \<open>trim\<close> and number formatting on strings\<close>

text \<open>
  \<open>buf.split('\n')\<close>: the pieces between the line feeds, in order; the result is never
  empty, its last piece is what follows the last line feed. \<open>cur\<close> is the piece being
  read.
\<close>

fun split_from :: "jsstring \<Rightarrow> jsstring \<Rightarrow> jsstring list" where
  "split_from cur [] = [cur]"
| "split_from cur (c # cs) =
     (if c = 10 then cur # split_from [] cs else split_from (cur @ [c]) cs)"

definition split_nl :: "jsstring \<Rightarrow> jsstring list" where
  "split_nl s = split_from [] s"

text \<open>White space and line terminators, the code units \<open>String.prototype.trim\<close> removes.\<close>

definition is_space :: "jschar \<Rightarrow> bool" where
  "is_space c =
     (c \<in> {0x9, 0xA, 0xB, 0xC, 0xD, 0x20, 0xA0, 0x1680, 0x2028, 0x2029, 0x202F, 0x205F,
            0x3000, 0xFEFF} \<or> (0x2000 \<le> c \<and> c \<le> 0x200A))"

definition js_trim :: "jsstring \<Rightarrow> jsstring" where
  "js_trim s = rev (dropWhile is_space (rev (dropWhile is_space s)))"

text \<open>The decimal digits of a number, as \<open>'exit '+code\<close> renders an exit code.\<close>

function nat_digits :: "nat \<Rightarrow> jsstring" where
  "nat_digits n =
     (if n < 10 then [of_nat (48 + n)] else nat_digits (n div 10) @ [of_nat (48 + n mod 10)])"
  by pat_completeness auto
termination
  by (relation "measure id") auto

definition int_string :: "int \<Rightarrow> jsstring" where
  "int_string i = (if i < 0 then js ''-'' @ nat_digits (nat (- i)) else nat_digits (nat i))"

subsection \<open>Values produced by \<open>JSON.parse\<close>\<close>

text \<open>
  A JavaScript number is a double: a finite one is kept as the rational it stands for
  (\<open>Finite 0\<close> is \<open>+0\<close>). \<open>JSON.parse\<close> yields no NaN; arithmetic may.
\<close>

datatype jsnumber = Finite rat | MinusZero | PlusInfinity | MinusInfinity | NotANumber

datatype json =
    JNull
  | JBool bool
  | JNum jsnumber
  | JStr jsstring
  | JArr "json list"
  | JObj "(jsstring \<times> json) list"

text \<open>A JavaScript value read from a parsed record: \<open>None\<close> is \<open>undefined\<close>.\<close>

type_synonym jsvalue = "json option"

fun truthy :: "jsvalue \<Rightarrow> bool" where
  "truthy None = False"
| "truthy (Some JNull) = False"
| "truthy (Some (JBool b)) = b"
| "truthy (Some (JNum n)) = (n \<noteq> Finite 0 \<and> n \<noteq> MinusZero \<and> n \<noteq> NotANumber)"
| "truthy (Some (JStr s)) = (s \<noteq> [])"
| "truthy (Some (JArr xs)) = True"
| "truthy (Some (JObj kvs)) = True"

text \<open>
  \<open>v.k\<close> for a value \<open>v\<close> that is neither \<open>null\<close> nor \<open>undefined\<close>, and a key \<open>k\<close> among
  \<open>type\<close>, \<open>subtype\<close>, \<open>is_error\<close>, \<open>result\<close>, \<open>total_cost_usd\<close>, \<open>message\<close>,
  \<open>content\<close>, \<open>text\<close>: an object gives its member (the last one, when the record
  repeats the key), every other value gives \<open>undefined\<close>.
\<close>

fun field :: "json \<Rightarrow> jsstring \<Rightarrow> jsvalue" where
  "field (JObj kvs) k = map_of (rev kvs) k"
| "field v k = None"

text \<open>
  The two primitives taken from the runtime: \<open>JSON.parse\<close> on a line (\<open>None\<close> when it
  throws) and the conversion to a string of a value that is not a string, as \<open>acc += x\<close>
  and \<open>new Error(x)\<close> perform it (\<open>None\<close> when the conversion throws).
\<close>

record runtime =
  JSON_parse :: "jsstring \<Rightarrow> json option"
  ToString :: "json \<Rightarrow> jsstring option"

fun to_string :: "runtime \<Rightarrow> json \<Rightarrow> jsstring option" where
  "to_string rt (JStr s) = Some s"
| "to_string rt v = ToString rt v"

subsection \<open>Numbers as text\<close>

text \<open>
  \<open>a / b\<close> for two positive integers: the double nearest to the quotient, ties to the
  even mantissa. The quotient is scaled by a power of two so that it lies between
  \<open>2^52\<close> and \<open>2^53\<close>, rounded to an integer and scaled back. (The quotients formed here,
  milliseconds over 1000, are far from the ends of the exponent range.)
\<close>

function bit_length :: "int \<Rightarrow> nat" where
  "bit_length n = (if n \<le> 0 then 0 else Suc (bit_length (n div 2)))"
  by pat_completeness auto
termination
  by (relation "measure nat") auto

definition round_even :: "int \<Rightarrow> int \<Rightarrow> int" where
  "round_even n d =
     (if 2 * (n mod d) < d then n div d
      else if d < 2 * (n mod d) then n div d + 1
      else if even (n div d) then n div d else n div d + 1)"

definition nearest_double :: "int \<Rightarrow> int \<Rightarrow> rat" where
  "nearest_double a b =
     (let k0 = 53 + int (bit_length b) - int (bit_length a);
          k = (if 2 ^ 53 \<le> (a * 2 ^ nat k0) div (b * 2 ^ nat (- k0)) then k0 - 1 else k0);
          m = round_even (a * 2 ^ nat k) (b * 2 ^ nat (- k))
      in of_int (m * 2 ^ nat (- k)) / of_int (2 ^ nat k))"

text \<open>\<open>ms / 1000\<close> for an integer \<open>ms\<close>.\<close>

definition seconds :: "int \<Rightarrow> jsnumber" where
  "seconds ms =
     (if ms = 0 then Finite 0
      else if 0 < ms then Finite (nearest_double ms 1000)
      else Finite (- nearest_double (- ms) 1000))"

text \<open>
  \<open>x.toFixed(f)\<close>: the integer \<open>n\<close> with \<open>n / 10^f\<close> nearest to \<open>|x|\<close> (the larger one of
  two), written with at least one digit before the point and \<open>f\<close> digits after it, and
  a minus sign when \<open>x < 0\<close>. From \<open>10^21\<close> on the result is the general number-to-string
  conversion, taken as the parameter \<open>big\<close>.
\<close>

definition fixed_digits :: "nat \<Rightarrow> nat \<Rightarrow> jsstring" where
  "fixed_digits f n =
     (let m = nat_digits n;
          p = replicate (Suc f - length m) 48 @ m
      in if f = 0 then m else take (length p - f) p @ js ''.'' @ drop (length p - f) p)"

definition toFixed :: "(jsnumber \<Rightarrow> jsstring) \<Rightarrow> nat \<Rightarrow> jsnumber \<Rightarrow> jsstring" where
  "toFixed big f x =
     (case x of
        NotANumber \<Rightarrow> js ''NaN''
      | PlusInfinity \<Rightarrow> js ''Infinity''
      | MinusInfinity \<Rightarrow> js ''-Infinity''
      | MinusZero \<Rightarrow> fixed_digits f 0
      | Finite q \<Rightarrow>
          if 10 ^ 21 \<le> \<bar>q\<bar> then (if q < 0 then js ''-'' @ big (Finite (- q)) else big x)
          else (if q < 0 then js ''-'' else []) @
               fixed_digits f (nat \<lfloor>\<bar>q\<bar> * 10 ^ f + 1 / 2\<rfloor>))"

section \<open>The worker supervisor: askClaude\<close>

subsection \<open>Spawning the worker\<close>

text \<open>
  \<^verbatim>\<open>
  const args = ['--dangerously-skip-permissions', '--model', 'claude-haiku-4-5-20251001',
    '--output-format', 'stream-json', '--verbose'];
  if (continueSession) args.push('--continue');
  args.push('-p', text);
  const env = Object.assign({}, process.env);
  delete env.CLAUDECODE;
  delete env.ANTHROPIC_API_KEY;
  const proc = spawn(CLAUDE_BIN, args, { cwd: cwd || WORK_DIR, env, stdio: ['ignore','pipe','pipe'] });
  \<close>
  The environment is a map from variable names to values. The older handler file
  passes no \<open>cwd\<close> argument and spawns in \<open>WORK_DIR\<close>; that is \<open>cwd = None\<close> here.
\<close>

datatype stdio = ignore | pipe

type_synonym environment = "jsstring \<rightharpoonup> jsstring"

record spawn_call =
  command :: jsstring
  args :: "jsstring list"
  cwd :: jsstring
  env :: environment
  stdin :: stdio
  stdout :: stdio
  stderr :: stdio

definition CLAUDE_BIN :: jsstring where
  "CLAUDE_BIN = js ''/Users/kingsotn-twelve/.local/bin/claude''"

definition worker_env :: "environment \<Rightarrow> environment" where
  "worker_env process_env =
     (\<lambda>k. if k = js ''CLAUDECODE'' \<or> k = js ''ANTHROPIC_API_KEY'' then None else process_env k)"

definition askClaude_spawn ::
  "environment \<Rightarrow> jsstring \<Rightarrow> jsstring \<Rightarrow> bool \<Rightarrow> jsstring option \<Rightarrow> spawn_call" where
  "askClaude_spawn process_env WORK_DIR text continueSession cwd_arg =
     \<lparr>command = CLAUDE_BIN,
      args = [js ''--dangerously-skip-permissions'', js ''--model'',
              js ''claude-haiku-4-5-20251001'', js ''--output-format'', js ''stream-json'',
              js ''--verbose'']
             @ (if continueSession then [js ''--continue''] else [])
             @ [js ''-p'', text],
      cwd = (case cwd_arg of None \<Rightarrow> WORK_DIR | Some c \<Rightarrow> if c = [] then WORK_DIR else c),
      env = worker_env process_env,
      stdin = ignore, stdout = pipe, stderr = pipe\<rparr>"

subsection \<open>The promise and the handlers' state\<close>

text \<open>
  What \<open>resolve\<close> receives is \<open>{ result, durationMs, costUsd }\<close>; what \<open>reject\<close>
  receives is an Error, kept as its message.
\<close>

record answer =
  result :: json
  durationMs :: int
  costUsd :: jsvalue

datatype outcome = Resolved answer | Rejected jsstring

text \<open>
  The state shared by the handlers of one invocation: the closure variables \<open>buf\<close>,
  \<open>acc\<close> and \<open>t0\<close>, the promise (\<open>None\<close> while pending), whether the 5-minute timer is
  still pending, and whether \<open>proc.kill('SIGKILL')\<close> was called. Two logs are kept for
  stating properties: \<open>chunks\<close>, the arguments of the \<open>onChunk\<close> calls, and \<open>calls\<close>,
  the arguments of every \<open>resolve\<close> and \<open>reject\<close> call, both oldest first.
\<close>

record invocation =
  buf :: jsstring
  acc :: jsstring
  t0 :: int
  settled :: "outcome option"
  timer :: bool
  killed :: bool
  chunks :: "jsstring list"
  calls :: "outcome list"

definition start :: "int \<Rightarrow> invocation" where
  "start now =
     \<lparr>buf = [], acc = [], t0 = now, settled = None, timer = True, killed = False,
      chunks = [], calls = []\<rparr>"

text \<open>
  \<open>resolve\<close> and \<open>reject\<close> of a promise: the first call settles it, a call on a settled
  promise changes nothing.
\<close>

definition settle :: "outcome \<Rightarrow> invocation \<Rightarrow> invocation" where
  "settle out s =
     s\<lparr>settled := (case settled s of None \<Rightarrow> Some out | Some first \<Rightarrow> Some first),
       calls := calls s @ [out]\<rparr>"

definition resolve :: "answer \<Rightarrow> invocation \<Rightarrow> invocation" where
  "resolve a s = settle (Resolved a) s"

definition reject :: "jsstring \<Rightarrow> invocation \<Rightarrow> invocation" where
  "reject msg s = settle (Rejected msg) s"

subsection \<open>The stdout handler\<close>

text \<open>
  \<^verbatim>\<open>
  for (const b of ((ev.message && ev.message.content) || []))
    if (b.type === 'text' && b.text) { acc += b.text; onChunk(acc); }
  \<close>
  The loop over the content blocks. The second component of the result is \<open>False\<close>
  when an exception left the \<open>try\<close> block: \<open>b.type\<close> on a \<open>null\<close> block, or a
  \<open>b.text\<close> that cannot be converted to a string. What was appended before stays.
\<close>

fun for_blocks :: "runtime \<Rightarrow> json list \<Rightarrow> invocation \<Rightarrow> invocation \<times> bool" where
  "for_blocks rt [] s = (s, True)"
| "for_blocks rt (JNull # bs) s = (s, False)"
| "for_blocks rt (b # bs) s =
     (if field b (js ''type'') = Some (JStr (js ''text'')) \<and> truthy (field b (js ''text''))
      then (case field b (js ''text'') of
              None \<Rightarrow> for_blocks rt bs s
            | Some x \<Rightarrow>
                (case to_string rt x of
                   None \<Rightarrow> (s, False)
                 | Some t \<Rightarrow>
                     for_blocks rt bs
                       (s\<lparr>acc := acc s @ t, chunks := chunks s @ [acc s @ t]\<rparr>)))
      else for_blocks rt bs s)"

text \<open>
  The value iterated: \<open>(ev.message && ev.message.content) || []\<close>. An array is
  iterated block by block; a string is iterated character by character, and a
  character has no \<open>type\<close>, so nothing happens; any other truthy value is not iterable
  and throws.
\<close>

definition content_of :: "json \<Rightarrow> json" where
  "content_of ev =
     (case field ev (js ''message'') of
        None \<Rightarrow> JArr []
      | Some m \<Rightarrow>
          if truthy (Some m) then
            (if truthy (field m (js ''content''))
             then (case field m (js ''content'') of None \<Rightarrow> JArr [] | Some c \<Rightarrow> c)
             else JArr [])
          else JArr [])"

fun for_content :: "runtime \<Rightarrow> json \<Rightarrow> invocation \<Rightarrow> invocation \<times> bool" where
  "for_content rt (JArr bs) s = for_blocks rt bs s"
| "for_content rt (JStr t) s = (s, True)"
| "for_content rt v s = (s, False)"

text \<open>
  The body of the \<open>try\<close> block for a parsed record \<open>ev\<close>; \<open>now\<close> is the reading of
  \<open>Date.now()\<close>. Reading \<open>ev.type\<close> of \<open>null\<close> throws at once.
  \<^verbatim>\<open>
  if (ev.type === 'assistant') for (...) ...
  if (ev.type === 'result' && ev.subtype === 'success')
    resolve({ result: ev.result || acc, durationMs: Date.now()-t0, costUsd: ev.total_cost_usd });
  if (ev.type === 'result' && ev.is_error) reject(new Error(ev.result || 'Claude error'));
  \<close>
\<close>

definition on_success :: "int \<Rightarrow> json \<Rightarrow> invocation \<Rightarrow> invocation" where
  "on_success now ev s =
     (if field ev (js ''type'') = Some (JStr (js ''result'')) \<and>
         field ev (js ''subtype'') = Some (JStr (js ''success''))
      then resolve
             \<lparr>result = (case field ev (js ''result'') of
                          None \<Rightarrow> JStr (acc s)
                        | Some r \<Rightarrow> if truthy (Some r) then r else JStr (acc s)),
              durationMs = now - t0 s,
              costUsd = field ev (js ''total_cost_usd'')\<rparr> s
      else s)"

definition on_is_error :: "runtime \<Rightarrow> json \<Rightarrow> invocation \<Rightarrow> invocation" where
  "on_is_error rt ev s =
     (if field ev (js ''type'') = Some (JStr (js ''result'')) \<and> truthy (field ev (js ''is_error''))
      then (case field ev (js ''result'') of
              None \<Rightarrow> reject (js ''Claude error'') s
            | Some r \<Rightarrow>
                if truthy (Some r)
                then (case to_string rt r of None \<Rightarrow> s | Some msg \<Rightarrow> reject msg s)
                else reject (js ''Claude error'') s)
      else s)"

definition on_record :: "runtime \<Rightarrow> int \<Rightarrow> json \<Rightarrow> invocation \<Rightarrow> invocation" where
  "on_record rt now ev s =
     (if ev = JNull then s
      else
        (case (if field ev (js ''type'') = Some (JStr (js ''assistant''))
               then for_content rt (content_of ev) s else (s, True)) of
           (s1, completed) \<Rightarrow>
             if completed then on_is_error rt ev (on_success now ev s1) else s1))"

text \<open>
  One line of the loop: a blank line is skipped, a line that \<open>JSON.parse\<close> rejects is
  dropped by the empty \<open>catch\<close>.
\<close>

definition on_line :: "runtime \<Rightarrow> int \<Rightarrow> jsstring \<Rightarrow> invocation \<Rightarrow> invocation" where
  "on_line rt now line s =
     (if js_trim line = [] then s
      else (case JSON_parse rt line of None \<Rightarrow> s | Some ev \<Rightarrow> on_record rt now ev s))"

text \<open>
  \<^verbatim>\<open>
  proc.stdout.on('data', function(d) {
    buf += d.toString();
    const lines = buf.split('\n'); buf = lines.pop();
    for (const line of lines) { ... }
  });
  \<close>
  \<open>frame\<close> is the first two statements: from the carry-over buffer and a chunk, the
  complete lines handed to the loop and the new carry-over.
\<close>

definition frame :: "jsstring \<Rightarrow> byte list \<Rightarrow> jsstring list \<times> jsstring" where
  "frame b d = (let lines = split_nl (b @ toString d) in (butlast lines, last lines))"

definition on_data :: "runtime \<Rightarrow> int \<Rightarrow> byte list \<Rightarrow> invocation \<Rightarrow> invocation" where
  "on_data rt now d s =
     (case frame (buf s) d of
        (lines, rest) \<Rightarrow> fold (on_line rt now) lines (s\<lparr>buf := rest\<rparr>))"

text \<open>
  The lines the loop receives over a sequence of chunks, and the carry-over left at
  the end.
\<close>

fun frames :: "jsstring \<Rightarrow> byte list list \<Rightarrow> jsstring list \<times> jsstring" where
  "frames b [] = ([], b)"
| "frames b (d # ds) =
     (case frame b d of
        (ls, b1) \<Rightarrow> (case frames b1 ds of (ls2, b2) \<Rightarrow> (ls @ ls2, b2)))"

subsection \<open>Timer, close and error handlers\<close>

text \<open>
  \<^verbatim>\<open>
  const timer = setTimeout(function() { proc.kill('SIGKILL'); reject(new Error('Timeout 5min')); }, 5*60*1000);
  proc.on('close', function(code) { clearTimeout(timer); if (code !== 0 && !acc) reject(new Error('exit '+code)); });
  proc.on('error', function(err) { clearTimeout(timer); reject(err); });
  \<close>
  The timer callback runs at most once and only while the timer is pending. The exit
  code is \<open>None\<close> for \<open>null\<close> (the worker was ended by a signal). The older handler file
  registers \<open>proc.on('error', reject)\<close>, which leaves the timer pending.
\<close>

datatype source_file = index_js | part_000

definition on_timeout :: "invocation \<Rightarrow> invocation" where
  "on_timeout s =
     (if timer s then reject (js ''Timeout 5min'') (s\<lparr>timer := False, killed := True\<rparr>) else s)"

definition on_close :: "int option \<Rightarrow> invocation \<Rightarrow> invocation" where
  "on_close code s =
     (let s1 = s\<lparr>timer := False\<rparr>
      in if code \<noteq> Some 0 \<and> acc s1 = []
         then reject (js ''exit '' @ (case code of None \<Rightarrow> js ''null'' | Some c \<Rightarrow> int_string c)) s1
         else s1)"

definition on_error :: "source_file \<Rightarrow> jsstring \<Rightarrow> invocation \<Rightarrow> invocation" where
  "on_error file msg s = reject msg (if file = part_000 then s\<lparr>timer := False\<rparr> else s)"

text \<open>
  The events of one invocation, in the order the event loop delivers them: a stdout
  chunk (with the clock reading used while it is handled), the timer firing, the
  worker's \<open>close\<close> and its \<open>error\<close>.
\<close>

datatype event = Data "byte list" int | Timeout | Close "int option" | Failure jsstring

fun step :: "runtime \<Rightarrow> source_file \<Rightarrow> event \<Rightarrow> invocation \<Rightarrow> invocation" where
  "step rt file (Data d now) s = on_data rt now d s"
| "step rt file Timeout s = on_timeout s"
| "step rt file (Close code) s = on_close code s"
| "step rt file (Failure msg) s = on_error file msg s"

definition askClaude :: "runtime \<Rightarrow> source_file \<Rightarrow> int \<Rightarrow> event list \<Rightarrow> invocation" where
  "askClaude rt file now events = fold (step rt file) events (start now)"

section \<open>The fast path: askSDK\<close>

text \<open>
  \<^verbatim>\<open>
  const messages = [...history, { role: 'user', content: text }];
  ...
  let acc = '';
  stream.on('text', (t) => { acc += t; onChunk(acc); });
  const final = await stream.finalMessage();
  ...
  return { result: acc, cost };
  \<close>
  The text deltas of the stream are folded into \<open>acc\<close>; the pair holds \<open>acc\<close> and the
  arguments of the \<open>onChunk\<close> calls, oldest first. The cost is floating-point
  arithmetic on the usage record and is not part of this embedding.
\<close>

definition askSDK_messages :: "jsstring \<Rightarrow> history \<Rightarrow> history" where
  "askSDK_messages text h = h @ [(user, text)]"

definition on_text :: "jsstring \<Rightarrow> jsstring \<times> jsstring list \<Rightarrow> jsstring \<times> jsstring list" where
  "on_text t s = (fst s @ t, snd s @ [fst s @ t])"

definition askSDK :: "jsstring list \<Rightarrow> jsstring \<times> jsstring list" where
  "askSDK deltas = fold on_text deltas ([], [])"

section \<open>The throttler as the specification words it\<close>

text \<open>
  The design rule of the specification, for comparison with \<open>liveUpdate\<close>: a snapshot
  is suppressed when it is identical to the last forwarded value or when less than
  600 ms have passed since the last forwarded value. Here the record holds the last
  forwarded value and the time it was forwarded at.
\<close>

definition spec_notify :: "throttle \<Rightarrow> jsstring \<Rightarrow> int \<Rightarrow> throttle \<times> jsstring option" where
  "spec_notify th snapshot now =
     (let t = trim snapshot None in
      if t = lastText th \<or> now - lastAt th < 600 then (th, None)
      else (\<lparr>lastText = t, lastAt = now\<rparr>, Some t))"

fun spec_notifies ::
  "throttle \<Rightarrow> (jsstring \<times> int) list \<Rightarrow> throttle \<times> (jsstring \<times> int) list" where
  "spec_notifies th [] = (th, [])"
| "spec_notifies th ((t, now) # cs) =
     (case spec_notify th t now of
        (th1, sent) \<Rightarrow>
          (case spec_notifies th1 cs of
             (th2, rest) \<Rightarrow>
               (th2, (case sent of None \<Rightarrow> rest | Some u \<Rightarrow> (u, now) # rest))))"

section \<open>The message handler\<close>

subsection \<open>Patterns and text helpers\<close>

text \<open>
  The patterns of the handler have the \<open>i\<close> flag but not the \<open>u\<close> flag: a letter of
  the pattern matches its two ASCII cases only, \<open>\s\<close> is the white space that \<open>trim\<close>
  removes, and a word character for \<open>\b\<close> is an ASCII letter, a digit or \<open>_\<close>.
\<close>

definition lower_ascii :: "jschar \<Rightarrow> jschar" where
  "lower_ascii c = (if 0x41 \<le> c \<and> c \<le> 0x5A then c + 0x20 else c)"

definition is_digit :: "jschar \<Rightarrow> bool" where
  "is_digit c = (0x30 \<le> c \<and> c \<le> 0x39)"

definition is_word :: "jschar \<Rightarrow> bool" where
  "is_word c = (is_digit c \<or> (0x41 \<le> c \<and> c \<le> 0x5A) \<or> (0x61 \<le> c \<and> c \<le> 0x7A) \<or> c = 0x5F)"

text \<open>\<^verbatim>\<open>/^reset\b/i.test(text)\<close>\<close>

definition reset_command :: "jsstring \<Rightarrow> bool" where
  "reset_command t =
     (map lower_ascii (take 5 t) = js ''reset'' \<and>
      (case drop 5 t of [] \<Rightarrow> True | c # r \<Rightarrow> \<not> is_word c))"

text \<open>\<^verbatim>\<open>/^quick:\s*/i.test(rawText)\<close> and \<^verbatim>\<open>rawText.replace(/^quick:\s*/i, '')\<close>\<close>

definition quick_prefix :: "jsstring \<Rightarrow> bool" where
  "quick_prefix t = (map lower_ascii (take 6 t) = js ''quick:'')"

definition strip_quick :: "jsstring \<Rightarrow> jsstring" where
  "strip_quick t = (if quick_prefix t then dropWhile is_space (drop 6 t) else t)"

text \<open>\<^verbatim>\<open>const isValidTs = (ts) => ts && /^\d+\.\d+$/.test(ts);\<close>\<close>

definition isValidTs :: "jsstring option \<Rightarrow> bool" where
  "isValidTs ts =
     (case ts of
        None \<Rightarrow> False
      | Some t \<Rightarrow>
          takeWhile is_digit t \<noteq> [] \<and>
          (case dropWhile is_digit t of
             [] \<Rightarrow> False
           | c # r \<Rightarrow> c = 0x2E \<and> r \<noteq> [] \<and> list_all is_digit r))"

text \<open>\<open>s.includes(n)\<close>: \<open>n\<close> occurs in \<open>s\<close> as a contiguous piece.\<close>

fun js_includes :: "jsstring \<Rightarrow> jsstring \<Rightarrow> bool" where
  "js_includes [] n = (n = [])"
| "js_includes (c # cs) n = (prefix n (c # cs) \<or> js_includes cs n)"

text \<open>
  What the handler takes from the runtime, besides \<open>JSON.parse\<close> and the conversion of
  a non-string value to a string: \<open>String.prototype.toLowerCase\<close>, the comparison
  \<open>v <= n\<close> of a parsed value with a number (\<open>None\<close> when the conversion of \<open>v\<close>
  throws), the text of a number from \<open>10^21\<close> on, and the message of each kind of
  \<open>TypeError\<close> that the handler can run into.
\<close>

datatype thrown = ReadOfNull | SliceNotFunction | ToFixedNotFunction | CannotConvert

record host = runtime +
  toLowerCase :: "jsstring \<Rightarrow> jsstring"
  at_most :: "json \<Rightarrow> int \<Rightarrow> bool option"
  big_number :: "jsnumber \<Rightarrow> jsstring"
  error_message :: "thrown \<Rightarrow> jsstring"

text \<open>
  \<^verbatim>\<open>
  function fmtMs(ms) { return ms < 60000 ? (ms/1000).toFixed(1)+'s'
    : Math.floor(ms/60000)+'m'+Math.floor((ms%60000)/1000)+'s'; }
  \<close>
\<close>

definition fmtMs :: "host \<Rightarrow> int \<Rightarrow> jsstring" where
  "fmtMs h ms =
     (if ms < 60000 then toFixed (big_number h) 1 (seconds ms) @ js ''s''
      else int_string (ms div 60000) @ js ''m'' @ int_string ((ms mod 60000) div 1000) @ js ''s'')"

text \<open>
  \<^verbatim>\<open>
  const REPOS = { 'tl-pony': ..., 'tl-openapi': ..., 'rodeo': ..., 'tl-api': ... };
  let spawnDir = WORK_DIR;
  for (const [name, dir] of Object.entries(REPOS)) {
    if (text.toLowerCase().includes(name.toLowerCase())) { spawnDir = dir; break; }
  }
  \<close>
\<close>

definition REPOS :: "(jsstring \<times> jsstring) list" where
  "REPOS =
     [(js ''tl-pony'', js ''/Users/kingsotn-twelve/work/tl-pony''),
      (js ''tl-openapi'', js ''/Users/kingsotn-twelve/work/tl-openapi''),
      (js ''rodeo'', js ''/Users/kingsotn-twelve/work/tl-api''),
      (js ''tl-api'', js ''/Users/kingsotn-twelve/work/tl-api'')]"

fun first_repo :: "host \<Rightarrow> jsstring \<Rightarrow> (jsstring \<times> jsstring) list \<Rightarrow> jsstring \<Rightarrow> jsstring" where
  "first_repo h t [] dflt = dflt"
| "first_repo h t ((name, dir) # rest) dflt =
     (if js_includes (toLowerCase h t) (toLowerCase h name) then dir else first_repo h t rest dflt)"

subsection \<open>Messages, settings and what the invocations return\<close>

text \<open>
  The fields of a chat message the handler reads. \<open>None\<close> is a missing field.
\<close>

record message =
  msg_channel_type :: jsstring
  msg_user :: jsstring
  msg_subtype :: "jsstring option"
  msg_text :: "jsstring option"
  msg_channel :: jsstring
  msg_ts :: "jsstring option"
  msg_thread_ts :: "jsstring option"

text \<open>
  The module-level settings; \<open>DM_CHANNEL\<close> is \<open>null\<close> until the start-up call has
  opened the direct-message channel.
\<close>

record config =
  ALLOWED_USER :: jsstring
  WORK_DIR :: jsstring
  USE_SDK :: bool
  DM_CHANNEL :: "jsstring option"

text \<open>
  What the awaited invocation gives the handler when it succeeds: \<open>askSDK\<close> returns
  \<open>{ result: acc, cost }\<close>, a string and a number; \<open>askClaude\<close> resolves with the
  \<open>answer\<close> that its stdout handler passed to \<open>resolve\<close>, whose \<open>result\<close> and \<open>costUsd\<close>
  are whatever values the result record held.
\<close>

record sdk_answer =
  sdk_result :: jsstring
  sdk_cost :: jsnumber

datatype reply = Fast sdk_answer | Full answer

text \<open>The calls the handler makes.\<close>

datatype action =
    PostMessage jsstring "jsstring option" jsstring
  | UpdateMessage jsstring jsstring jsstring
  | AddReaction jsstring "jsstring option" jsstring
  | CallSDK jsstring history
  | CallClaude jsstring bool jsstring

fun is_invocation :: "action \<Rightarrow> bool" where
  "is_invocation (CallSDK t h) = True"
| "is_invocation (CallClaude t c d) = True"
| "is_invocation a = False"

subsection \<open>The pieces of the handler\<close>

text \<open>\<^verbatim>\<open>const rawText = message.text && message.text.trim(); if (!rawText) return;\<close>\<close>

definition rawText :: "message \<Rightarrow> jsstring option" where
  "rawText m =
     (case msg_text m of
        None \<Rightarrow> None
      | Some t \<Rightarrow> if js_trim t = [] then None else Some (js_trim t))"

text \<open>
  The three early returns: not a direct message, not the allowed user, a message with
  a subtype.
\<close>

definition ignored :: "config \<Rightarrow> message \<Rightarrow> bool" where
  "ignored cfg m =
     (msg_channel_type m \<noteq> js ''im'' \<or> msg_user m \<noteq> ALLOWED_USER cfg \<or>
      (case msg_subtype m of None \<Rightarrow> False | Some s \<Rightarrow> s \<noteq> []))"

text \<open>\<^verbatim>\<open>const chan = DM_CHANNEL || message.channel;\<close>\<close>

definition chan :: "config \<Rightarrow> message \<Rightarrow> jsstring" where
  "chan cfg m =
     (case DM_CHANNEL cfg of
        None \<Rightarrow> msg_channel m
      | Some d \<Rightarrow> if d = [] then msg_channel m else d)"

text \<open>
  \<^verbatim>\<open>
  const replyThread = (isValidTs(message.thread_ts) ? message.thread_ts : null)
                   || (isValidTs(message.ts) ? message.ts : null);
  \<close>
\<close>

definition replyThread :: "message \<Rightarrow> jsstring option" where
  "replyThread m =
     (if isValidTs (msg_thread_ts m) then msg_thread_ts m
      else if isValidTs (msg_ts m) then msg_ts m else None)"

text \<open>
  \<^verbatim>\<open>
  const isQuickMode = USE_SDK && /^quick:\s*/i.test(rawText);
  const text = isQuickMode ? rawText.replace(/^quick:\s*/i, '') : rawText;
  \<close>
\<close>

definition isQuickMode :: "config \<Rightarrow> jsstring \<Rightarrow> bool" where
  "isQuickMode cfg raw = (USE_SDK cfg \<and> quick_prefix raw)"

definition effective_text :: "config \<Rightarrow> jsstring \<Rightarrow> jsstring" where
  "effective_text cfg raw = (if isQuickMode cfg raw then strip_quick raw else raw)"

definition spawnDir :: "host \<Rightarrow> config \<Rightarrow> jsstring \<Rightarrow> jsstring" where
  "spawnDir h cfg t = first_repo h t REPOS (WORK_DIR cfg)"

text \<open>The older file: \<^verbatim>\<open>const threadTs = message.thread_ts || message.ts;\<close>\<close>

definition threadTs :: "message \<Rightarrow> jsstring option" where
  "threadTs m =
     (case msg_thread_ts m of
        None \<Rightarrow> msg_ts m
      | Some t \<Rightarrow> if t = [] then msg_ts m else Some t)"

text \<open>The tail of every footer: \<open>' \<cdot> reply to continue \<cdot> reset_'\<close>, with U+00B7.\<close>

definition footer_tail :: jsstring where
  "footer_tail = js '' '' @ [0xB7] @ js '' reply to continue '' @ [0xB7] @ js '' reset_''"

text \<open>
  \<open>trim(result)\<close> when \<open>result\<close> is whatever \<open>askClaude\<close> resolved with. For a string it
  is \<open>trim\<close>. \<open>null\<close> has no \<open>length\<close> to read. A number or a boolean has the length
  \<open>undefined\<close>, which is not \<open><= 3800\<close>, and no \<open>slice\<close> to call. An array of at most
  3800 elements is returned as it is; of a longer one the last 3797 elements are
  joined to \<open>'...'\<close>. An object is returned as it is when its \<open>length\<close> member is
  \<open><= 3800\<close>, and otherwise has no \<open>slice\<close> that can be called.
\<close>

fun trim_value :: "host \<Rightarrow> json \<Rightarrow> thrown + json" where
  "trim_value h (JStr s) = Inr (JStr (trim s None))"
| "trim_value h JNull = Inl ReadOfNull"
| "trim_value h (JNum n) = Inl SliceNotFunction"
| "trim_value h (JBool b) = Inl SliceNotFunction"
| "trim_value h (JArr xs) =
     (if length xs \<le> 3800 then Inr (JArr xs)
      else (case ToString h (JArr (drop (length xs - 3797) xs)) of
              None \<Rightarrow> Inl CannotConvert
            | Some s \<Rightarrow> Inr (JStr (js ''...'' @ s))))"
| "trim_value h (JObj kvs) =
     (case field (JObj kvs) (js ''length'') of
        None \<Rightarrow> Inl SliceNotFunction
      | Some v \<Rightarrow>
          (case at_most h v 3800 of
             None \<Rightarrow> Inl CannotConvert
           | Some True \<Rightarrow> Inr (JObj kvs)
           | Some False \<Rightarrow> Inl SliceNotFunction))"

text \<open>\<open>trim(result) + meta\<close>: the text of the final update, or what is thrown.\<close>

definition final_text :: "host \<Rightarrow> json \<Rightarrow> jsstring \<Rightarrow> thrown + jsstring" where
  "final_text h res meta =
     (case trim_value h res of
        Inl t \<Rightarrow> Inl t
      | Inr (JStr s) \<Rightarrow> Inr (s @ meta)
      | Inr v \<Rightarrow> (case ToString h v of None \<Rightarrow> Inl CannotConvert | Some s \<Rightarrow> Inr (s @ meta)))"

text \<open>
  \<^verbatim>\<open>const costStr = out.costUsd ? ' $' + out.costUsd.toFixed(4) : '';\<close>
  A truthy value that is not a number has no \<open>toFixed\<close>.
\<close>

definition costStr :: "host \<Rightarrow> jsvalue \<Rightarrow> thrown + jsstring" where
  "costStr h c =
     (if truthy c
      then (case c of
              Some (JNum n) \<Rightarrow> Inr (js '' $'' @ toFixed (big_number h) 4 n)
            | _ \<Rightarrow> Inl ToFixedNotFunction)
      else Inr [])"

text \<open>
  The two footers, with \<open>FOOT\<close> for the footer tail:
  \<^verbatim>\<open>
  meta = '\n\n_quick ' + fmtMs(elapsed) + ' $' + out.cost.toFixed(4) + FOOT;
  meta = '\n\n_cc ' + fmtMs(out.durationMs) + costStr + FOOT;
  \<close>
  The older file has \<open>'\n\n_'\<close> in place of both \<open>'\n\n_quick '\<close> and \<open>'\n\n_cc '\<close>.
\<close>

definition label :: "source_file \<Rightarrow> bool \<Rightarrow> jsstring" where
  "label f quick =
     (if f = index_js then js ''\<newline>\<newline>_''
      else if quick then js ''\<newline>\<newline>_quick '' else js ''\<newline>\<newline>_cc '')"

definition sdk_meta :: "host \<Rightarrow> source_file \<Rightarrow> int \<Rightarrow> sdk_answer \<Rightarrow> jsstring" where
  "sdk_meta h f ms out =
     label f True @ fmtMs h ms @ js '' $'' @ toFixed (big_number h) 4 (sdk_cost out) @ footer_tail"

definition cc_meta :: "host \<Rightarrow> source_file \<Rightarrow> answer \<Rightarrow> thrown + jsstring" where
  "cc_meta h f out =
     (case costStr h (costUsd out) of
        Inl t \<Rightarrow> Inl t
      | Inr c \<Rightarrow> Inr (label f False @ fmtMs h (durationMs out) @ c @ footer_tail))"

text \<open>
  The text of the final update of a full-mode run: \<open>costStr\<close> and \<open>meta\<close> are computed
  first, then \<open>trim(result) + meta\<close>.
\<close>

definition cc_body :: "host \<Rightarrow> source_file \<Rightarrow> answer \<Rightarrow> thrown + jsstring" where
  "cc_body h f out =
     (case cc_meta h f out of Inl t \<Rightarrow> Inl t | Inr meta \<Rightarrow> final_text h (result out) meta)"

definition sdk_body :: "host \<Rightarrow> source_file \<Rightarrow> int \<Rightarrow> sdk_answer \<Rightarrow> jsstring" where
  "sdk_body h f ms out = trim (sdk_result out) None @ sdk_meta h f ms out"

subsection \<open>Runs of the handler and the shared state\<close>

text \<open>
  The handler is an \<open>async\<close> function: it runs up to an \<open>await\<close>, and continues when
  the awaited call returns; in between the event loop runs other handlers, other
  runs of this one, and the \<open>onChunk\<close> calls of invocations under way. A run of the
  handler is therefore kept as a record, with the phase it waits in:
  \<^item> \<open>Posting\<close>: at \<open>await client.chat.postMessage\<close> of the placeholder;
  \<^item> \<open>Running\<close>: at \<open>await askSDK\<close> or \<open>await askClaude\<close>;
  \<^item> \<open>Updating\<close>: at \<open>await client.chat.update\<close> of the final text;
  \<^item> \<open>Failing\<close>: in the \<open>catch\<close> block, at \<open>await client.chat.update\<close> of the error;
  \<^item> \<open>Finished\<close>: returned, after the placeholder was posted;
  \<^item> \<open>Abandoned\<close>: returned because the placeholder could not be posted.
  The record holds the local variables of the run: the session key, \<open>chan\<close>,
  \<open>message.ts\<close>, \<open>text\<close>, the mode, \<open>spawnDir\<close>, \<open>posted.ts\<close>, \<open>t0\<close>, the variables
  \<open>lastText\<close> and \<open>lastAt\<close> of its \<open>liveUpdate\<close>, and \<open>history\<close>, which is a reference
  to an array.
\<close>

datatype phase = Posting | Running | Updating | Failing | Finished | Abandoned

record 'k run =
  run_key :: 'k
  run_file :: source_file
  run_chan :: jsstring
  run_msg_ts :: "jsstring option"
  run_text :: jsstring
  run_quick :: bool
  run_dir :: jsstring
  run_phase :: phase
  run_ts :: jsstring
  run_t0 :: int
  run_throttle :: throttle
  run_history :: nat

text \<open>
  The module-level state: the map \<open>histories\<close> from keys to arrays, the arrays
  themselves (by address, since a run keeps the array it read while other runs and a
  reset change the map), the set \<open>ccSessions\<close> (\<open>sessions\<close> in the older file), and the
  runs of the handler. The newer file keys the state by \<open>message.channel\<close>, the
  older one by \<open>threadTs\<close>.
\<close>

record 'k system =
  histories :: "'k \<rightharpoonup> nat"
  arrays :: "nat \<Rightarrow> history"
  next_array :: nat
  ccSessions :: "'k set"
  runs :: "nat \<rightharpoonup> 'k run"
  next_run :: nat

definition boot :: "'k system" where
  "boot =
     \<lparr>histories = Map.empty, arrays = (\<lambda>a. []), next_array = 0, ccSessions = {},
      runs = Map.empty, next_run = 0\<rparr>"

text \<open>
  What the event loop delivers: a message; the return of the placeholder post of a
  run (\<open>posted.ts\<close>, or \<open>None\<close> when the post failed) with the clock reading taken for
  \<open>t0\<close>; an \<open>onChunk\<close> call of the invocation of a run, with the clock reading taken
  inside \<open>liveUpdate\<close>; the settling of the awaited invocation of a run (\<open>Inl\<close> the
  message of the error it rejects with) with the clock reading taken afterwards; and
  the return of the awaited \<open>chat.update\<close> of a run (\<open>Some\<close> the message of the error
  when it is rejected).
\<close>

datatype occurrence =
    Message message
  | PostReturned nat "jsstring option" int
  | OnChunk nat jsstring int
  | Settled nat "jsstring + reply" int
  | UpdateReturned nat "jsstring option"

text \<open>Every call is listed with the number of the run that makes it.\<close>

type_synonym calls = "(nat \<times> action) list"

subsection \<open>handleMessage: the handler of the newer file up to its first await\<close>

text \<open>
  \<^verbatim>\<open>
  if (message.channel_type !== 'im') return;
  if (message.user !== ALLOWED_USER) return;
  if (message.subtype) return;
  const rawText = message.text && message.text.trim();
  if (!rawText) return;
  ...
  const sessionKey = message.channel;
  ...
  if (/^reset\b/i.test(text)) {
    histories.delete(sessionKey); ccSessions.delete(sessionKey);
    await client.chat.postMessage({ channel: chan, thread_ts: replyThread, text: 'Reset.' });
    return;
  }
  ... spawnDir ...
  const posted = await client.chat.postMessage({
    channel: chan, thread_ts: replyThread, text: isQuickMode ? '_..._' : '_cc..._' })...
  \<close>
  A reset is complete at its \<open>await\<close>; any other accepted message leaves a run in the
  phase \<open>Posting\<close>.
\<close>

definition handleMessage ::
  "host \<Rightarrow> config \<Rightarrow> message \<Rightarrow> jsstring system \<Rightarrow> jsstring system \<times> calls" where
  "handleMessage h cfg m sys =
     (if ignored cfg m then (sys, [])
      else
        (case rawText m of
           None \<Rightarrow> (sys, [])
         | Some raw \<Rightarrow>
             (let sessionKey = msg_channel m;
                  quick = isQuickMode cfg raw;
                  text = effective_text cfg raw;
                  r = next_run sys
              in
                if reset_command text
                then (sys\<lparr>histories := (histories sys)(sessionKey := None),
                          ccSessions := ccSessions sys - {sessionKey},
                          next_run := Suc r\<rparr>,
                      [(r, PostMessage (chan cfg m) (replyThread m) (js ''Reset.''))])
                else
                  (sys\<lparr>runs := (runs sys)(r \<mapsto>
                           \<lparr>run_key = sessionKey, run_file = part_000, run_chan = chan cfg m,
                            run_msg_ts = msg_ts m, run_text = text, run_quick = quick,
                            run_dir = spawnDir h cfg text, run_phase = Posting, run_ts = [],
                            run_t0 = 0, run_throttle = throttle0, run_history = 0\<rparr>),
                        next_run := Suc r\<rparr>,
                   [(r, PostMessage (chan cfg m) (replyThread m)
                          (if quick then js ''_..._'' else js ''_cc..._''))]))))"

subsection \<open>The handler of the older file up to its first await\<close>

text \<open>
  The function passed to \<open>app.message\<close> in the older file. The key of the session
  state and the reply thread are both \<open>threadTs\<close>; the mode is \<open>USE_SDK\<close> for every
  message, there is no prefix, and the worker is spawned in \<open>WORK_DIR\<close>.
\<close>

definition app_message ::
  "host \<Rightarrow> config \<Rightarrow> message \<Rightarrow> jsstring option system \<Rightarrow> jsstring option system \<times> calls" where
  "app_message h cfg m sys =
     (if ignored cfg m then (sys, [])
      else
        (case rawText m of
           None \<Rightarrow> (sys, [])
         | Some text \<Rightarrow>
             (let r = next_run sys
              in
                if reset_command text
                then (sys\<lparr>histories := (histories sys)(threadTs m := None),
                          ccSessions := ccSessions sys - {threadTs m},
                          next_run := Suc r\<rparr>,
                      [(r, PostMessage (chan cfg m) (threadTs m) (js ''Reset.''))])
                else
                  (sys\<lparr>runs := (runs sys)(r \<mapsto>
                           \<lparr>run_key = threadTs m, run_file = index_js, run_chan = chan cfg m,
                            run_msg_ts = msg_ts m, run_text = text, run_quick = USE_SDK cfg,
                            run_dir = WORK_DIR cfg, run_phase = Posting, run_ts = [],
                            run_t0 = 0, run_throttle = throttle0, run_history = 0\<rparr>),
                        next_run := Suc r\<rparr>,
                   [(r, PostMessage (chan cfg m) (threadTs m) (js ''_..._''))]))))"

subsection \<open>The continuations of a run\<close>

text \<open>
  After the placeholder post:
  \<^verbatim>\<open>
  if (!posted) return;
  let lastText = '', lastAt = 0;
  function liveUpdate(t) { ... }
  const t0 = Date.now();
  try {
    if (isQuickMode) {
      const history = histories.get(sessionKey) || [];
      const out = await askSDK(text, history, liveUpdate);
    ...
    } else {
      const isContinue = ccSessions.has(sessionKey);
      const out = await askClaude(text, isContinue, liveUpdate, spawnDir);
  \<close>
  The session state is read here, when the invocation is started. \<open>askSDK\<close> copies
  the history into its request at once; an absent history is a new empty array.
\<close>

definition after_post ::
  "nat \<Rightarrow> jsstring option \<Rightarrow> int \<Rightarrow> 'k system \<Rightarrow> 'k system \<times> calls" where
  "after_post r p now sys =
     (case runs sys r of
        None \<Rightarrow> (sys, [])
      | Some ru \<Rightarrow>
          if run_phase ru \<noteq> Posting then (sys, [])
          else
            (case p of
               None \<Rightarrow> (sys\<lparr>runs := (runs sys)(r \<mapsto> ru\<lparr>run_phase := Abandoned\<rparr>)\<rparr>, [])
             | Some ts \<Rightarrow>
                 if run_quick ru then
                   (case histories sys (run_key ru) of
                      Some a \<Rightarrow>
                        (sys\<lparr>runs := (runs sys)(r \<mapsto>
                               ru\<lparr>run_phase := Running, run_ts := ts, run_t0 := now,
                                  run_history := a\<rparr>)\<rparr>,
                         [(r, CallSDK (run_text ru) (arrays sys a))])
                    | None \<Rightarrow>
                        (sys\<lparr>arrays := (arrays sys)(next_array sys := []),
                             next_array := Suc (next_array sys),
                             runs := (runs sys)(r \<mapsto>
                               ru\<lparr>run_phase := Running, run_ts := ts, run_t0 := now,
                                  run_history := next_array sys\<rparr>)\<rparr>,
                         [(r, CallSDK (run_text ru) [])]))
                 else
                   (sys\<lparr>runs := (runs sys)(r \<mapsto>
                          ru\<lparr>run_phase := Running, run_ts := ts, run_t0 := now\<rparr>)\<rparr>,
                    [(r, CallClaude (run_text ru) (run_key ru \<in> ccSessions sys) (run_dir ru))])))"

text \<open>
  An \<open>onChunk\<close> call is a call of the run's \<open>liveUpdate\<close>. The closure exists from the
  start of the invocation on and is never taken away: the stdout handler of
  \<open>askClaude\<close> keeps calling it for assistant records that arrive after the promise is
  settled.
\<close>

definition on_chunk :: "nat \<Rightarrow> jsstring \<Rightarrow> int \<Rightarrow> 'k system \<Rightarrow> 'k system \<times> calls" where
  "on_chunk r t now sys =
     (case runs sys r of
        None \<Rightarrow> (sys, [])
      | Some ru \<Rightarrow>
          if run_phase ru = Posting \<or> run_phase ru = Abandoned then (sys, [])
          else
            (case liveUpdate (run_throttle ru) t now of
               (th, sent) \<Rightarrow>
                 (sys\<lparr>runs := (runs sys)(r \<mapsto> ru\<lparr>run_throttle := th\<rparr>)\<rparr>,
                  (case sent of
                     None \<Rightarrow> []
                   | Some u \<Rightarrow> [(r, UpdateMessage (run_chan ru) (run_ts ru) u)]))))"

text \<open>
  After the invocation:
  \<^verbatim>\<open>
      result = out.result;
      history.push({ role: 'user', content: text }, { role: 'assistant', content: result });
      if (history.length > 20) history.splice(0, 2);
      histories.set(sessionKey, history);
      const elapsed = Date.now() - t0;
      meta = ...
    } else {
      ...
      ccSessions.add(sessionKey);
      result = out.result;
      const costStr = ...; meta = ...
    }
    await client.chat.update({ channel: chan, ts: posted.ts, text: trim(result) + meta });
    ...
  } catch(err) {
    console.log('err:', err.message);
    await client.chat.update({ ..., text: 'Error: ' + err.message }).catch(function(){});
  \<close>
  The session state is written here, into the array the run read at its start. A
  rejected invocation, or a \<open>TypeError\<close> on the way to the final text, enters the
  \<open>catch\<close> block.
\<close>

definition to_catch :: "nat \<Rightarrow> 'k run \<Rightarrow> jsstring \<Rightarrow> 'k system \<Rightarrow> 'k system \<times> calls" where
  "to_catch r ru msg sys =
     (sys\<lparr>runs := (runs sys)(r \<mapsto> ru\<lparr>run_phase := Failing\<rparr>)\<rparr>,
      [(r, UpdateMessage (run_chan ru) (run_ts ru) (js ''Error: '' @ msg))])"

definition to_update :: "nat \<Rightarrow> 'k run \<Rightarrow> jsstring \<Rightarrow> 'k system \<Rightarrow> 'k system \<times> calls" where
  "to_update r ru body sys =
     (sys\<lparr>runs := (runs sys)(r \<mapsto> ru\<lparr>run_phase := Updating\<rparr>)\<rparr>,
      [(r, UpdateMessage (run_chan ru) (run_ts ru) body)])"

definition after_invocation ::
  "host \<Rightarrow> nat \<Rightarrow> jsstring + reply \<Rightarrow> int \<Rightarrow> 'k system \<Rightarrow> 'k system \<times> calls" where
  "after_invocation h r outcome now sys =
     (case runs sys r of
        None \<Rightarrow> (sys, [])
      | Some ru \<Rightarrow>
          if run_phase ru \<noteq> Running then (sys, [])
          else
            (case outcome of
               Inl msg \<Rightarrow> to_catch r ru msg sys
             | Inr (Fast out) \<Rightarrow>
                 if run_quick ru then
                   to_update r ru (sdk_body h (run_file ru) (now - run_t0 ru) out)
                     (sys\<lparr>arrays := (arrays sys)(run_history ru :=
                              history_push (arrays sys (run_history ru)) (run_text ru)
                                (sdk_result out)),
                          histories := (histories sys)(run_key ru \<mapsto> run_history ru)\<rparr>)
                 else (sys, [])
             | Inr (Full out) \<Rightarrow>
                 if run_quick ru then (sys, [])
                 else
                   (case cc_body h (run_file ru) out of
                      Inl t \<Rightarrow>
                        to_catch r ru (error_message h t)
                          (sys\<lparr>ccSessions := insert (run_key ru) (ccSessions sys)\<rparr>)
                    | Inr body \<Rightarrow>
                        to_update r ru body
                          (sys\<lparr>ccSessions := insert (run_key ru) (ccSessions sys)\<rparr>))))"

text \<open>
  After an awaited \<open>chat.update\<close>:
  \<^verbatim>\<open>
    await client.reactions.add({ ..., name: 'white_check_mark' }).catch(function(){});
  } catch(err) {
    ...
    await client.reactions.add({ ..., name: 'x' }).catch(function(){});
  }
  \<close>
  A rejected final update enters the \<open>catch\<close> block; the outcome of the error update
  is ignored.
\<close>

definition after_update :: "nat \<Rightarrow> jsstring option \<Rightarrow> 'k system \<Rightarrow> 'k system \<times> calls" where
  "after_update r res sys =
     (case runs sys r of
        None \<Rightarrow> (sys, [])
      | Some ru \<Rightarrow>
          if run_phase ru = Updating then
            (case res of
               None \<Rightarrow>
                 (sys\<lparr>runs := (runs sys)(r \<mapsto> ru\<lparr>run_phase := Finished\<rparr>)\<rparr>,
                  [(r, AddReaction (run_chan ru) (run_msg_ts ru) (js ''white_check_mark''))])
             | Some msg \<Rightarrow> to_catch r ru msg sys)
          else if run_phase ru = Failing then
            (sys\<lparr>runs := (runs sys)(r \<mapsto> ru\<lparr>run_phase := Finished\<rparr>)\<rparr>,
             [(r, AddReaction (run_chan ru) (run_msg_ts ru) (js ''x''))])
          else (sys, []))"

subsection \<open>The event loop\<close>

text \<open>
  \<open>arrive\<close> is the handler of the file in question up to its first \<open>await\<close>
  (\<open>handleMessage h cfg\<close> or \<open>app_message h cfg\<close>); the continuations are the same in
  both files.
\<close>

fun deliver ::
  "(message \<Rightarrow> 'k system \<Rightarrow> 'k system \<times> calls) \<Rightarrow> host \<Rightarrow> occurrence \<Rightarrow> 'k system
     \<Rightarrow> 'k system \<times> calls" where
  "deliver arrive h (Message m) sys = arrive m sys"
| "deliver arrive h (PostReturned r p now) sys = after_post r p now sys"
| "deliver arrive h (OnChunk r t now) sys = on_chunk r t now sys"
| "deliver arrive h (Settled r outcome now) sys = after_invocation h r outcome now sys"
| "deliver arrive h (UpdateReturned r res) sys = after_update r res sys"

fun play ::
  "(message \<Rightarrow> 'k system \<Rightarrow> 'k system \<times> calls) \<Rightarrow> host \<Rightarrow> occurrence list \<Rightarrow> 'k system
     \<Rightarrow> 'k system \<times> calls" where
  "play arrive h [] sys = (sys, [])"
| "play arrive h (e # es) sys =
     (case deliver arrive h e sys of
        (s1, a1) \<Rightarrow> (case play arrive h es s1 of (s2, a2) \<Rightarrow> (s2, a1 @ a2)))"

subsection \<open>Reading a run off the events and the calls\<close>

text \<open>
  The \<open>chat.update\<close> calls of run \<open>r\<close> among the calls made, in order: what the chat
  message of that run is given to show.
\<close>

fun is_update :: "action \<Rightarrow> bool" where
  "is_update (UpdateMessage c ts t) = True"
| "is_update a = False"

definition updates :: "nat \<Rightarrow> calls \<Rightarrow> action list" where
  "updates r acts = map snd (filter (\<lambda>(r', a). r' = r \<and> is_update a) acts)"

text \<open>The invocations started by run \<open>r\<close>.\<close>

definition invocations :: "nat \<Rightarrow> calls \<Rightarrow> action list" where
  "invocations r acts = map snd (filter (\<lambda>(r', a). r' = r \<and> is_invocation a) acts)"

text \<open>
  The \<open>onChunk\<close> calls of the invocation of run \<open>r\<close> among the events, each with its
  snapshot and clock reading.
\<close>

fun chunks_of :: "nat \<Rightarrow> occurrence list \<Rightarrow> (jsstring \<times> int) list" where
  "chunks_of r [] = []"
| "chunks_of r (OnChunk r' t now # es) =
     (if r' = r then (t, now) # chunks_of r es else chunks_of r es)"
| "chunks_of r (e # es) = chunks_of r es"

fun is_chunk :: "nat \<Rightarrow> occurrence \<Rightarrow> bool" where
  "is_chunk r (OnChunk r' t now) = (r' = r)"
| "is_chunk r e = False"

fun settles :: "nat \<Rightarrow> occurrence \<Rightarrow> bool" where
  "settles r (Settled r' outcome now) = (r' = r)"
| "settles r e = False"

fun update_rejected :: "nat \<Rightarrow> occurrence \<Rightarrow> bool" where
  "update_rejected r (UpdateReturned r' (Some msg)) = (r' = r)"
| "update_rejected r e = False"

text \<open>
  Run \<open>r\<close> is at \<open>await askSDK\<close> or \<open>await askClaude\<close>, with the local variables \<open>ru\<close>.
  Run numbers are given out in order, so a run that exists has a number below the
  next one.
\<close>

definition awaiting :: "nat \<Rightarrow> 'k run \<Rightarrow> 'k system \<Rightarrow> bool" where
  "awaiting r ru sys = (runs sys r = Some ru \<and> run_phase ru = Running \<and> r < next_run sys)"

text \<open>
  The event is the return of a successful invocation to a run of key \<open>k\<close> that waits
  for it: the one place where the handler writes an entry of the session state.
\<close>

fun completes :: "'k \<Rightarrow> 'k system \<Rightarrow> occurrence \<Rightarrow> bool" where
  "completes k sys (Settled r (Inr out) now) =
     (case runs sys r of
        None \<Rightarrow> False
      | Some ru \<Rightarrow> run_key ru = k \<and> run_phase ru = Running)"
| "completes k sys e = False"

text \<open>
  No event of the sequence, delivered in order from the state \<open>sys\<close>, is the return of
  a successful invocation to a run of key \<open>k\<close>.
\<close>

fun undisturbed ::
  "(message \<Rightarrow> 'k system \<Rightarrow> 'k system \<times> calls) \<Rightarrow> host \<Rightarrow> 'k \<Rightarrow> occurrence list
     \<Rightarrow> 'k system \<Rightarrow> bool" where
  "undisturbed arrive h k [] sys = True"
| "undisturbed arrive h k (e # es) sys =
     (\<not> completes k sys e \<and> undisturbed arrive h k es (fst (deliver arrive h e sys)))"

text \<open>
  The \<open>chat.update\<close> calls that the \<open>liveUpdate\<close> of a run makes for a sequence of
  \<open>onChunk\<close> calls.
\<close>

definition forwarded :: "'k run \<Rightarrow> (jsstring \<times> int) list \<Rightarrow> action list" where
  "forwarded ru cs =
     map (\<lambda>(t, now). UpdateMessage (run_chan ru) (run_ts ru) t)
       (snd (liveUpdates (run_throttle ru) cs))"

section \<open>Notions used to state the properties\<close>

text \<open>
  A list of snapshots grows when each one is a prefix of the next and no longer than
  it.
\<close>

fun growing :: "jsstring list \<Rightarrow> bool" where
  "growing [] = True"
| "growing [x] = True"
| "growing (x # y # r) = (prefix x y \<and> length x \<le> length y \<and> growing (y # r))"

text \<open>The snapshots grow and the latest one is the accumulator itself.\<close>

definition acc_inv :: "jsstring list \<Rightarrow> jsstring \<Rightarrow> bool" where
  "acc_inv cs a = (growing cs \<and> (cs = [] \<or> last cs = a))"

text \<open>The first \<open>resolve\<close> or \<open>reject\<close> call of a log, if there is one.\<close>

fun first_call :: "outcome list \<Rightarrow> outcome option" where
  "first_call [] = None"
| "first_call (c # cs) = Some c"

text \<open>
  Sample input for the examples: the bytes of an ASCII text, three records of the
  worker protocol, and a runtime whose \<open>JSON.parse\<close> knows these three lines and
  rejects every other one.
\<close>

definition bytes :: "string \<Rightarrow> byte list" where
  "bytes s = map (\<lambda>c. of_char c) s"

definition line_text :: string where
  \<open>line_text = ''{"type":"assistant","message":{"content":[{"type":"text","text":"hi"}]}}''\<close>

definition line_success :: string where
  \<open>line_success = ''{"type":"result","subtype":"success","result":"done"}''\<close>

definition line_error :: string where
  \<open>line_error = ''{"type":"result","is_error":true,"result":"boom"}''\<close>

definition record_text :: json where
  "record_text =
     JObj [(js ''type'', JStr (js ''assistant'')),
           (js ''message'',
            JObj [(js ''content'',
                   JArr [JObj [(js ''type'', JStr (js ''text'')), (js ''text'', JStr (js ''hi''))]])])]"

definition record_success :: json where
  "record_success =
     JObj [(js ''type'', JStr (js ''result'')), (js ''subtype'', JStr (js ''success'')),
           (js ''result'', JStr (js ''done''))]"

definition record_error :: json where
  "record_error =
     JObj [(js ''type'', JStr (js ''result'')), (js ''is_error'', JBool True),
           (js ''result'', JStr (js ''boom''))]"

definition sample_runtime :: runtime where
  "sample_runtime =
     \<lparr>JSON_parse = (\<lambda>l. if l = js line_text then Some record_text
                         else if l = js line_success then Some record_success
                         else if l = js line_error then Some record_error
                         else None),
      ToString = (\<lambda>v. None)\<rparr>"

text \<open>
  The promise holds the first call of the log, and is pending when the log is empty.
\<close>

definition first_wins :: "invocation \<Rightarrow> bool" where
  "first_wins s = (settled s = first_call (calls s))"

text \<open>
  How one handler may move the promise: the log of calls is only extended, and a
  promise that held the first call still does.
\<close>

definition promise_step :: "invocation \<Rightarrow> invocation \<Rightarrow> bool" where
  "promise_step s s' = (prefix (calls s) (calls s') \<and> (\<not> first_wins s \<or> first_wins s'))"

text \<open>
  Sample input for the handler. The sample host has the primitives of
  \<open>sample_runtime\<close>; it lowers the ASCII letters, compares numbers, \<open>null\<close> and
  booleans with a number, and has the error messages of Node. The examples give it
  ASCII text, no number from \<open>10^21\<close> on, and nothing else to compare.
\<close>

definition sample_host :: host where
  "sample_host =
     \<lparr>JSON_parse = JSON_parse sample_runtime, ToString = ToString sample_runtime,
      toLowerCase = map lower_ascii,
      at_most = (\<lambda>v n. case v of
                   JNum (Finite q) \<Rightarrow> Some (q \<le> of_int n)
                 | JNum MinusZero \<Rightarrow> Some (0 \<le> n)
                 | JNum MinusInfinity \<Rightarrow> Some True
                 | JNum x \<Rightarrow> Some False
                 | JNull \<Rightarrow> Some (0 \<le> n)
                 | JBool b \<Rightarrow> Some ((if b then 1 else 0) \<le> n)
                 | x \<Rightarrow> None),
      big_number = (\<lambda>n. []),
      error_message = (\<lambda>t. case t of
                   ReadOfNull \<Rightarrow> js ''Cannot read properties of null (reading 'length')''
                 | SliceNotFunction \<Rightarrow> js ''t.slice is not a function''
                 | ToFixedNotFunction \<Rightarrow> js ''out.costUsd.toFixed is not a function''
                 | CannotConvert \<Rightarrow> js ''Cannot convert object to primitive value'')\<rparr>"

text \<open>
  The settings of a deployment without the fast path and of one with it; a direct
  message from the allowed user, a reset message and a fast-mode message in the same
  channel.
\<close>

definition sample_config :: config where
  "sample_config =
     \<lparr>ALLOWED_USER = js ''U1'', WORK_DIR = js ''/w'', USE_SDK = False, DM_CHANNEL = None\<rparr>"

definition sample_message :: message where
  "sample_message =
     \<lparr>msg_channel_type = js ''im'', msg_user = js ''U1'', msg_subtype = None,
      msg_text = Some (js ''hello''), msg_channel = js ''D1'', msg_ts = Some (js ''1.2''),
      msg_thread_ts = None\<rparr>"

definition sample_reset :: message where
  "sample_reset = sample_message\<lparr>msg_text := Some (js ''Reset now'')\<rparr>"

definition sample_fast :: config where
  "sample_fast = sample_config\<lparr>USE_SDK := True\<rparr>"

definition sample_quick :: message where
  "sample_quick = sample_message\<lparr>msg_text := Some (js ''quick: hello'')\<rparr>"

text \<open>
  What a worker and the API answer: the result \<open>done\<close> after one second, with no cost
  reported, with the cost 0.0123, and with a number in place of the text; the result
  \<open>done\<close> of the fast path at the cost 0.
\<close>

definition sample_answer :: answer where
  "sample_answer = \<lparr>result = JStr (js ''done''), durationMs = 1000, costUsd = None\<rparr>"

definition sample_priced :: answer where
  "sample_priced =
     \<lparr>result = JStr (js ''done''), durationMs = 1250, costUsd = Some (JNum (Finite (123 / 10000)))\<rparr>"

definition sample_number :: answer where
  "sample_number = \<lparr>result = JNum (Finite 42), durationMs = 1000, costUsd = None\<rparr>"

definition sample_sdk :: sdk_answer where
  "sample_sdk = \<lparr>sdk_result = js ''done'', sdk_cost = Finite 0\<rparr>"

text \<open>
  A session state in which the key of the sample messages has a fast-mode history of
  one turn and the continuation mark, keyed as the newer file and as the older file
  key it.
\<close>

definition sample_system :: "jsstring system" where
  "sample_system =
     \<lparr>histories = [js ''D1'' \<mapsto> 0],
      arrays = (\<lambda>a. [])(0 := [(user, js ''q''), (assistant, js ''a'')]),
      next_array = 1, ccSessions = {js ''D1''}, runs = Map.empty, next_run = 0\<rparr>"

definition sample_system_old :: "jsstring option system" where
  "sample_system_old =
     \<lparr>histories = [Some (js ''1.2'') \<mapsto> 0],
      arrays = (\<lambda>a. [])(0 := [(user, js ''q''), (assistant, js ''a'')]),
      next_array = 1, ccSessions = {Some (js ''1.2'')}, runs = Map.empty, next_run = 0\<rparr>"

text \<open>
  The run of the handler of the newer file for \<open>sample_message\<close>, at the moment it
  waits for \<open>askClaude\<close>: the placeholder was posted as message \<open>9.9\<close> and the clock read
  1000 at the start of the invocation. The same for the handler of the older file.
\<close>

definition sample_run :: "jsstring run" where
  "sample_run =
     \<lparr>run_key = js ''D1'', run_file = part_000, run_chan = js ''D1'',
      run_msg_ts = Some (js ''1.2''), run_text = js ''hello'', run_quick = False,
      run_dir = js ''/w'', run_phase = Running, run_ts = js ''9.9'', run_t0 = 1000,
      run_throttle = throttle0, run_history = 0\<rparr>"

definition sample_run_old :: "jsstring option run" where
  "sample_run_old =
     \<lparr>run_key = Some (js ''1.2''), run_file = index_js, run_chan = js ''D1'',
      run_msg_ts = Some (js ''1.2''), run_text = js ''hello'', run_quick = False,
      run_dir = js ''/w'', run_phase = Running, run_ts = js ''9.9'', run_t0 = 1000,
      run_throttle = throttle0, run_history = 0\<rparr>"

text \<open>The events of a run that ends well, after its invocation has started.\<close>

definition sample_chunks :: "occurrence list" where
  "sample_chunks = [OnChunk 0 (js ''do'') 1000, OnChunk 0 (js ''done'') 1100]"

definition sample_running :: "jsstring system" where
  "sample_running = boot\<lparr>runs := [0 \<mapsto> sample_run], next_run := 1\<rparr>"

definition sample_running_old :: "jsstring option system" where
  "sample_running_old = boot\<lparr>runs := [0 \<mapsto> sample_run_old], next_run := 1\<rparr>"

section \<open>Properties\<close>

subsection \<open>trim and the live updates\<close>

lemma length_js [simp]: "length (js s) = length s"
  by (simp add: js_def)

lemma trim_default_short: "length t \<le> 3800 \<Longrightarrow> trim t None = t"
  by (simp add: trim_def)

lemma trim_default_long:
  "3800 < length t \<Longrightarrow> trim t None = js ''...'' @ drop (length t - 3797) t"
  by (simp add: trim_def js_slice_def nat_diff_distrib' max_def)

lemma length_trim_default: "length (trim t None) \<le> 3800"
proof (cases "length t \<le> 3800")
  case True
  then show ?thesis by (simp add: trim_default_short)
next
  case False
  then show ?thesis by (simp add: trim_default_long)
qed

lemma liveUpdate_sent: "liveUpdate th t now = (th1, Some u) \<Longrightarrow> u = trim t None"
  by (auto simp: liveUpdate_def Let_def split: if_splits)

lemma liveUpdates_bounded:
  "u \<in> set (snd (liveUpdates th cs)) \<Longrightarrow> length (fst u) \<le> 3800"
proof (induction cs arbitrary: th)
  case Nil
  then show ?case by simp
next
  case (Cons c cs)
  obtain t now where c: "c = (t, now)" by (cases c)
  obtain th1 sent where s1: "liveUpdate th t now = (th1, sent)" by (cases "liveUpdate th t now")
  obtain th2 rest where s2: "liveUpdates th1 cs = (th2, rest)" by (cases "liveUpdates th1 cs")
  show ?case
  proof (cases sent)
    case None
    with Cons.prems c s1 s2 have "u \<in> set rest" by simp
    then show ?thesis using Cons.IH [of th1] s2 by simp
  next
    case (Some v)
    with Cons.prems c s1 s2 have "fst u = v \<or> u \<in> set rest" by auto
    moreover have "length v \<le> 3800"
      using s1 Some liveUpdate_sent length_trim_default by metis
    moreover have "u \<in> set rest \<Longrightarrow> length (fst u) \<le> 3800"
      using Cons.IH [of th1] s2 by simp
    ultimately show ?thesis by auto
  qed
qed

text \<open>
  C10. With the default budget \<open>trim\<close> returns an input of at most 3800 code units
  unchanged; a longer input becomes exactly 3800 code units, the marker \<open>...\<close> followed
  by the last 3797 code units of the input. Hence every text that a sequence of
  \<open>liveUpdate\<close> calls forwards has at most 3800 code units.
\<close>

theorem trim_display_bound:
  "(length t \<le> 3800 \<longrightarrow> trim t None = t) \<and>
   (3800 < length t \<longrightarrow>
      trim t None = js ''...'' @ drop (length t - 3797) t \<and>
      length (drop (length t - 3797) t) = 3797 \<and>
      length (trim t None) = 3800) \<and>
   (\<forall>u \<in> set (snd (liveUpdates th cs)). length (fst u) \<le> 3800)"
proof (intro conjI impI ballI)
  show "length t \<le> 3800 \<Longrightarrow> trim t None = t" by (rule trim_default_short)
  show "3800 < length t \<Longrightarrow> trim t None = js ''...'' @ drop (length t - 3797) t"
    by (rule trim_default_long)
  show "3800 < length t \<Longrightarrow> length (drop (length t - 3797) t) = 3797" by simp
  show "3800 < length t \<Longrightarrow> length (trim t None) = 3800" by (simp add: trim_default_long)
  show "\<And>u. u \<in> set (snd (liveUpdates th cs)) \<Longrightarrow> length (fst u) \<le> 3800"
    by (rule liveUpdates_bounded)
qed

theorem trim_display_bound_witness:
  "length (js ''ok'') \<le> 3800 \<and> trim (js ''ok'') None = js ''ok'' \<and>
   3800 < length (replicate 3801 (97 :: jschar)) \<and>
   trim (replicate 3801 (97 :: jschar)) None = js ''...'' @ drop (3801 - 3797) (replicate 3801 97) \<and>
   length (trim (replicate 3801 (97 :: jschar)) None) = 3800 \<and>
   snd (liveUpdates throttle0 [(js ''ok'', 1000)]) = [(js ''ok'', 1000)] \<and>
   length (js ''ok'') \<le> 3800"
  using trim_display_bound [of "js ''ok''" throttle0 "[(js ''ok'', 1000)]"]
        trim_display_bound [of "replicate 3801 97" throttle0 "[(js ''ok'', 1000)]"]
  by (simp add: liveUpdate_def throttle0_def js_def Let_def)

subsection \<open>History eviction\<close>

lemma even_le_20: "even (n::nat) \<Longrightarrow> n \<le> 20 \<Longrightarrow> n \<le> 18 \<or> n = 20"
  by presburger

lemma paired_append: "paired h \<Longrightarrow> paired g \<Longrightarrow> paired (h @ g)"
  by (induction h rule: paired.induct) auto

lemma paired_drop2: "paired h \<Longrightarrow> paired (drop 2 h)"
  by (cases h rule: paired.cases) auto

text \<open>
  C7. For a fast-mode history of even length at most 20, storing one more
  (user, assistant) pair leaves at most 20 entries. Below the cap the pair is appended;
  at the cap exactly the two oldest entries are removed from the front and the rest
  keeps its order, followed by the new pair. A paired history stays paired.
\<close>

theorem history_eviction:
  assumes "even (length h)" and "length h \<le> 20"
  shows "length (history_push h text reply) \<le> 20 \<and>
     even (length (history_push h text reply)) \<and>
     (length h < 20 \<longrightarrow> history_push h text reply = h @ [(user, text), (assistant, reply)]) \<and>
     (length h = 20 \<longrightarrow>
           history_push h text reply = drop 2 h @ [(user, text), (assistant, reply)]) \<and>
     (paired h \<longrightarrow> paired (history_push h text reply))"
proof -
  from assms have cases: "length h \<le> 18 \<or> length h = 20"
    by (rule even_le_20)
  have 1: "length (history_push h text reply) \<le> 20"
    using cases by (auto simp: history_push_def)
  have 2: "even (length (history_push h text reply))"
    using assms cases by (auto simp: history_push_def)
  have 3: "length h < 20 \<Longrightarrow> history_push h text reply = h @ [(user, text), (assistant, reply)]"
    using cases by (auto simp: history_push_def)
  have 4: "length h = 20 \<Longrightarrow>
           history_push h text reply = drop 2 h @ [(user, text), (assistant, reply)]"
    by (simp add: history_push_def)
  have 5: "paired h \<Longrightarrow> paired (history_push h text reply)"
  proof -
    assume p: "paired h"
    have new: "paired [(user, text), (assistant, reply)]" by simp
    from cases show ?thesis
    proof
      assume "length h \<le> 18"
      then show ?thesis using 3 paired_append [OF p new] by simp
    next
      assume "length h = 20"
      then show ?thesis using 4 paired_append [OF paired_drop2 [OF p] new] by simp
    qed
  qed
  from 1 2 3 4 5 show ?thesis by blast
qed

theorem history_eviction_witness:
  "even (length (replicate 20 (user, js ''q''))) \<and> length (replicate 20 (user, js ''q'')) \<le> 20 \<and>
   history_push (replicate 20 (user, js ''q'')) (js ''hi'') (js ''yo'') =
     drop 2 (replicate 20 (user, js ''q'')) @ [(user, js ''hi''), (assistant, js ''yo'')] \<and>
   length (history_push (replicate 20 (user, js ''q'')) (js ''hi'') (js ''yo'')) \<le> 20 \<and>
   paired [(user, js ''a''), (assistant, js ''b'')] \<and>
   paired (history_push [(user, js ''a''), (assistant, js ''b'')] (js ''hi'') (js ''yo'')) \<and>
   history_push [(user, js ''a''), (assistant, js ''b'')] (js ''hi'') (js ''yo'') =
     [(user, js ''a''), (assistant, js ''b''), (user, js ''hi''), (assistant, js ''yo'')]"
  using history_eviction [of "replicate 20 (user, js ''q'')" "js ''hi''" "js ''yo''"]
        history_eviction [of "[(user, js ''a''), (assistant, js ''b'')]" "js ''hi''" "js ''yo''"]
  by simp

subsection \<open>Evaluating the handlers on the sample records\<close>

lemma toString_samples:
  "toString (bytes (line_text @ ''\<newline>'')) = js line_text @ [10]"
  "toString (bytes (line_success @ ''\<newline>'')) = js line_success @ [10]"
  "toString (bytes (line_error @ ''\<newline>'')) = js line_error @ [10]"
  by (simp_all add: toString_def utf16_def bytes_def js_def line_text_def line_success_def
      line_error_def)

lemma no_newline_samples:
  "10 \<notin> set (js line_text)" "10 \<notin> set (js line_success)" "10 \<notin> set (js line_error)"
  by (simp_all add: js_def line_text_def line_success_def line_error_def)

lemma split_from_no_newline: "10 \<notin> set l \<Longrightarrow> split_from cur (l @ r) = split_from (cur @ l) r"
  by (induction l arbitrary: cur) auto

lemma frame_samples:
  "frame [] (bytes (line_text @ ''\<newline>'')) = ([js line_text], [])"
  "frame [] (bytes (line_success @ ''\<newline>'')) = ([js line_success], [])"
  "frame [] (bytes (line_error @ ''\<newline>'')) = ([js line_error], [])"
  by (simp_all add: frame_def toString_samples split_nl_def split_from_no_newline
      no_newline_samples)

lemma parse_samples:
  "JSON_parse sample_runtime (js line_text) = Some record_text"
  "JSON_parse sample_runtime (js line_success) = Some record_success"
  "JSON_parse sample_runtime (js line_error) = Some record_error"
  by (simp_all add: sample_runtime_def js_def line_text_def line_success_def line_error_def)

lemma not_blank_samples:
  "js_trim (js line_text) \<noteq> []" "js_trim (js line_success) \<noteq> []"
  "js_trim (js line_error) \<noteq> []"
  by (simp_all add: js_trim_def is_space_def js_def line_text_def line_success_def
      line_error_def)

lemma on_record_text:
  "on_record sample_runtime now record_text s =
     s\<lparr>acc := acc s @ js ''hi'', chunks := chunks s @ [acc s @ js ''hi'']\<rparr>"
  by (simp add: on_record_def record_text_def content_of_def on_success_def on_is_error_def
      js_def)

lemma on_record_success:
  "on_record sample_runtime now record_success s =
     resolve \<lparr>result = JStr (js ''done''), durationMs = now - t0 s, costUsd = None\<rparr> s"
  by (simp add: on_record_def record_success_def on_success_def on_is_error_def js_def
      resolve_def settle_def)

lemma on_record_error:
  "on_record sample_runtime now record_error s = reject (js ''boom'') s"
  by (simp add: on_record_def record_error_def on_success_def on_is_error_def js_def)

lemma js_simps: "js [] = []" "js (c # cs) = of_char c # js cs"
  by (simp_all add: js_def)

lemma buf_same: "buf s = b \<Longrightarrow> s\<lparr>buf := b\<rparr> = s"
  by auto

lemma on_data_text:
  "buf s = [] \<Longrightarrow>
   on_data rt now (bytes (line_text @ ''\<newline>'')) s = on_line rt now (js line_text) s"
  "buf s = [] \<Longrightarrow>
   on_data rt now (bytes (line_success @ ''\<newline>'')) s = on_line rt now (js line_success) s"
  "buf s = [] \<Longrightarrow>
   on_data rt now (bytes (line_error @ ''\<newline>'')) s = on_line rt now (js line_error) s"
  by (simp_all add: on_data_def frame_samples buf_same)

lemma on_line_samples:
  "on_line sample_runtime now (js line_text) s = on_record sample_runtime now record_text s"
  "on_line sample_runtime now (js line_success) s = on_record sample_runtime now record_success s"
  "on_line sample_runtime now (js line_error) s = on_record sample_runtime now record_error s"
  by (simp_all add: on_line_def not_blank_samples parse_samples)

lemmas sample_simps =
  askClaude_def start_def on_data_text on_line_samples on_record_text on_record_success
  on_record_error resolve_def reject_def settle_def on_timeout_def on_close_def on_error_def
  Let_def js_simps

subsection \<open>The accumulator only grows\<close>

lemma growing_snoc:
  "growing xs \<Longrightarrow> (xs \<noteq> [] \<Longrightarrow> prefix (last xs) a) \<Longrightarrow> growing (xs @ [a])"
proof (induction xs rule: growing.induct)
  case 1
  then show ?case by simp
next
  case (2 x)
  then show ?case by (simp add: prefix_length_le)
next
  case (3 x y r)
  then show ?case by simp
qed

lemma acc_inv_append: "acc_inv cs a \<Longrightarrow> acc_inv (cs @ [a @ t]) (a @ t)"
  unfolding acc_inv_def by (auto intro!: growing_snoc)

lemma for_blocks_acc_inv:
  "acc_inv (chunks s) (acc s) \<Longrightarrow>
   acc_inv (chunks (fst (for_blocks rt bs s))) (acc (fst (for_blocks rt bs s)))"
proof (induction rt bs s rule: for_blocks.induct)
  case (1 rt s)
  then show ?case by simp
next
  case (2 rt bs s)
  then show ?case by simp
qed (auto simp: acc_inv_append split: option.splits)

lemma for_content_acc_inv:
  "acc_inv (chunks s) (acc s) \<Longrightarrow>
   acc_inv (chunks (fst (for_content rt v s))) (acc (fst (for_content rt v s)))"
  by (cases v) (simp_all add: for_blocks_acc_inv)

lemma settle_chunks [simp]: "chunks (settle out s) = chunks s" "acc (settle out s) = acc s"
  by (simp_all add: settle_def)

lemma on_success_chunks [simp]:
  "chunks (on_success now ev s) = chunks s" "acc (on_success now ev s) = acc s"
  by (simp_all add: on_success_def resolve_def)

lemma on_is_error_chunks [simp]:
  "chunks (on_is_error rt ev s) = chunks s" "acc (on_is_error rt ev s) = acc s"
  by (simp_all add: on_is_error_def reject_def split: option.splits)

lemma on_record_acc_inv:
  "acc_inv (chunks s) (acc s) \<Longrightarrow>
   acc_inv (chunks (on_record rt now ev s)) (acc (on_record rt now ev s))"
  using for_content_acc_inv [of s rt "content_of ev"]
  by (auto simp: on_record_def split: prod.splits)

lemma on_line_acc_inv:
  "acc_inv (chunks s) (acc s) \<Longrightarrow>
   acc_inv (chunks (on_line rt now l s)) (acc (on_line rt now l s))"
  by (simp add: on_line_def on_record_acc_inv split: option.splits)

lemma fold_on_line_acc_inv:
  "acc_inv (chunks s) (acc s) \<Longrightarrow>
   acc_inv (chunks (fold (on_line rt now) ls s)) (acc (fold (on_line rt now) ls s))"
  by (induction ls arbitrary: s) (simp_all add: on_line_acc_inv)

lemma step_acc_inv:
  "acc_inv (chunks s) (acc s) \<Longrightarrow>
   acc_inv (chunks (step rt file e s)) (acc (step rt file e s))"
proof (cases e)
  case (Data d now)
  assume inv: "acc_inv (chunks s) (acc s)"
  obtain ls rest where f: "frame (buf s) d = (ls, rest)" by (cases "frame (buf s) d")
  from inv have "acc_inv (chunks (s\<lparr>buf := rest\<rparr>)) (acc (s\<lparr>buf := rest\<rparr>))" by simp
  from fold_on_line_acc_inv [OF this] show ?thesis using Data f by (simp add: on_data_def)
next
  case Timeout
  assume "acc_inv (chunks s) (acc s)"
  then show ?thesis using Timeout by (simp add: on_timeout_def reject_def)
next
  case (Close code)
  assume "acc_inv (chunks s) (acc s)"
  then show ?thesis using Close by (auto simp: on_close_def reject_def Let_def)
next
  case (Failure msg)
  assume "acc_inv (chunks s) (acc s)"
  then show ?thesis using Failure by (simp add: on_error_def reject_def)
qed

lemma run_acc_inv:
  "acc_inv (chunks s) (acc s) \<Longrightarrow>
   acc_inv (chunks (fold (step rt file) es s)) (acc (fold (step rt file) es s))"
  by (induction es arbitrary: s) (simp_all add: step_acc_inv)

lemma askSDK_acc_inv:
  "acc_inv (snd s) (fst s) \<Longrightarrow> acc_inv (snd (fold on_text ds s)) (fst (fold on_text ds s))"
proof (induction ds arbitrary: s)
  case Nil
  then show ?case by simp
next
  case (Cons d ds)
  have "acc_inv (snd (on_text d s)) (fst (on_text d s))"
    using Cons.prems by (simp add: on_text_def acc_inv_append)
  from Cons.IH [OF this] show ?case by simp
qed

text \<open>
  C6. On both paths the snapshots passed to \<open>onChunk\<close>, in call order, grow: each
  has at least the length of the one before and the one before is a prefix of it.
  On the full path this holds for every sequence of stdout chunks, timer, close and
  error events; on the fast path for every sequence of text deltas.
\<close>

theorem accumulator_monotone:
  "growing (chunks (askClaude rt file now events)) \<and> growing (snd (askSDK deltas))"
proof
  have "acc_inv (chunks (start now)) (acc (start now))"
    by (simp add: start_def acc_inv_def)
  from run_acc_inv [OF this] show "growing (chunks (askClaude rt file now events))"
    by (simp add: askClaude_def acc_inv_def)
  have "acc_inv (snd (([], []) :: jsstring \<times> jsstring list)) (fst (([], []) :: jsstring \<times> jsstring list))"
    by (simp add: acc_inv_def)
  from askSDK_acc_inv [OF this] show "growing (snd (askSDK deltas))"
    by (simp add: askSDK_def acc_inv_def)
qed

theorem accumulator_monotone_witness:
  "chunks (askClaude sample_runtime part_000 0
      [Data (bytes (line_text @ ''\<newline>'')) 5, Data (bytes (line_text @ ''\<newline>'')) 6,
       Close (Some 0)]) = [js ''hi'', js ''hihi''] \<and>
   growing [js ''hi'', js ''hihi''] \<and>
   snd (askSDK [js ''a'', js ''b'']) = [js ''a'', js ''ab''] \<and>
   growing [js ''a'', js ''ab'']"
proof -
  have a: "chunks (askClaude sample_runtime part_000 0
      [Data (bytes (line_text @ ''\<newline>'')) 5, Data (bytes (line_text @ ''\<newline>'')) 6,
       Close (Some 0)]) = [js ''hi'', js ''hihi'']"
    by (simp add: sample_simps)
  have b: "snd (askSDK [js ''a'', js ''b'']) = [js ''a'', js ''ab'']"
    by (simp add: askSDK_def on_text_def js_simps)
  from accumulator_monotone [of sample_runtime part_000 0
      "[Data (bytes (line_text @ ''\<newline>'')) 5, Data (bytes (line_text @ ''\<newline>'')) 6,
        Close (Some 0)]" "[js ''a'', js ''b'']"] a b
  show ?thesis by simp
qed

subsection \<open>The promise settles with the first call\<close>

lemma promise_step_refl: "promise_step s s"
  by (simp add: promise_step_def)

lemma promise_step_trans: "promise_step a b \<Longrightarrow> promise_step b c \<Longrightarrow> promise_step a c"
  by (auto simp: promise_step_def)

lemma promise_step_same:
  "settled s' = settled s \<Longrightarrow> calls s' = calls s \<Longrightarrow> promise_step s s'"
  by (simp add: promise_step_def first_wins_def)

lemma promise_step_settle: "promise_step s (settle out s)"
proof -
  have "prefix (calls s) (calls (settle out s))" by (simp add: settle_def)
  moreover have "first_wins s \<Longrightarrow> first_wins (settle out s)"
    by (cases "calls s") (simp_all add: first_wins_def settle_def)
  ultimately show ?thesis by (auto simp: promise_step_def)
qed

lemma for_blocks_promise:
  "settled (fst (for_blocks rt bs s)) = settled s \<and> calls (fst (for_blocks rt bs s)) = calls s"
  by (induction rt bs s rule: for_blocks.induct) (auto split: option.splits)

lemma for_content_promise:
  "settled (fst (for_content rt v s)) = settled s \<and> calls (fst (for_content rt v s)) = calls s"
  by (cases v) (simp_all add: for_blocks_promise)

lemma on_success_step: "promise_step s (on_success now ev s)"
  by (simp add: on_success_def resolve_def promise_step_settle promise_step_refl)

lemma on_is_error_step: "promise_step s (on_is_error rt ev s)"
  by (simp add: on_is_error_def reject_def promise_step_settle promise_step_refl
      split: option.splits)

lemma on_record_step: "promise_step s (on_record rt now ev s)"
proof (cases "ev = JNull")
  case True
  then show ?thesis by (simp add: on_record_def promise_step_refl)
next
  case False
  obtain s1 completed where c:
    "(if field ev (js ''type'') = Some (JStr (js ''assistant''))
      then for_content rt (content_of ev) s else (s, True)) = (s1, completed)"
    by (cases "if field ev (js ''type'') = Some (JStr (js ''assistant''))
               then for_content rt (content_of ev) s else (s, True)")
  have "settled s1 = settled s \<and> calls s1 = calls s"
    using c for_content_promise [of rt "content_of ev" s] by (auto split: if_splits)
  then have 1: "promise_step s s1" by (simp add: promise_step_same)
  have 2: "promise_step s1 (on_is_error rt ev (on_success now ev s1))"
    by (rule promise_step_trans [OF on_success_step on_is_error_step])
  show ?thesis
    using False c 1 promise_step_trans [OF 1 2] by (simp add: on_record_def)
qed

lemma on_line_step: "promise_step s (on_line rt now l s)"
  by (simp add: on_line_def promise_step_refl on_record_step split: option.splits)

lemma fold_on_line_step: "promise_step s (fold (on_line rt now) ls s)"
proof (induction ls arbitrary: s)
  case Nil
  then show ?case by (simp add: promise_step_refl)
next
  case (Cons l ls)
  show ?case using promise_step_trans [OF on_line_step Cons.IH] by simp
qed

lemma step_promise: "promise_step s (step rt v e s)"
proof (cases e)
  case (Data d now)
  obtain ls rest where f: "frame (buf s) d = (ls, rest)" by (cases "frame (buf s) d")
  have "promise_step s (s\<lparr>buf := rest\<rparr>)" by (simp add: promise_step_same)
  from promise_step_trans [OF this fold_on_line_step] show ?thesis
    using Data f by (simp add: on_data_def)
next
  case Timeout
  have "promise_step s (s\<lparr>timer := False, killed := True\<rparr>)" by (simp add: promise_step_same)
  from promise_step_trans [OF this promise_step_settle] show ?thesis
    using Timeout by (simp add: on_timeout_def reject_def promise_step_refl)
next
  case (Close code)
  have "promise_step s (s\<lparr>timer := False\<rparr>)" by (simp add: promise_step_same)
  from this promise_step_trans [OF this promise_step_settle] show ?thesis
    using Close by (simp add: on_close_def reject_def Let_def)
next
  case (Failure msg)
  have a: "promise_step s (s\<lparr>timer := False\<rparr>)" by (simp add: promise_step_same)
  show ?thesis
    using Failure promise_step_trans [OF a promise_step_settle] promise_step_settle [of s]
    by (simp add: on_error_def reject_def)
qed

lemma run_promise: "promise_step s (fold (step rt v) es s)"
proof (induction es arbitrary: s)
  case Nil
  then show ?case by (simp add: promise_step_refl)
next
  case (Cons e es)
  show ?case using promise_step_trans [OF step_promise Cons.IH] by simp
qed

lemma askClaude_first_wins: "first_wins (askClaude rt v now es)"
proof -
  have "first_wins (start now)" by (simp add: first_wins_def start_def)
  then show ?thesis
    using run_promise [of "start now" rt v es] by (simp add: promise_step_def askClaude_def)
qed

lemma askClaude_append:
  "askClaude rt v now (es @ later) = fold (step rt v) later (askClaude rt v now es)"
  by (simp add: askClaude_def)

lemma askClaude_stable:
  assumes "settled (askClaude rt v now es) = Some out"
  shows "settled (askClaude rt v now (es @ later)) = Some out"
proof -
  let ?s = "askClaude rt v now es" and ?s' = "askClaude rt v now (es @ later)"
  from assms askClaude_first_wins [of rt v now es]
  obtain cs where cs: "calls ?s = out # cs"
    by (cases "calls ?s") (auto simp: first_wins_def)
  have "prefix (calls ?s) (calls ?s')"
    using run_promise [of ?s rt v later] by (simp add: askClaude_append promise_step_def)
  with cs obtain cs' where "calls ?s' = out # cs'" by (auto simp: prefix_def)
  then show ?thesis
    using askClaude_first_wins [of rt v now "es @ later"] by (simp add: first_wins_def)
qed

lemma timeout_calls:
  "timer s \<Longrightarrow> calls (step rt v Timeout s) = calls s @ [Rejected (js ''Timeout 5min'')]"
  by (simp add: on_timeout_def reject_def settle_def)

lemma close_calls:
  "code \<noteq> Some 0 \<Longrightarrow> acc s = [] \<Longrightarrow>
   calls (step rt v (Close code) s) =
     calls s @ [Rejected (js ''exit '' @ (case code of None \<Rightarrow> js ''null'' | Some c \<Rightarrow> int_string c))]"
  by (simp add: on_close_def reject_def settle_def)

lemma js_neq_samples [simp]:
  "js ''result'' \<noteq> js ''assistant''" "js ''success'' \<noteq> js ''assistant''"
  by (simp_all add: js_def)

lemma success_calls:
  assumes "field ev (js ''type'') = Some (JStr (js ''result''))"
    and "field ev (js ''subtype'') = Some (JStr (js ''success''))"
  shows "\<exists>rest. calls (on_record rt now ev s) =
           calls s @ Resolved \<lparr>result = (case field ev (js ''result'') of
                                            None \<Rightarrow> JStr (acc s)
                                          | Some r \<Rightarrow> if truthy (Some r) then r else JStr (acc s)),
                                durationMs = now - t0 s,
                                costUsd = field ev (js ''total_cost_usd'')\<rparr> # rest"
proof -
  from assms have nn: "ev \<noteq> JNull" by auto
  let ?a = "\<lparr>result = (case field ev (js ''result'') of
                          None \<Rightarrow> JStr (acc s)
                        | Some r \<Rightarrow> if truthy (Some r) then r else JStr (acc s)),
              durationMs = now - t0 s, costUsd = field ev (js ''total_cost_usd'')\<rparr>"
  have 1: "calls (on_success now ev s) = calls s @ [Resolved ?a]"
    using assms by (simp add: on_success_def resolve_def settle_def)
  have "prefix (calls (on_success now ev s)) (calls (on_is_error rt ev (on_success now ev s)))"
    using on_is_error_step [of "on_success now ev s" rt ev] by (simp add: promise_step_def)
  with 1 obtain rest where
    "calls (on_is_error rt ev (on_success now ev s)) = calls s @ Resolved ?a # rest"
    by (auto simp: prefix_def)
  then show ?thesis using assms nn by (simp add: on_record_def)
qed

lemma error_calls:
  assumes "field ev (js ''type'') = Some (JStr (js ''result''))"
    and "field ev (js ''subtype'') \<noteq> Some (JStr (js ''success''))"
    and "truthy (field ev (js ''is_error''))"
    and "field ev (js ''result'') = None \<or> (\<exists>m. field ev (js ''result'') = Some (JStr m))"
  shows "calls (on_record rt now ev s) =
           calls s @ [Rejected (case field ev (js ''result'') of
                                  Some (JStr m) \<Rightarrow> if m = [] then js ''Claude error'' else m
                                | _ \<Rightarrow> js ''Claude error'')]"
proof -
  from assms have nn: "ev \<noteq> JNull" by auto
  have 1: "on_success now ev s = s" using assms by (simp add: on_success_def)
  show ?thesis
    using assms nn 1
    by (auto simp: on_record_def on_is_error_def reject_def settle_def)
qed

text \<open>
  What holds of the promise for every sequence of stdout chunks, timer, close and
  error events, in either source file: it holds exactly the first \<open>resolve\<close> or
  \<open>reject\<close> call made so far (and is pending when none was made); once settled it
  keeps its outcome under every continuation; and when an event is the first whose
  handler calls \<open>resolve\<close> or \<open>reject\<close>, the promise is settled from then on with the
  first call of that event. The handlers that make such a call: the timer firing
  while pending, a close with a non-zero or null code and empty accumulated text, a
  decoded result-success record, and a decoded result-error record. So the promise
  never settles twice, and the first call wins.
\<close>

lemma first_call_wins:
  "settled (askClaude rt v now es) = first_call (calls (askClaude rt v now es)) \<and>
   (settled (askClaude rt v now es) = Some out \<longrightarrow>
      settled (askClaude rt v now (es @ later)) = Some out) \<and>
   (calls (askClaude rt v now es) = [] \<and> calls (askClaude rt v now (es @ [e])) = c # cs \<longrightarrow>
      settled (askClaude rt v now (es @ e # later)) = Some c) \<and>
   (timer s \<longrightarrow>
      calls (step rt v Timeout s) = calls s @ [Rejected (js ''Timeout 5min'')]) \<and>
   (code \<noteq> Some 0 \<and> acc s = [] \<longrightarrow>
      calls (step rt v (Close code) s) =
        calls s @ [Rejected (js ''exit '' @
                     (case code of None \<Rightarrow> js ''null'' | Some c \<Rightarrow> int_string c))]) \<and>
   (field ev (js ''type'') = Some (JStr (js ''result'')) \<and>
    field ev (js ''subtype'') = Some (JStr (js ''success'')) \<longrightarrow>
      (\<exists>rest. calls (on_record rt now ev s) =
         calls s @ Resolved \<lparr>result = (case field ev (js ''result'') of
                                          None \<Rightarrow> JStr (acc s)
                                        | Some r \<Rightarrow> if truthy (Some r) then r else JStr (acc s)),
                              durationMs = now - t0 s,
                              costUsd = field ev (js ''total_cost_usd'')\<rparr> # rest)) \<and>
   (field ev' (js ''type'') = Some (JStr (js ''result'')) \<and>
    field ev' (js ''subtype'') \<noteq> Some (JStr (js ''success'')) \<and>
    truthy (field ev' (js ''is_error'')) \<and>
    (field ev' (js ''result'') = None \<or> (\<exists>m. field ev' (js ''result'') = Some (JStr m))) \<longrightarrow>
      calls (on_record rt now ev' s) =
        calls s @ [Rejected (case field ev' (js ''result'') of
                               Some (JStr m) \<Rightarrow> if m = [] then js ''Claude error'' else m
                             | _ \<Rightarrow> js ''Claude error'')])"
proof (intro conjI impI)
  show "settled (askClaude rt v now es) = first_call (calls (askClaude rt v now es))"
    using askClaude_first_wins [of rt v now es] by (simp add: first_wins_def)
  show "settled (askClaude rt v now es) = Some out \<Longrightarrow>
        settled (askClaude rt v now (es @ later)) = Some out"
    by (rule askClaude_stable)
  show "calls (askClaude rt v now es) = [] \<and>
        calls (askClaude rt v now (es @ [e])) = c # cs \<Longrightarrow>
        settled (askClaude rt v now (es @ e # later)) = Some c"
  proof -
    assume a: "calls (askClaude rt v now es) = [] \<and>
               calls (askClaude rt v now (es @ [e])) = c # cs"
    then have "settled (askClaude rt v now (es @ [e])) = Some c"
      using askClaude_first_wins [of rt v now "es @ [e]"] by (simp add: first_wins_def)
    from askClaude_stable [OF this, of later] show ?thesis by simp
  qed
  show "timer s \<Longrightarrow>
        calls (step rt v Timeout s) = calls s @ [Rejected (js ''Timeout 5min'')]"
    by (rule timeout_calls)
  show "code \<noteq> Some 0 \<and> acc s = [] \<Longrightarrow>
        calls (step rt v (Close code) s) =
          calls s @ [Rejected (js ''exit '' @
                       (case code of None \<Rightarrow> js ''null'' | Some c \<Rightarrow> int_string c))]"
    using close_calls [of code s rt v] by simp
  show "field ev (js ''type'') = Some (JStr (js ''result'')) \<and>
        field ev (js ''subtype'') = Some (JStr (js ''success'')) \<Longrightarrow>
        \<exists>rest. calls (on_record rt now ev s) =
           calls s @ Resolved \<lparr>result = (case field ev (js ''result'') of
                                            None \<Rightarrow> JStr (acc s)
                                          | Some r \<Rightarrow> if truthy (Some r) then r else JStr (acc s)),
                                durationMs = now - t0 s,
                                costUsd = field ev (js ''total_cost_usd'')\<rparr> # rest"
    using success_calls [of ev rt now s] by simp
  show "field ev' (js ''type'') = Some (JStr (js ''result'')) \<and>
        field ev' (js ''subtype'') \<noteq> Some (JStr (js ''success'')) \<and>
        truthy (field ev' (js ''is_error'')) \<and>
        (field ev' (js ''result'') = None \<or> (\<exists>m. field ev' (js ''result'') = Some (JStr m))) \<Longrightarrow>
        calls (on_record rt now ev' s) =
          calls s @ [Rejected (case field ev' (js ''result'') of
                                 Some (JStr m) \<Rightarrow> if m = [] then js ''Claude error'' else m
                               | _ \<Rightarrow> js ''Claude error'')]"
    using error_calls [of ev' rt now s] by simp
qed

text \<open>
  A chunk that completes one line which parses to a record is handled as that
  record.
\<close>

lemma data_record:
  assumes "frame (buf s) d = ([line], rest)" and "js_trim line \<noteq> []"
    and "JSON_parse rt line = Some ev"
  shows "step rt v (Data d now) s = on_record rt now ev (s\<lparr>buf := rest\<rparr>)"
  using assms by (simp add: on_data_def on_line_def)

subsection \<open>Exit without a result record\<close>

text \<open>
  C2. The invocation does not settle exactly once on every run: when the worker
  exits with code 0 and has printed no result record, the close handler clears the
  timer and calls neither \<open>resolve\<close> nor \<open>reject\<close>. The promise is pending after the
  exit, the timer that would have rejected it is gone, and so it stays pending: the
  invocation settles zero times. This is so for every runtime and start time, in
  both source files, with no output at all and also after an assistant record (then
  for every exit code).
\<close>

theorem exit_without_result_never_settles:
  "settled (askClaude rt v now [Close (Some 0)]) = None \<and>
   calls (askClaude rt v now [Close (Some 0)]) = [] \<and>
   \<not> timer (askClaude rt v now [Close (Some 0)]) \<and>
   settled (askClaude rt v now [Close (Some 0), Timeout]) = None \<and>
   calls (askClaude rt v now [Close (Some 0), Timeout]) = [] \<and>
   settled (askClaude sample_runtime v now
      [Data (bytes (line_text @ ''\<newline>'')) later, Close code, Timeout]) = None \<and>
   calls (askClaude sample_runtime v now
      [Data (bytes (line_text @ ''\<newline>'')) later, Close code, Timeout]) = []"
  by (simp add: sample_simps)
subsection \<open>Exit with text and no result record\<close>

lemma close_with_text:
  "acc s \<noteq> [] \<Longrightarrow>
   settled (on_close code s) = settled s \<and> calls (on_close code s) = calls s \<and>
   \<not> timer (on_close code s)"
  by (simp add: on_close_def)

text \<open>
  C1. The worker prints one assistant record with the text \<open>hi\<close> and exits with code
  7, with no result record. After the close handler the accumulated text is \<open>hi\<close>, yet
  neither \<open>resolve\<close> nor \<open>reject\<close> was called: the promise is pending, the timer is
  cleared, and a timer event changes nothing any more, in both source files. With no
  text at all the same exit rejects with \<open>exit 7\<close>.
\<close>

theorem soft_success_exit_leaves_promise_pending:
  "acc (askClaude sample_runtime part_000 0
          [Data (bytes (line_text @ ''\<newline>'')) 5, Close (Some 7)]) = js ''hi'' \<and>
   settled (askClaude sample_runtime part_000 0
          [Data (bytes (line_text @ ''\<newline>'')) 5, Close (Some 7)]) = None \<and>
   calls (askClaude sample_runtime part_000 0
          [Data (bytes (line_text @ ''\<newline>'')) 5, Close (Some 7)]) = [] \<and>
   \<not> timer (askClaude sample_runtime part_000 0
          [Data (bytes (line_text @ ''\<newline>'')) 5, Close (Some 7)]) \<and>
   settled (askClaude sample_runtime part_000 0
          [Data (bytes (line_text @ ''\<newline>'')) 5, Close (Some 7), Timeout]) = None \<and>
   settled (askClaude sample_runtime index_js 0
          [Data (bytes (line_text @ ''\<newline>'')) 5, Close (Some 7), Timeout]) = None \<and>
   settled (askClaude sample_runtime part_000 0 [Close (Some 7)]) =
     Some (Rejected (js ''exit 7'')) \<and>
   settled (askClaude sample_runtime index_js 0 [Close (Some 7)]) =
     Some (Rejected (js ''exit 7''))"
  by (simp add: sample_simps int_string_def)

subsection \<open>Line framing\<close>

lemma split_from_nonempty [simp]: "split_from cur s \<noteq> []"
  by (induction s arbitrary: cur) auto

lemma split_from_append:
  "split_from cur (a @ b) =
     butlast (split_from cur a) @ split_from (last (split_from cur a)) b"
  by (induction a arbitrary: cur) auto

lemma last_split_no_newline: "10 \<notin> set cur \<Longrightarrow> 10 \<notin> set (last (split_from cur s))"
  by (induction s arbitrary: cur) auto

lemma frame_split:
  "10 \<notin> set b \<Longrightarrow>
   frame b d = (butlast (split_from b (toString d)), last (split_from b (toString d)))"
  using split_from_no_newline [of b "[]" "toString d"]
  by (simp add: frame_def split_nl_def Let_def)

text \<open>
  On the decoded text the framing does not depend on the chunking: the lines and the
  carry-over after a sequence of chunks are those of the concatenation of the decoded
  chunks.
\<close>

lemma frames_split:
  "10 \<notin> set b \<Longrightarrow>
   frames b ds =
     (butlast (split_from b (concat (map toString ds))),
      last (split_from b (concat (map toString ds))))"
proof (induction ds arbitrary: b)
  case Nil
  then show ?case by simp
next
  case (Cons d ds)
  let ?L1 = "split_from b (toString d)"
  have f: "frame b d = (butlast ?L1, last ?L1)" by (rule frame_split [OF Cons.prems])
  have "10 \<notin> set (last ?L1)" by (rule last_split_no_newline [OF Cons.prems])
  from Cons.IH [OF this] f show ?case
    by (simp add: split_from_append [of b "toString d"] butlast_append)
qed

lemma utf8_decode_ascii:
  "\<forall>x \<in> set a. x < 0x80 \<Longrightarrow> utf8_decode (a @ b) = utf8_decode a @ utf8_decode b"
  by (induction a) auto

lemma toString_ascii_chunks:
  "\<forall>d \<in> set ds. \<forall>x \<in> set d. x < 0x80 \<Longrightarrow> concat (map toString ds) = toString (concat ds)"
proof (induction ds)
  case Nil
  then show ?case by (simp add: toString_def)
next
  case (Cons d ds)
  then show ?case by (simp add: toString_def utf8_decode_ascii)
qed

lemma frames_whole:
  "concat (map toString ds) = toString (concat ds) \<Longrightarrow> frames [] ds = frame [] (concat ds)"
  using frames_split [of "[]" ds] frame_split [of "[]" "concat ds"] by simp

lemma frames_ascii:
  "\<forall>d \<in> set ds. \<forall>x \<in> set d. x < 0x80 \<Longrightarrow> frames [] ds = frame [] (concat ds)"
  by (rule frames_whole [OF toString_ascii_chunks])

text \<open>
  C5. The stream is the three bytes C3 A9 0A, the UTF-8 text of one line holding the
  single character U+00E9. Delivered whole, the handler frames the line [U+00E9].
  Delivered as the chunks C3 and A9 0A, each chunk is decoded by itself, both halves
  of the character become U+FFFD, and the handler frames the line [U+FFFD, U+FFFD].
\<close>

theorem framing_decodes_each_chunk_alone:
  "frames [] [[0xC3, 0xA9, 0x0A]] = ([[0xE9]], []) \<and>
   frames [] [[0xC3], [0xA9, 0x0A]] = ([[0xFFFD, 0xFFFD]], []) \<and>
   concat [[0xC3], [0xA9, 0x0A]] = [0xC3, 0xA9, 0x0A :: byte]"
  by (simp add: frame_def toString_def utf16_def cont_def tail_bits_def split_nl_def)

subsection \<open>The worker's environment\<close>

lemma worker_env_restrict:
  "worker_env pe = pe |` (- {js ''CLAUDECODE'', js ''ANTHROPIC_API_KEY''})"
  by (auto simp: worker_env_def restrict_map_def)

text \<open>
  C9. Whatever the host environment, the environment handed to \<open>spawn\<close> has no
  \<open>ANTHROPIC_API_KEY\<close> and no \<open>CLAUDECODE\<close> entry and agrees with the host
  environment on every other variable; the worker's stdin is \<open>ignore\<close>. Two host
  environments that agree outside these two variables give the same \<open>spawn\<close> call.
\<close>

theorem worker_env_stripped:
  "env (askClaude_spawn pe wd text cont_flag dir) (js ''ANTHROPIC_API_KEY'') = None \<and>
   env (askClaude_spawn pe wd text cont_flag dir) (js ''CLAUDECODE'') = None \<and>
   (k \<noteq> js ''ANTHROPIC_API_KEY'' \<and> k \<noteq> js ''CLAUDECODE'' \<longrightarrow>
      env (askClaude_spawn pe wd text cont_flag dir) k = pe k) \<and>
   stdin (askClaude_spawn pe wd text cont_flag dir) = ignore \<and>
   (pe |` (- {js ''CLAUDECODE'', js ''ANTHROPIC_API_KEY''}) =
    pe' |` (- {js ''CLAUDECODE'', js ''ANTHROPIC_API_KEY''}) \<longrightarrow>
      askClaude_spawn pe wd text cont_flag dir = askClaude_spawn pe' wd text cont_flag dir)"
  by (simp add: askClaude_spawn_def worker_env_restrict)

theorem worker_env_stripped_witness:
  "js ''PATH'' \<noteq> js ''ANTHROPIC_API_KEY'' \<and> js ''PATH'' \<noteq> js ''CLAUDECODE'' \<and>
   env (askClaude_spawn [js ''PATH'' \<mapsto> js ''/bin'', js ''ANTHROPIC_API_KEY'' \<mapsto> js ''sk-1'']
          (js ''/w'') (js ''hello'') False None) (js ''PATH'') = Some (js ''/bin'') \<and>
   env (askClaude_spawn [js ''PATH'' \<mapsto> js ''/bin'', js ''ANTHROPIC_API_KEY'' \<mapsto> js ''sk-1'']
          (js ''/w'') (js ''hello'') False None) (js ''ANTHROPIC_API_KEY'') = None \<and>
   [js ''PATH'' \<mapsto> js ''/bin'', js ''ANTHROPIC_API_KEY'' \<mapsto> js ''sk-1'']
      |` (- {js ''CLAUDECODE'', js ''ANTHROPIC_API_KEY''}) =
   [js ''PATH'' \<mapsto> js ''/bin'', js ''CLAUDECODE'' \<mapsto> js ''1'']
      |` (- {js ''CLAUDECODE'', js ''ANTHROPIC_API_KEY''}) \<and>
   askClaude_spawn [js ''PATH'' \<mapsto> js ''/bin'', js ''ANTHROPIC_API_KEY'' \<mapsto> js ''sk-1'']
      (js ''/w'') (js ''hello'') False None =
   askClaude_spawn [js ''PATH'' \<mapsto> js ''/bin'', js ''CLAUDECODE'' \<mapsto> js ''1'']
      (js ''/w'') (js ''hello'') False None"
proof -
  let ?a = "[js ''PATH'' \<mapsto> js ''/bin'', js ''ANTHROPIC_API_KEY'' \<mapsto> js ''sk-1'']"
  let ?b = "[js ''PATH'' \<mapsto> js ''/bin'', js ''CLAUDECODE'' \<mapsto> js ''1'']"
  have n: "js ''PATH'' \<noteq> js ''ANTHROPIC_API_KEY'' \<and> js ''PATH'' \<noteq> js ''CLAUDECODE''"
    by (simp add: js_simps)
  have r: "?a |` (- {js ''CLAUDECODE'', js ''ANTHROPIC_API_KEY''}) =
           ?b |` (- {js ''CLAUDECODE'', js ''ANTHROPIC_API_KEY''})"
    by (auto simp: restrict_map_def fun_eq_iff)
  note t = worker_env_stripped [of ?a "js ''/w''" "js ''hello''" False None "js ''PATH''" ?b]
  have v: "?a (js ''PATH'') = Some (js ''/bin'')"
    by (simp add: js_simps)
  from t n have "env (askClaude_spawn ?a (js ''/w'') (js ''hello'') False None) (js ''PATH'') =
      ?a (js ''PATH'')"
    by blast
  with v have 1: "env (askClaude_spawn ?a (js ''/w'') (js ''hello'') False None) (js ''PATH'') =
      Some (js ''/bin'')"
    by simp
  from t r have 2: "askClaude_spawn ?a (js ''/w'') (js ''hello'') False None =
      askClaude_spawn ?b (js ''/w'') (js ''hello'') False None"
    by blast
  from t n r 1 2 show ?thesis by blast
qed

subsection \<open>The throttler's rule\<close>

lemma liveUpdates_append:
  "liveUpdates th (xs @ ys) =
     (case liveUpdates th xs of
        (th1, s1) \<Rightarrow> (case liveUpdates th1 ys of (th2, s2) \<Rightarrow> (th2, s1 @ s2)))"
proof (induction xs arbitrary: th)
  case Nil
  then show ?case by (simp split: prod.splits)
next
  case (Cons x xs)
  obtain t now where x: "x = (t, now)" by (cases x)
  show ?case
    by (simp add: x Cons.IH split: prod.splits option.splits)
qed

lemma liveUpdate_rule:
  "snd (liveUpdate th t now) =
     (if trim t None \<noteq> lastText th \<and> 600 \<le> now - lastAt th then Some (trim t None) else None)"
  by (simp add: liveUpdate_def Let_def)

lemma liveUpdate_lastText: "lastText (fst (liveUpdate th t now)) = trim t None"
  by (simp add: liveUpdate_def Let_def)

lemma liveUpdate_lastAt:
  "lastAt (fst (liveUpdate th t now)) = (if snd (liveUpdate th t now) = None then lastAt th else now)"
  by (simp add: liveUpdate_def Let_def)

lemma liveUpdates_snoc:
  "liveUpdates th (xs @ [(t, now)]) =
     (fst (liveUpdate (fst (liveUpdates th xs)) t now),
      snd (liveUpdates th xs) @
        (case snd (liveUpdate (fst (liveUpdates th xs)) t now) of
           None \<Rightarrow> [] | Some u \<Rightarrow> [(u, now)]))"
  by (simp add: liveUpdates_append split: prod.splits option.splits)

lemma lastText_run:
  "lastText (fst (liveUpdates throttle0 before)) =
     (if before = [] then [] else trim (fst (last before)) None)"
proof (cases before rule: rev_cases)
  case Nil
  then show ?thesis by (simp add: throttle0_def)
next
  case (snoc xs x)
  obtain t now where x: "x = (t, now)" by (cases x)
  show ?thesis by (simp add: snoc x liveUpdates_snoc liveUpdate_lastText)
qed

lemma lastAt_run:
  "lastAt (fst (liveUpdates throttle0 before)) =
     (if snd (liveUpdates throttle0 before) = [] then 0
      else snd (last (snd (liveUpdates throttle0 before))))"
proof (induction before rule: rev_induct)
  case Nil
  then show ?case by (simp add: throttle0_def)
next
  case (snoc x xs)
  obtain t now where x: "x = (t, now)" by (cases x)
  show ?case
    using snoc.IH
    by (auto simp: x liveUpdates_snoc liveUpdate_lastAt split: option.splits)
qed

text \<open>
  C3, as the code has it. After any sequence of \<open>liveUpdate\<close> calls the next snapshot
  is forwarded exactly when its truncation differs from the truncation of the
  snapshot of the call just before it (from the empty string, at the first call),
  whether that one was forwarded or not, and at least 600 ms have passed since the
  last forwarded one (since time 0, when none was forwarded).
\<close>

theorem throttle_rule:
  "snd (liveUpdates throttle0 (before @ [(t, now)])) =
     snd (liveUpdates throttle0 before) @
       (if trim t None \<noteq> (if before = [] then [] else trim (fst (last before)) None) \<and>
           600 \<le> now - (if snd (liveUpdates throttle0 before) = [] then 0
                         else snd (last (snd (liveUpdates throttle0 before))))
        then [(trim t None, now)] else [])"
proof -
  let ?th = "fst (liveUpdates throttle0 before)"
  have "snd (liveUpdates throttle0 (before @ [(t, now)])) =
        snd (liveUpdates throttle0 before) @
          (if trim t None \<noteq> lastText ?th \<and> 600 \<le> now - lastAt ?th
           then [(trim t None, now)] else [])"
    by (simp add: liveUpdates_snoc liveUpdate_rule)
  then show ?thesis
    by (simp only: lastText_run [of before] lastAt_run [of before])
qed

theorem throttle_rule_witness:
  "snd (liveUpdates throttle0 ([(js ''a'', 1000), (js ''ab'', 1100)] @ [(js ''abc'', 2000)])) =
     [(js ''a'', 1000), (js ''abc'', 2000)] \<and>
   snd (liveUpdates throttle0 ([(js ''a'', 1000), (js ''ab'', 1100)] @ [(js ''ab'', 2000)])) =
     [(js ''a'', 1000)]"
proof -
  have b: "snd (liveUpdates throttle0 [(js ''a'', 1000), (js ''ab'', 1100)]) = [(js ''a'', 1000)]"
    by (simp add: liveUpdate_def throttle0_def trim_def Let_def js_simps)
  have t: "trim (js ''abc'') None = js ''abc''" "trim (js ''ab'') None = js ''ab''"
    by (simp_all add: trim_def)
  have n: "js ''abc'' \<noteq> js ''ab''" by (simp add: js_simps)
  from throttle_rule [of "[(js ''a'', 1000), (js ''ab'', 1100)]" "js ''abc''" 2000]
       throttle_rule [of "[(js ''a'', 1000), (js ''ab'', 1100)]" "js ''ab''" 2000]
  show ?thesis unfolding b by (simp add: t n del: liveUpdates.simps)
qed

text \<open>
  The rule as claimed fails on the code. The calls are \<open>a\<close> at 1000 ms, \<open>ab\<close> at 1100 ms
  and \<open>ab\<close> again at 2000 ms. The first is forwarded, the second is suppressed by the
  interval but recorded as the last text; the third differs from the last forwarded
  value \<open>a\<close> and comes 1000 ms after it, and is suppressed all the same. When the third
  call is \<open>a\<close> instead, it is forwarded although it is identical to the last forwarded
  value. The rule in the words of the specification forwards the third call in the
  first case and suppresses it in the second.
\<close>

theorem throttle_compares_with_last_seen:
  "snd (liveUpdates throttle0 [(js ''a'', 1000), (js ''ab'', 1100), (js ''ab'', 2000)]) =
     [(js ''a'', 1000)] \<and>
   trim (js ''ab'') None \<noteq> js ''a'' \<and> (600 :: int) \<le> 2000 - 1000 \<and>
   snd (spec_notifies throttle0 [(js ''a'', 1000), (js ''ab'', 1100), (js ''ab'', 2000)]) =
     [(js ''a'', 1000), (js ''ab'', 2000)] \<and>
   snd (liveUpdates throttle0 [(js ''a'', 1000), (js ''ab'', 1100), (js ''a'', 2000)]) =
     [(js ''a'', 1000), (js ''a'', 2000)] \<and>
   snd (spec_notifies throttle0 [(js ''a'', 1000), (js ''ab'', 1100), (js ''a'', 2000)]) =
     [(js ''a'', 1000)]"
  by (simp add: liveUpdate_def spec_notify_def throttle0_def trim_def Let_def js_simps)

subsection \<open>The message handler: shared facts\<close>

lemma lower_ascii_letter:
  "lower_ascii c \<in> set (js ''reset'') \<Longrightarrow> \<not> is_space c"
  by (auto simp: lower_ascii_def is_space_def js_simps split: if_splits)

lemma reset_head_not_space:
  assumes "map lower_ascii a = js ''reset''"
  shows "\<forall>c \<in> set a. \<not> is_space c"
proof
  fix c assume "c \<in> set a"
  then have "lower_ascii c \<in> set (map lower_ascii a)" by simp
  with assms show "\<not> is_space c" by (simp add: lower_ascii_letter)
qed

lemma trim_keeps_head:
  assumes "a \<noteq> []" and "\<forall>c \<in> set a. \<not> is_space c"
  shows "js_trim (a @ r) = a @ rev (dropWhile is_space (rev r))"
proof -
  from assms obtain x xs where a: "a = x # xs" by (cases a) auto
  with assms have "\<not> is_space x" by simp
  then have 1: "dropWhile is_space (a @ r) = a @ r" by (simp add: a)
  from assms have "\<not> is_space (last a)" by simp
  then have 2: "dropWhile is_space (rev a) = rev a"
    using assms(1) by (cases a rule: rev_cases) auto
  have "dropWhile is_space (rev r @ rev a) = dropWhile is_space (rev r) @ rev a"
  proof (cases "\<forall>c \<in> set (rev r). is_space c")
    case True
    then have "dropWhile is_space (rev r) = []" by simp
    moreover from True have "dropWhile is_space (rev r @ rev a) = dropWhile is_space (rev a)"
      by (intro dropWhile_append2) auto
    ultimately show ?thesis by (simp only: 2 append_Nil)
  next
    case False
    then obtain c where "c \<in> set (rev r)" "\<not> is_space c" by blast
    then show ?thesis by (simp add: dropWhile_append1)
  qed
  then show ?thesis by (simp add: js_trim_def 1)
qed

lemma rtrim_prefix: "\<exists>sp. r = rev (dropWhile P (rev r)) @ sp"
proof -
  have "rev r = takeWhile P (rev r) @ dropWhile P (rev r)" by simp
  then have "rev (rev r) = rev (takeWhile P (rev r) @ dropWhile P (rev r))" by (rule arg_cong)
  then have "r = rev (dropWhile P (rev r)) @ rev (takeWhile P (rev r))"
    by (simp del: takeWhile_dropWhile_id)
  then show ?thesis by (rule exI)
qed

text \<open>
  A message text that itself matches \<open>^reset\b\<close> is not blank, still matches after
  \<open>trim\<close>, and does not start with \<open>quick:\<close>, so it is the text the handlers test.
\<close>

lemma reset_text_survives:
  assumes "reset_command t"
  shows "js_trim t \<noteq> [] \<and> reset_command (js_trim t) \<and>
         reset_command (effective_text cfg (js_trim t))"
proof -
  let ?a = "take 5 t" and ?r = "drop 5 t"
  from assms have m: "map lower_ascii ?a = js ''reset''" by (simp add: reset_command_def)
  then have "length (map lower_ascii ?a) = 5" by (simp add: js_simps)
  then have la: "length ?a = 5" by simp
  then have ne: "?a \<noteq> []" by auto
  have tr: "js_trim t = ?a @ rev (dropWhile is_space (rev ?r))"
    using trim_keeps_head [OF ne reset_head_not_space [OF m], of ?r] by simp
  obtain sp where sp: "?r = rev (dropWhile is_space (rev ?r)) @ sp"
    using rtrim_prefix by blast
  have r1: "js_trim t \<noteq> []" using ne by (simp add: tr)
  have tk: "take 5 (js_trim t) = ?a" using la by (simp add: tr)
  have dr: "drop 5 (js_trim t) = rev (dropWhile is_space (rev ?r))" using la by (simp add: tr)
  have r2: "reset_command (js_trim t)"
  proof (cases "rev (dropWhile is_space (rev ?r))")
    case Nil
    then show ?thesis using m by (simp only: reset_command_def tk dr list.case simp_thms)
  next
    case (Cons c cs)
    with sp have "?r = c # cs @ sp" by simp
    with assms have "\<not> is_word c" by (simp add: reset_command_def)
    then show ?thesis using m Cons by (simp only: reset_command_def tk dr list.case simp_thms)
  qed
  have "\<not> quick_prefix (js_trim t)"
  proof
    assume "quick_prefix (js_trim t)"
    then have "map lower_ascii (take 6 (js_trim t)) = js ''quick:''" by (simp add: quick_prefix_def)
    then have "take 5 (map lower_ascii (take 6 (js_trim t))) = take 5 (js ''quick:'')" by simp
    then have "map lower_ascii (take 5 (js_trim t)) = take 5 (js ''quick:'')"
      by (simp add: take_map)
    with m tk show False by (simp add: js_simps)
  qed
  then have "effective_text cfg (js_trim t) = js_trim t"
    by (simp add: effective_text_def isQuickMode_def)
  with r1 r2 show ?thesis by simp
qed


subsection \<open>Numbers as text, evaluated\<close>

lemma replicate_numeral: "replicate (numeral k) x = x # replicate (pred_numeral k) x"
  by (simp add: numeral_eq_Suc)

lemma bit_length_numeral:
  "bit_length 0 = 0" "bit_length 1 = 1"
  "bit_length (numeral k) = Suc (bit_length (numeral k div 2))"
  by simp_all

lemma floor_rat_quotient:
  "\<lfloor>(numeral a :: rat) / numeral b\<rfloor> = numeral a div numeral b"
  using floor_divide_of_int_eq [of "numeral a" "numeral b", where ?'a = rat] by simp

lemma seconds_1000: "seconds 1000 = Finite 1"
  by (simp add: seconds_def nearest_double_def round_even_def Let_def)

lemma seconds_1250: "seconds 1250 = Finite (5 / 4)"
  by (simp add: seconds_def nearest_double_def round_even_def Let_def)

lemma seconds_150: "seconds 150 = Finite (5404319552844595 / 36028797018963968)"
  by (simp add: seconds_def nearest_double_def round_even_def Let_def)

lemmas number_simps =
  toFixed_def fixed_digits_def Let_def js_simps replicate_numeral floor_rat_quotient

lemma toFixed_samples:
  "toFixed big 1 (Finite 1) = js ''1.0''"
  "toFixed big 1 (Finite (5 / 4)) = js ''1.3''"
  "toFixed big 1 (Finite (5404319552844595 / 36028797018963968)) = js ''0.1''"
  "toFixed big 4 (Finite 0) = js ''0.0000''"
  "toFixed big 4 (Finite (123 / 10000)) = js ''0.0123''"
  by (simp_all add: number_simps)

subsection \<open>One run among the others\<close>

lemma play_append:
  "play arrive h (es @ fs) sys =
     (case play arrive h es sys of
        (s1, a1) \<Rightarrow> (case play arrive h fs s1 of (s2, a2) \<Rightarrow> (s2, a1 @ a2)))"
  by (induction es arbitrary: sys) (simp_all split: prod.splits)

lemma play_snoc:
  "fst (play arrive h (es @ [e]) sys) = fst (deliver arrive h e (fst (play arrive h es sys)))"
  by (simp add: play_append split: prod.splits)

lemma updates_simps [simp]:
  "updates r [] = []"
  "updates r (a @ b) = updates r a @ updates r b"
  "updates r ((r', x) # a) = (if r' = r \<and> is_update x then x # updates r a else updates r a)"
  by (simp_all add: updates_def)

lemma invocations_simps [simp]:
  "invocations r [] = []"
  "invocations r (a @ b) = invocations r a @ invocations r b"
  "invocations r ((r', x) # a) =
     (if r' = r \<and> is_invocation x then x # invocations r a else invocations r a)"
  by (simp_all add: invocations_def)

lemma liveUpdates_split:
  "liveUpdates th (a @ b) =
     (fst (liveUpdates (fst (liveUpdates th a)) b),
      snd (liveUpdates th a) @ snd (liveUpdates (fst (liveUpdates th a)) b))"
  by (simp add: liveUpdates_append split: prod.splits)

text \<open>What a continuation of another run leaves of run \<open>r\<close>.\<close>

lemma other_after_post:
  assumes "r' \<noteq> r"
  shows "runs (fst (after_post r' p now sys)) r = runs sys r"
    and "next_run (fst (after_post r' p now sys)) = next_run sys"
    and "updates r (snd (after_post r' p now sys)) = []"
  using assms by (simp_all add: after_post_def split: option.splits)

lemma other_on_chunk:
  assumes "r' \<noteq> r"
  shows "runs (fst (on_chunk r' t now sys)) r = runs sys r"
    and "next_run (fst (on_chunk r' t now sys)) = next_run sys"
    and "updates r (snd (on_chunk r' t now sys)) = []"
  using assms by (simp_all add: on_chunk_def split: option.splits prod.splits)

lemma other_after_invocation:
  assumes "r' \<noteq> r"
  shows "runs (fst (after_invocation h r' outcome now sys)) r = runs sys r"
    and "next_run (fst (after_invocation h r' outcome now sys)) = next_run sys"
    and "updates r (snd (after_invocation h r' outcome now sys)) = []"
  using assms
  by (simp_all add: after_invocation_def to_catch_def to_update_def
      split: option.splits sum.splits reply.splits)

lemma other_after_update:
  assumes "r' \<noteq> r"
  shows "runs (fst (after_update r' res sys)) r = runs sys r"
    and "next_run (fst (after_update r' res sys)) = next_run sys"
    and "updates r (snd (after_update r' res sys)) = []"
  using assms by (simp_all add: after_update_def to_catch_def split: option.splits)

text \<open>What the arrival of a message leaves of a run that exists.\<close>

lemma handleMessage_arrives:
  assumes "r < next_run s"
  shows "runs (fst (handleMessage h cfg m s)) r = runs s r"
    and "r < next_run (fst (handleMessage h cfg m s))"
    and "updates r (snd (handleMessage h cfg m s)) = []"
  using assms by (simp_all add: handleMessage_def Let_def split: option.splits)

lemma app_message_arrives:
  assumes "r < next_run s"
  shows "runs (fst (app_message h cfg m s)) r = runs s r"
    and "r < next_run (fst (app_message h cfg m s))"
    and "updates r (snd (app_message h cfg m s)) = []"
  using assms by (simp_all add: app_message_def Let_def split: option.splits)

subsection \<open>A run that waits for its invocation\<close>

lemma play_Cons:
  "fst (play arrive h (e # es) sys) = fst (play arrive h es (fst (deliver arrive h e sys)))"
  "snd (play arrive h (e # es) sys) =
     snd (deliver arrive h e sys) @ snd (play arrive h es (fst (deliver arrive h e sys)))"
  by (simp_all split: prod.splits)

lemma play_split:
  "fst (play arrive h (es @ fs) sys) = fst (play arrive h fs (fst (play arrive h es sys)))"
  "snd (play arrive h (es @ fs) sys) =
     snd (play arrive h es sys) @ snd (play arrive h fs (fst (play arrive h es sys)))"
  by (simp_all add: play_append split: prod.splits)

lemma chunks_of_Cons: "chunks_of r (e # es) = chunks_of r [e] @ chunks_of r es"
  by (cases e) simp_all

lemma forwarded_Nil [simp]: "forwarded ru [] = []"
  by (simp add: forwarded_def)

lemma forwarded_append:
  "forwarded ru (a @ b) =
     forwarded ru a @
     forwarded (ru\<lparr>run_throttle := fst (liveUpdates (run_throttle ru) a)\<rparr>) b"
  by (simp add: forwarded_def liveUpdates_split)

lemma throttle_same [simp]: "ru\<lparr>run_throttle := run_throttle ru\<rparr> = ru"
  by simp

text \<open>
  While run \<open>r\<close> waits for its invocation, an event that is not the return of that
  invocation changes nothing of the run but the variables of its \<open>liveUpdate\<close>, and
  the run makes the \<open>chat.update\<close> calls of \<open>liveUpdate\<close> and no other.
\<close>

lemma running_step:
  assumes arr: "\<And>m s. r < next_run s \<Longrightarrow>
      runs (fst (arrive m s)) r = runs s r \<and> r < next_run (fst (arrive m s)) \<and>
      updates r (snd (arrive m s)) = []"
    and aw: "awaiting r ru sys" and ns: "\<not> settles r e"
  shows "awaiting r (ru\<lparr>run_throttle := fst (liveUpdates (run_throttle ru) (chunks_of r [e]))\<rparr>)
           (fst (deliver arrive h e sys)) \<and>
         updates r (snd (deliver arrive h e sys)) = forwarded ru (chunks_of r [e])"
proof (cases e)
  case (Message m)
  from aw have "r < next_run sys" by (simp add: awaiting_def)
  from arr [OF this, of m] aw Message show ?thesis by (simp add: awaiting_def)
next
  case (PostReturned r' p now)
  show ?thesis
  proof (cases "r' = r")
    case True
    with aw have "after_post r' p now sys = (sys, [])" by (simp add: after_post_def awaiting_def)
    with aw PostReturned show ?thesis by simp
  next
    case False
    from other_after_post [OF False, of p now sys] aw PostReturned show ?thesis
      by (simp add: awaiting_def)
  qed
next
  case (OnChunk r' t now)
  show ?thesis
  proof (cases "r' = r")
    case True
    with aw OnChunk show ?thesis
      by (simp add: on_chunk_def awaiting_def forwarded_def split: prod.splits option.splits)
  next
    case False
    from other_on_chunk [OF False, of t now sys] aw OnChunk False show ?thesis
      by (simp add: awaiting_def)
  qed
next
  case (Settled r' outcome now)
  with ns have False: "r' \<noteq> r" by simp
  from other_after_invocation [OF False, of h outcome now sys] aw Settled show ?thesis
    by (simp add: awaiting_def)
next
  case (UpdateReturned r' res)
  show ?thesis
  proof (cases "r' = r")
    case True
    with aw have "after_update r' res sys = (sys, [])" by (simp add: after_update_def awaiting_def)
    with aw UpdateReturned show ?thesis by simp
  next
    case False
    from other_after_update [OF False, of res sys] aw UpdateReturned show ?thesis
      by (simp add: awaiting_def)
  qed
qed

lemma before_settling:
  assumes arr: "\<And>m s. r < next_run s \<Longrightarrow>
      runs (fst (arrive m s)) r = runs s r \<and> r < next_run (fst (arrive m s)) \<and>
      updates r (snd (arrive m s)) = []"
  shows "awaiting r ru sys \<Longrightarrow> \<forall>e \<in> set es. \<not> settles r e \<Longrightarrow>
     awaiting r (ru\<lparr>run_throttle := fst (liveUpdates (run_throttle ru) (chunks_of r es))\<rparr>)
       (fst (play arrive h es sys)) \<and>
     updates r (snd (play arrive h es sys)) = forwarded ru (chunks_of r es)"
proof (induction es arbitrary: sys ru)
  case Nil
  then show ?case by simp
next
  case (Cons e es)
  let ?th = "fst (liveUpdates (run_throttle ru) (chunks_of r [e]))"
  let ?ru = "ru\<lparr>run_throttle := ?th\<rparr>"
  let ?s = "fst (deliver arrive h e sys)"
  from Cons.prems have ne: "\<not> settles r e" and rest: "\<forall>e \<in> set es. \<not> settles r e" by simp_all
  from running_step [OF arr Cons.prems(1) ne, where h = h]
  have aw: "awaiting r ?ru ?s"
    and up: "updates r (snd (deliver arrive h e sys)) = forwarded ru (chunks_of r [e])"
    by simp_all
  from Cons.IH [OF aw rest]
  have aw2: "awaiting r (?ru\<lparr>run_throttle := fst (liveUpdates (run_throttle ?ru) (chunks_of r es))\<rparr>)
       (fst (play arrive h es ?s))"
    and up2: "updates r (snd (play arrive h es ?s)) = forwarded ?ru (chunks_of r es)"
    by simp_all
  have th: "fst (liveUpdates (run_throttle ru) (chunks_of r (e # es))) =
            fst (liveUpdates ?th (chunks_of r es))"
    by (subst chunks_of_Cons) (simp add: liveUpdates_split)
  have fw: "forwarded ru (chunks_of r (e # es)) =
            forwarded ru (chunks_of r [e]) @ forwarded ?ru (chunks_of r es)"
    by (subst chunks_of_Cons) (simp add: forwarded_append)
  from aw2 have "awaiting r (ru\<lparr>run_throttle := fst (liveUpdates (run_throttle ru) (chunks_of r (e # es)))\<rparr>)
       (fst (play arrive h (e # es) sys))"
    by (simp add: th play_Cons del: play.simps)
  moreover from up up2 have "updates r (snd (play arrive h (e # es) sys)) =
       forwarded ru (chunks_of r (e # es))"
    by (simp add: fw play_Cons del: play.simps)
  ultimately show ?case by simp
qed

text \<open>
  Once the final update of run \<open>r\<close> is on its way, the run makes no \<open>chat.update\<close>
  call any more, as long as no \<open>onChunk\<close> call of its invocation arrives and the
  final update is not rejected.
\<close>

lemma after_settling:
  assumes arr: "\<And>m s. r < next_run s \<Longrightarrow>
      runs (fst (arrive m s)) r = runs s r \<and> r < next_run (fst (arrive m s)) \<and>
      updates r (snd (arrive m s)) = []"
  shows "runs sys r = Some ru \<Longrightarrow> run_phase ru = Updating \<or> run_phase ru = Finished \<Longrightarrow>
     r < next_run sys \<Longrightarrow> \<forall>e \<in> set es. \<not> is_chunk r e \<and> \<not> update_rejected r e \<Longrightarrow>
     updates r (snd (play arrive h es sys)) = []"
proof (induction es arbitrary: sys ru)
  case Nil
  then show ?case by simp
next
  case (Cons e es)
  let ?s = "fst (deliver arrive h e sys)"
  from Cons.prems have e: "\<not> is_chunk r e" "\<not> update_rejected r e"
    and rest: "\<forall>e \<in> set es. \<not> is_chunk r e \<and> \<not> update_rejected r e" by simp_all
  have "\<exists>ru'. runs ?s r = Some ru' \<and> (run_phase ru' = Updating \<or> run_phase ru' = Finished) \<and>
          r < next_run ?s \<and> updates r (snd (deliver arrive h e sys)) = []"
  proof (cases e)
    case (Message m)
    from arr [OF Cons.prems(3), of m] Cons.prems Message show ?thesis by simp
  next
    case (PostReturned r' p now)
    show ?thesis
    proof (cases "r' = r")
      case True
      with Cons.prems have "after_post r' p now sys = (sys, [])"
        by (auto simp: after_post_def)
      with Cons.prems PostReturned show ?thesis by simp
    next
      case False
      from other_after_post [OF False, of p now sys] Cons.prems PostReturned show ?thesis
        by simp
    qed
  next
    case (OnChunk r' t now)
    with e have False: "r' \<noteq> r" by simp
    from other_on_chunk [OF False, of t now sys] Cons.prems OnChunk show ?thesis by simp
  next
    case (Settled r' outcome now)
    show ?thesis
    proof (cases "r' = r")
      case True
      with Cons.prems have "after_invocation h r' outcome now sys = (sys, [])"
        by (auto simp: after_invocation_def)
      with Cons.prems Settled show ?thesis by simp
    next
      case False
      from other_after_invocation [OF False, of h outcome now sys] Cons.prems Settled
      show ?thesis by simp
    qed
  next
    case (UpdateReturned r' res)
    show ?thesis
    proof (cases "r' = r")
      case True
      with e UpdateReturned have "res = None" by (cases res) simp_all
      with True Cons.prems UpdateReturned show ?thesis
        by (auto simp: after_update_def)
    next
      case False
      from other_after_update [OF False, of res sys] Cons.prems UpdateReturned show ?thesis
        by simp
    qed
  qed
  then obtain ru' where r: "runs ?s r = Some ru'"
      "run_phase ru' = Updating \<or> run_phase ru' = Finished" "r < next_run ?s"
    and u: "updates r (snd (deliver arrive h e sys)) = []" by blast
  from Cons.IH [OF r rest] u show ?case by (simp add: play_Cons del: play.simps)
qed

text \<open>The return of a successful invocation to the run that waits for it.\<close>

lemma settled_fast:
  assumes "awaiting r ru sys" and "run_quick ru"
  shows "\<exists>s. after_invocation h r (Inr (Fast out)) now sys =
           (s, [(r, UpdateMessage (run_chan ru) (run_ts ru)
                     (sdk_body h (run_file ru) (now - run_t0 ru) out))]) \<and>
         runs s r = Some (ru\<lparr>run_phase := Updating\<rparr>) \<and> next_run s = next_run sys"
  using assms by (simp add: after_invocation_def to_update_def awaiting_def)

lemma settled_full:
  assumes "awaiting r ru sys" and "\<not> run_quick ru" and "cc_body h (run_file ru) out = Inr body"
  shows "\<exists>s. after_invocation h r (Inr (Full out)) now sys =
           (s, [(r, UpdateMessage (run_chan ru) (run_ts ru) body)]) \<and>
         runs s r = Some (ru\<lparr>run_phase := Updating\<rparr>) \<and> next_run s = next_run sys"
  using assms by (simp add: after_invocation_def to_update_def awaiting_def)

text \<open>
  The \<open>chat.update\<close> calls of a run from the start of its invocation on, when the
  invocation succeeds with the final text \<open>body\<close>.
\<close>

lemma run_updates:
  assumes arr: "\<And>m s. r < next_run s \<Longrightarrow>
      runs (fst (arrive m s)) r = runs s r \<and> r < next_run (fst (arrive m s)) \<and>
      updates r (snd (arrive m s)) = []"
    and aw: "awaiting r ru sys"
    and es: "\<forall>e \<in> set es. \<not> settles r e"
    and later: "\<forall>e \<in> set later. \<not> is_chunk r e \<and> \<not> update_rejected r e"
    and ok: "(run_quick ru \<and> reply = Fast fast \<and>
              body = sdk_body h (run_file ru) (now - run_t0 ru) fast) \<or>
             (\<not> run_quick ru \<and> reply = Full out \<and> cc_body h (run_file ru) out = Inr body)"
  shows "updates r (snd (play arrive h (es @ Settled r (Inr reply) now # later) sys)) =
         forwarded ru (chunks_of r es) @ [UpdateMessage (run_chan ru) (run_ts ru) body]"
proof -
  let ?ru = "ru\<lparr>run_throttle := fst (liveUpdates (run_throttle ru) (chunks_of r es))\<rparr>"
  let ?s = "fst (play arrive h es sys)"
  from before_settling [OF arr aw es, where h = h]
  have aw1: "awaiting r ?ru ?s"
    and up1: "updates r (snd (play arrive h es sys)) = forwarded ru (chunks_of r es)"
    by simp_all
  have "\<exists>s. after_invocation h r (Inr reply) now ?s =
           (s, [(r, UpdateMessage (run_chan ru) (run_ts ru) body)]) \<and>
         runs s r = Some (?ru\<lparr>run_phase := Updating\<rparr>) \<and> next_run s = next_run ?s"
    using ok settled_fast [OF aw1, where h = h and out = fast and now = now]
      settled_full [OF aw1, where h = h and out = out and body = body and now = now]
    by auto
  then obtain s where s: "after_invocation h r (Inr reply) now ?s =
           (s, [(r, UpdateMessage (run_chan ru) (run_ts ru) body)])"
    and rs: "runs s r = Some (?ru\<lparr>run_phase := Updating\<rparr>)" and nx: "next_run s = next_run ?s"
    by blast
  from aw1 nx have lt: "r < next_run s" by (simp add: awaiting_def)
  have ph: "run_phase (?ru\<lparr>run_phase := Updating\<rparr>) = Updating \<or>
            run_phase (?ru\<lparr>run_phase := Updating\<rparr>) = Finished"
    by simp
  have "updates r (snd (play arrive h later s)) = []"
    by (rule after_settling [OF arr rs ph lt later])
  with up1 s show ?thesis by (simp add: play_split play_Cons del: play.simps)
qed

text \<open>
  Run numbers are given out in order: in every state reached from the start, each run
  that exists has a number below the next one.
\<close>

lemma run_numbers_step:
  assumes arr: "\<And>m s. \<forall>r \<in> dom (runs s). r < next_run s \<Longrightarrow>
      \<forall>r \<in> dom (runs (fst (arrive m s))). r < next_run (fst (arrive m s))"
    and inv: "\<forall>r \<in> dom (runs sys). r < next_run sys"
  shows "\<forall>r \<in> dom (runs (fst (deliver arrive h e sys))). r < next_run (fst (deliver arrive h e sys))"
proof (cases e)
  case (Message m)
  with arr [OF inv, of m] show ?thesis by simp
next
  case (PostReturned r p now)
  with inv show ?thesis by (auto simp: after_post_def split: option.splits if_splits)
next
  case (OnChunk r t now)
  with inv show ?thesis by (auto simp: on_chunk_def split: option.splits prod.splits if_splits)
next
  case (Settled r outcome now)
  with inv show ?thesis
    by (auto simp: after_invocation_def to_catch_def to_update_def
        split: option.splits sum.splits reply.splits if_splits)
next
  case (UpdateReturned r res)
  with inv show ?thesis
    by (auto simp: after_update_def to_catch_def split: option.splits if_splits)
qed

lemma run_numbers:
  assumes arr: "\<And>m s. \<forall>r \<in> dom (runs s). r < next_run s \<Longrightarrow>
      \<forall>r \<in> dom (runs (fst (arrive m s))). r < next_run (fst (arrive m s))"
  shows "\<forall>r \<in> dom (runs sys). r < next_run sys \<Longrightarrow>
     \<forall>r \<in> dom (runs (fst (play arrive h es sys))). r < next_run (fst (play arrive h es sys))"
proof (induction es arbitrary: sys)
  case Nil
  then show ?case by simp
next
  case (Cons e es)
  from Cons.IH [OF run_numbers_step [OF arr Cons.prems, where h = h and e = e]]
  show ?case by (simp add: play_Cons del: play.simps)
qed

lemma handleMessage_numbers:
  "\<forall>r \<in> dom (runs s). r < next_run s \<Longrightarrow>
   \<forall>r \<in> dom (runs (fst (handleMessage h cfg m s))). r < next_run (fst (handleMessage h cfg m s))"
  by (auto simp: handleMessage_def Let_def dom_def less_Suc_eq split: option.splits if_splits)

lemma app_message_numbers:
  "\<forall>r \<in> dom (runs s). r < next_run s \<Longrightarrow>
   \<forall>r \<in> dom (runs (fst (app_message h cfg m s))). r < next_run (fst (app_message h cfg m s))"
  by (auto simp: app_message_def Let_def dom_def less_Suc_eq split: option.splits if_splits)

lemma reached_numbers:
  "\<forall>r \<in> dom (runs (fst (play (handleMessage h cfg) h es boot))).
     r < next_run (fst (play (handleMessage h cfg) h es boot))"
  "\<forall>r \<in> dom (runs (fst (play (app_message h cfg) h es boot))).
     r < next_run (fst (play (app_message h cfg) h es boot))"
proof -
  show "\<forall>r \<in> dom (runs (fst (play (handleMessage h cfg) h es boot))).
     r < next_run (fst (play (handleMessage h cfg) h es boot))"
  proof (rule run_numbers)
    fix m and s :: "jsstring system"
    assume "\<forall>r \<in> dom (runs s). r < next_run s"
    then show "\<forall>r \<in> dom (runs (fst (handleMessage h cfg m s))).
       r < next_run (fst (handleMessage h cfg m s))"
      by (rule handleMessage_numbers)
  next
    show "\<forall>r \<in> dom (runs (boot :: jsstring system)). r < next_run (boot :: jsstring system)"
      by (simp add: boot_def)
  qed
  show "\<forall>r \<in> dom (runs (fst (play (app_message h cfg) h es boot))).
     r < next_run (fst (play (app_message h cfg) h es boot))"
  proof (rule run_numbers)
    fix m and s :: "jsstring option system"
    assume "\<forall>r \<in> dom (runs s). r < next_run s"
    then show "\<forall>r \<in> dom (runs (fst (app_message h cfg m s))).
       r < next_run (fst (app_message h cfg m s))"
      by (rule app_message_numbers)
  next
    show "\<forall>r \<in> dom (runs (boot :: jsstring option system)).
       r < next_run (boot :: jsstring option system)"
      by (simp add: boot_def)
  qed
qed

text \<open>
  So a run that is found waiting for its invocation, in a state reached from the
  start, is \<open>awaiting\<close>.
\<close>

lemma reached_awaiting:
  "runs (fst (play (handleMessage h cfg) h es boot)) r = Some ru \<Longrightarrow> run_phase ru = Running \<Longrightarrow>
   awaiting r ru (fst (play (handleMessage h cfg) h es boot))"
  "runs (fst (play (app_message h cfg) h es boot)) r = Some rn \<Longrightarrow> run_phase rn = Running \<Longrightarrow>
   awaiting r rn (fst (play (app_message h cfg) h es boot))"
  using reached_numbers [of h cfg es] by (auto simp: awaiting_def)

subsection \<open>The handlers on the sample messages\<close>

lemmas handler_simps =
  ignored_def rawText_def js_trim_def is_space_def
  effective_text_def isQuickMode_def reset_command_def quick_prefix_def strip_quick_def
  chan_def replyThread_def threadTs_def isValidTs_def is_digit_def is_word_def lower_ascii_def
  spawnDir_def REPOS_def Let_def js_simps
  sample_host_def sample_config_def sample_message_def sample_reset_def
  sample_fast_def sample_quick_def

lemma sample_facts:
  "\<not> ignored sample_config sample_reset"
  "rawText sample_reset = Some (js ''Reset now'')"
  "reset_command (effective_text sample_config (js ''Reset now''))"
  "reset_command (js ''Reset now'')"
  "\<not> ignored sample_config sample_message"
  "rawText sample_message = Some (js ''hello'')"
  "\<not> reset_command (effective_text sample_config (js ''hello''))"
  "\<not> reset_command (js ''hello'')"
  "\<not> isQuickMode sample_config (js ''hello'')"
  "effective_text sample_config (js ''hello'') = js ''hello''"
  "msg_channel sample_message = js ''D1''"
  "msg_channel sample_reset = js ''D1''"
  "threadTs sample_message = Some (js ''1.2'')"
  "threadTs sample_reset = Some (js ''1.2'')"
  "\<not> USE_SDK sample_config"
  "spawnDir sample_host sample_config (js ''hello'') = js ''/w''"
  "WORK_DIR sample_config = js ''/w''"
  "chan sample_config sample_message = js ''D1''"
  "chan sample_config sample_reset = js ''D1''"
  "replyThread sample_message = Some (js ''1.2'')"
  "replyThread sample_reset = Some (js ''1.2'')"
  "msg_ts sample_message = Some (js ''1.2'')"
  "msg_text sample_reset = Some (js ''Reset now'')"
  by (simp_all add: handler_simps)

lemma fast_facts:
  "\<not> ignored sample_fast sample_reset"
  "reset_command (effective_text sample_fast (js ''Reset now''))"
  "\<not> ignored sample_fast sample_quick"
  "rawText sample_quick = Some (js ''quick: hello'')"
  "\<not> reset_command (effective_text sample_fast (js ''quick: hello''))"
  "isQuickMode sample_fast (js ''quick: hello'')"
  "effective_text sample_fast (js ''quick: hello'') = js ''hello''"
  "msg_channel sample_quick = js ''D1''"
  "\<not> ignored sample_fast sample_message"
  "USE_SDK sample_fast"
  "chan sample_fast sample_quick = js ''D1''"
  "chan sample_fast sample_message = js ''D1''"
  "chan sample_fast sample_reset = js ''D1''"
  "replyThread sample_quick = Some (js ''1.2'')"
  "msg_ts sample_quick = Some (js ''1.2'')"
  "spawnDir sample_host sample_fast (js ''hello'') = js ''/w''"
  "WORK_DIR sample_fast = js ''/w''"
  "\<not> reset_command (js ''quick: hello'')"
  by (simp_all add: handler_simps)

text \<open>The sample messages, as the handlers take them in, in any state.\<close>

lemma handleMessage_sample:
  "handleMessage sample_host sample_config sample_message sys =
     (sys\<lparr>runs := (runs sys)(next_run sys \<mapsto>
             sample_run\<lparr>run_phase := Posting, run_ts := [], run_t0 := 0\<rparr>),
          next_run := Suc (next_run sys)\<rparr>,
      [(next_run sys, PostMessage (js ''D1'') (Some (js ''1.2'')) (js ''_cc..._''))])"
  by (simp add: handleMessage_def sample_facts sample_run_def Let_def)

lemma handleMessage_sample_quick:
  "handleMessage sample_host sample_fast sample_quick sys =
     (sys\<lparr>runs := (runs sys)(next_run sys \<mapsto>
             sample_run\<lparr>run_quick := True, run_phase := Posting, run_ts := [], run_t0 := 0\<rparr>),
          next_run := Suc (next_run sys)\<rparr>,
      [(next_run sys, PostMessage (js ''D1'') (Some (js ''1.2'')) (js ''_..._''))])"
  by (simp add: handleMessage_def fast_facts sample_facts(8) sample_run_def Let_def)

lemma handleMessage_sample_reset:
  "handleMessage sample_host sample_config sample_reset sys =
     (sys\<lparr>histories := (histories sys)(js ''D1'' := None),
          ccSessions := ccSessions sys - {js ''D1''},
          next_run := Suc (next_run sys)\<rparr>,
      [(next_run sys, PostMessage (js ''D1'') (Some (js ''1.2'')) (js ''Reset.''))])"
  "handleMessage sample_host sample_fast sample_reset sys =
     (sys\<lparr>histories := (histories sys)(js ''D1'' := None),
          ccSessions := ccSessions sys - {js ''D1''},
          next_run := Suc (next_run sys)\<rparr>,
      [(next_run sys, PostMessage (js ''D1'') (Some (js ''1.2'')) (js ''Reset.''))])"
  by (simp_all add: handleMessage_def sample_facts fast_facts Let_def)

lemma app_message_sample:
  "app_message sample_host sample_config sample_message old =
     (old\<lparr>runs := (runs old)(next_run old \<mapsto>
             sample_run_old\<lparr>run_phase := Posting, run_ts := [], run_t0 := 0\<rparr>),
          next_run := Suc (next_run old)\<rparr>,
      [(next_run old, PostMessage (js ''D1'') (Some (js ''1.2'')) (js ''_..._''))])"
  "app_message sample_host sample_fast sample_message old =
     (old\<lparr>runs := (runs old)(next_run old \<mapsto>
             sample_run_old\<lparr>run_quick := True, run_phase := Posting, run_ts := [], run_t0 := 0\<rparr>),
          next_run := Suc (next_run old)\<rparr>,
      [(next_run old, PostMessage (js ''D1'') (Some (js ''1.2'')) (js ''_..._''))])"
  by (simp_all add: app_message_def sample_facts fast_facts sample_run_old_def Let_def)

lemma app_message_sample_reset:
  "app_message sample_host sample_config sample_reset old =
     (old\<lparr>histories := (histories old)(Some (js ''1.2'') := None),
          ccSessions := ccSessions old - {Some (js ''1.2'')},
          next_run := Suc (next_run old)\<rparr>,
      [(next_run old, PostMessage (js ''D1'') (Some (js ''1.2'')) (js ''Reset.''))])"
  "app_message sample_host sample_fast sample_reset old =
     (old\<lparr>histories := (histories old)(Some (js ''1.2'') := None),
          ccSessions := ccSessions old - {Some (js ''1.2'')},
          next_run := Suc (next_run old)\<rparr>,
      [(next_run old, PostMessage (js ''D1'') (Some (js ''1.2'')) (js ''Reset.''))])"
  by (simp_all add: app_message_def sample_facts fast_facts Let_def)

text \<open>The final texts for the sample answers.\<close>

lemma trim_short: "length t \<le> 3800 \<Longrightarrow> trim t None = t"
  by (simp add: trim_def)

lemma fmtMs_samples:
  "fmtMs h 1000 = js ''1.0s''" "fmtMs h 1250 = js ''1.3s''"
  by (simp_all add: fmtMs_def seconds_1000 seconds_1250 toFixed_samples js_simps del: One_nat_def)

lemma body_samples:
  "cc_body h part_000 sample_answer = Inr (js ''done'' @ js ''\<newline>\<newline>_cc 1.0s'' @ footer_tail)"
  "cc_body h index_js sample_answer = Inr (js ''done'' @ js ''\<newline>\<newline>_1.0s'' @ footer_tail)"
  "cc_body h part_000 sample_priced =
     Inr (js ''done'' @ js ''\<newline>\<newline>_cc 1.3s $0.0123'' @ footer_tail)"
  "cc_body sample_host part_000 sample_number = Inl SliceNotFunction"
  "sdk_body h part_000 1000 sample_sdk =
     js ''done'' @ js ''\<newline>\<newline>_quick 1.0s $0.0000'' @ footer_tail"
  "sdk_body h index_js 1000 sample_sdk =
     js ''done'' @ js ''\<newline>\<newline>_1.0s $0.0000'' @ footer_tail"
  by (simp_all add: cc_body_def cc_meta_def costStr_def final_text_def label_def sdk_body_def
      sdk_meta_def sample_answer_def sample_priced_def sample_number_def sample_sdk_def
      fmtMs_samples toFixed_samples trim_short js_simps)

subsection \<open>The final update\<close>

lemma cc_body_text:
  "result out = JStr s \<Longrightarrow>
   cc_body h v out =
     (case costStr h (costUsd out) of
        Inl t \<Rightarrow> Inl t
      | Inr c \<Rightarrow> Inr (trim s None @ label v False @ fmtMs h (durationMs out) @ c @ footer_tail))"
  by (simp add: cc_body_def cc_meta_def final_text_def split: sum.splits)

text \<open>
  C4, as the code has it. Take a run of the handler that waits for its invocation,
  among any other runs, and any sequence of events up to the return of the
  invocation; the \<open>onChunk\<close> calls among them go through the throttled \<open>liveUpdate\<close>.
  When the invocation succeeds and the handler can form the final text, it makes one
  more \<open>chat.update\<close> call, whatever the snapshots and clock readings of the
  \<open>onChunk\<close> calls were. As long as no \<open>onChunk\<close> call of the invocation arrives after
  that and the final update is not rejected, it is the last \<open>chat.update\<close> call of the
  run: the calls of the run are those of \<open>liveUpdate\<close> followed by the final one. The
  final text is not the result text but \<open>trim(result)\<close> followed by the footer; in
  full mode the handler can form it when the result is a string and the cost is
  absent, falsy or a number (first conjunct). This holds in full mode and in fast
  mode, for the handlers of both files.
\<close>

theorem final_update_is_last:
  fixes sys :: "jsstring system" and old :: "jsstring option system"
  assumes "\<forall>e \<in> set es. \<not> settles r e"
    and "\<forall>e \<in> set later. \<not> is_chunk r e \<and> \<not> update_rejected r e"
  shows
  "(result out = JStr s \<longrightarrow>
      cc_body h v out =
        (case costStr h (costUsd out) of
           Inl t \<Rightarrow> Inl t
         | Inr c \<Rightarrow>
             Inr (trim s None @ label v False @ fmtMs h (durationMs out) @ c @ footer_tail))) \<and>
   (awaiting r ru sys \<and> \<not> run_quick ru \<and> cc_body h (run_file ru) out = Inr body \<longrightarrow>
      updates r (snd (play (handleMessage h cfg) h
                        (es @ Settled r (Inr (Full out)) now # later) sys)) =
        forwarded ru (chunks_of r es) @ [UpdateMessage (run_chan ru) (run_ts ru) body]) \<and>
   (awaiting r ru sys \<and> run_quick ru \<longrightarrow>
      updates r (snd (play (handleMessage h cfg) h
                        (es @ Settled r (Inr (Fast fast)) now # later) sys)) =
        forwarded ru (chunks_of r es) @
        [UpdateMessage (run_chan ru) (run_ts ru)
           (trim (sdk_result fast) None @ sdk_meta h (run_file ru) (now - run_t0 ru) fast)]) \<and>
   (awaiting r rn old \<and> \<not> run_quick rn \<and> cc_body h (run_file rn) out = Inr body \<longrightarrow>
      updates r (snd (play (app_message h cfg) h
                        (es @ Settled r (Inr (Full out)) now # later) old)) =
        forwarded rn (chunks_of r es) @ [UpdateMessage (run_chan rn) (run_ts rn) body]) \<and>
   (awaiting r rn old \<and> run_quick rn \<longrightarrow>
      updates r (snd (play (app_message h cfg) h
                        (es @ Settled r (Inr (Fast fast)) now # later) old)) =
        forwarded rn (chunks_of r es) @
        [UpdateMessage (run_chan rn) (run_ts rn)
           (trim (sdk_result fast) None @ sdk_meta h (run_file rn) (now - run_t0 rn) fast)])"
proof (intro conjI impI)
  assume "result out = JStr s"
  then show "cc_body h v out =
        (case costStr h (costUsd out) of
           Inl t \<Rightarrow> Inl t
         | Inr c \<Rightarrow>
             Inr (trim s None @ label v False @ fmtMs h (durationMs out) @ c @ footer_tail))"
    by (rule cc_body_text)
next
  assume a: "awaiting r ru sys \<and> \<not> run_quick ru \<and> cc_body h (run_file ru) out = Inr body"
  have arr: "\<And>m s. r < next_run s \<Longrightarrow>
      runs (fst (handleMessage h cfg m s)) r = runs s r \<and>
      r < next_run (fst (handleMessage h cfg m s)) \<and>
      updates r (snd (handleMessage h cfg m s)) = []"
    by (simp add: handleMessage_arrives)
  from a have aw: "awaiting r ru sys" by simp
  from a have ok: "(run_quick ru \<and> Full out = Fast fast \<and>
              body = sdk_body h (run_file ru) (now - run_t0 ru) fast) \<or>
             (\<not> run_quick ru \<and> Full out = Full out \<and> cc_body h (run_file ru) out = Inr body)"
    by simp
  show "updates r (snd (play (handleMessage h cfg) h
                        (es @ Settled r (Inr (Full out)) now # later) sys)) =
        forwarded ru (chunks_of r es) @ [UpdateMessage (run_chan ru) (run_ts ru) body]"
    by (rule run_updates [OF arr aw assms ok])
next
  assume a: "awaiting r ru sys \<and> run_quick ru"
  have arr: "\<And>m s. r < next_run s \<Longrightarrow>
      runs (fst (handleMessage h cfg m s)) r = runs s r \<and>
      r < next_run (fst (handleMessage h cfg m s)) \<and>
      updates r (snd (handleMessage h cfg m s)) = []"
    by (simp add: handleMessage_arrives)
  from a have aw: "awaiting r ru sys" by simp
  let ?body = "trim (sdk_result fast) None @ sdk_meta h (run_file ru) (now - run_t0 ru) fast"
  from a have ok: "(run_quick ru \<and> Fast fast = Fast fast \<and>
              ?body = sdk_body h (run_file ru) (now - run_t0 ru) fast) \<or>
             (\<not> run_quick ru \<and> Fast fast = Full out \<and> cc_body h (run_file ru) out = Inr ?body)"
    by (simp add: sdk_body_def)
  show "updates r (snd (play (handleMessage h cfg) h
                        (es @ Settled r (Inr (Fast fast)) now # later) sys)) =
        forwarded ru (chunks_of r es) @ [UpdateMessage (run_chan ru) (run_ts ru) ?body]"
    by (rule run_updates [OF arr aw assms ok])
next
  assume a: "awaiting r rn old \<and> \<not> run_quick rn \<and> cc_body h (run_file rn) out = Inr body"
  have arr: "\<And>m s. r < next_run s \<Longrightarrow>
      runs (fst (app_message h cfg m s)) r = runs s r \<and>
      r < next_run (fst (app_message h cfg m s)) \<and>
      updates r (snd (app_message h cfg m s)) = []"
    by (simp add: app_message_arrives)
  from a have aw: "awaiting r rn old" by simp
  from a have ok: "(run_quick rn \<and> Full out = Fast fast \<and>
              body = sdk_body h (run_file rn) (now - run_t0 rn) fast) \<or>
             (\<not> run_quick rn \<and> Full out = Full out \<and> cc_body h (run_file rn) out = Inr body)"
    by simp
  show "updates r (snd (play (app_message h cfg) h
                        (es @ Settled r (Inr (Full out)) now # later) old)) =
        forwarded rn (chunks_of r es) @ [UpdateMessage (run_chan rn) (run_ts rn) body]"
    by (rule run_updates [OF arr aw assms ok])
next
  assume a: "awaiting r rn old \<and> run_quick rn"
  have arr: "\<And>m s. r < next_run s \<Longrightarrow>
      runs (fst (app_message h cfg m s)) r = runs s r \<and>
      r < next_run (fst (app_message h cfg m s)) \<and>
      updates r (snd (app_message h cfg m s)) = []"
    by (simp add: app_message_arrives)
  from a have aw: "awaiting r rn old" by simp
  let ?body = "trim (sdk_result fast) None @ sdk_meta h (run_file rn) (now - run_t0 rn) fast"
  from a have ok: "(run_quick rn \<and> Fast fast = Fast fast \<and>
              ?body = sdk_body h (run_file rn) (now - run_t0 rn) fast) \<or>
             (\<not> run_quick rn \<and> Fast fast = Full out \<and> cc_body h (run_file rn) out = Inr ?body)"
    by (simp add: sdk_body_def)
  show "updates r (snd (play (app_message h cfg) h
                        (es @ Settled r (Inr (Fast fast)) now # later) old)) =
        forwarded rn (chunks_of r es) @ [UpdateMessage (run_chan rn) (run_ts rn) ?body]"
    by (rule run_updates [OF arr aw assms ok])
qed

lemma sample_run_facts:
  "awaiting 0 sample_run sample_running"
  "awaiting 0 (sample_run\<lparr>run_quick := True\<rparr>)
     (sample_running\<lparr>runs := [0 \<mapsto> sample_run\<lparr>run_quick := True\<rparr>]\<rparr>)"
  "awaiting 0 sample_run_old sample_running_old"
  "awaiting 0 (sample_run_old\<lparr>run_quick := True\<rparr>)
     (sample_running_old\<lparr>runs := [0 \<mapsto> sample_run_old\<lparr>run_quick := True\<rparr>]\<rparr>)"
  "\<not> run_quick sample_run" "\<not> run_quick sample_run_old"
  "run_file sample_run = part_000" "run_file sample_run_old = index_js"
  "run_chan sample_run = js ''D1''" "run_chan sample_run_old = js ''D1''"
  "run_ts sample_run = js ''9.9''" "run_ts sample_run_old = js ''9.9''"
  "run_t0 sample_run = 1000" "run_t0 sample_run_old = 1000"
  by (simp_all add: awaiting_def sample_running_def sample_running_old_def sample_run_def
      sample_run_old_def boot_def)

lemma sample_chunks_facts:
  "\<forall>e \<in> set sample_chunks. \<not> settles 0 e"
  "\<forall>e \<in> set [UpdateReturned 0 None]. \<not> is_chunk 0 e \<and> \<not> update_rejected 0 e"
  "chunks_of 0 sample_chunks = [(js ''do'', 1000), (js ''done'', 1100)]"
  by (simp_all add: sample_chunks_def)

lemma sample_forwarded:
  "forwarded sample_run [(js ''do'', 1000), (js ''done'', 1100)] =
     [UpdateMessage (js ''D1'') (js ''9.9'') (js ''do'')]"
  "forwarded (sample_run\<lparr>run_quick := True\<rparr>) [(js ''do'', 1000), (js ''done'', 1100)] =
     [UpdateMessage (js ''D1'') (js ''9.9'') (js ''do'')]"
  "forwarded sample_run_old [(js ''do'', 1000), (js ''done'', 1100)] =
     [UpdateMessage (js ''D1'') (js ''9.9'') (js ''do'')]"
  "forwarded (sample_run_old\<lparr>run_quick := True\<rparr>) [(js ''do'', 1000), (js ''done'', 1100)] =
     [UpdateMessage (js ''D1'') (js ''9.9'') (js ''do'')]"
  by (simp_all add: forwarded_def sample_run_def sample_run_old_def liveUpdate_def
      throttle0_def trim_short js_simps Let_def)

lemma sample_start:
  "fst (play (handleMessage sample_host sample_config) sample_host
          [Message sample_message, PostReturned 0 (Some (js ''9.9'')) 1000] boot) =
     sample_running"
  "fst (play (app_message sample_host sample_config) sample_host
          [Message sample_message, PostReturned 0 (Some (js ''9.9'')) 1000] boot) =
     sample_running_old"
  by (simp_all add: handleMessage_sample app_message_sample after_post_def boot_def
      sample_running_def sample_running_old_def sample_run_def sample_run_old_def)

theorem final_update_is_last_witness:
  "fst (play (handleMessage sample_host sample_config) sample_host
          [Message sample_message, PostReturned 0 (Some (js ''9.9'')) 1000] boot) =
     sample_running \<and>
   awaiting 0 sample_run sample_running \<and>
   chunks_of 0 sample_chunks = [(js ''do'', 1000), (js ''done'', 1100)] \<and>
   result sample_answer = JStr (js ''done'') \<and>
   cc_body sample_host part_000 sample_answer =
     Inr (js ''done'' @ js ''\<newline>\<newline>_cc 1.0s'' @ footer_tail) \<and>
   updates 0 (snd (play (handleMessage sample_host sample_config) sample_host
                     (sample_chunks @ Settled 0 (Inr (Full sample_answer)) 2000 #
                      [UpdateReturned 0 None]) sample_running)) =
     [UpdateMessage (js ''D1'') (js ''9.9'') (js ''do''),
      UpdateMessage (js ''D1'') (js ''9.9'')
        (js ''done'' @ js ''\<newline>\<newline>_cc 1.0s'' @ footer_tail)] \<and>
   updates 0 (snd (play (handleMessage sample_host sample_fast) sample_host
                     (sample_chunks @ Settled 0 (Inr (Fast sample_sdk)) 2000 #
                      [UpdateReturned 0 None])
                     (sample_running\<lparr>runs := [0 \<mapsto> sample_run\<lparr>run_quick := True\<rparr>]\<rparr>))) =
     [UpdateMessage (js ''D1'') (js ''9.9'') (js ''do''),
      UpdateMessage (js ''D1'') (js ''9.9'')
        (js ''done'' @ js ''\<newline>\<newline>_quick 1.0s $0.0000'' @ footer_tail)] \<and>
   updates 0 (snd (play (app_message sample_host sample_config) sample_host
                     (sample_chunks @ Settled 0 (Inr (Full sample_answer)) 2000 #
                      [UpdateReturned 0 None]) sample_running_old)) =
     [UpdateMessage (js ''D1'') (js ''9.9'') (js ''do''),
      UpdateMessage (js ''D1'') (js ''9.9'')
        (js ''done'' @ js ''\<newline>\<newline>_1.0s'' @ footer_tail)] \<and>
   updates 0 (snd (play (app_message sample_host sample_fast) sample_host
                     (sample_chunks @ Settled 0 (Inr (Fast sample_sdk)) 2000 #
                      [UpdateReturned 0 None])
                     (sample_running_old\<lparr>runs := [0 \<mapsto> sample_run_old\<lparr>run_quick := True\<rparr>]\<rparr>))) =
     [UpdateMessage (js ''D1'') (js ''9.9'') (js ''do''),
      UpdateMessage (js ''D1'') (js ''9.9'')
        (js ''done'' @ js ''\<newline>\<newline>_1.0s $0.0000'' @ footer_tail)]"
proof -
  have res: "result sample_answer = JStr (js ''done'')" by (simp add: sample_answer_def)
  note n1 = final_update_is_last
    [OF sample_chunks_facts(1) sample_chunks_facts(2),
     where h = sample_host and cfg = sample_config and now = 2000 and out = sample_answer
       and sys = "sample_running" and ru = "sample_run" and body = "js ''done'' @ js ''\<newline>\<newline>_cc 1.0s'' @ footer_tail", THEN conjunct2, THEN conjunct1, rule_format]
  have n1a: "updates 0 (snd (play (handleMessage sample_host sample_config) sample_host
         (sample_chunks @ Settled 0 (Inr (Full sample_answer)) 2000 # [UpdateReturned 0 None])
         (sample_running))) =
       forwarded (sample_run) (chunks_of 0 sample_chunks) @
       [UpdateMessage (run_chan (sample_run)) (run_ts (sample_run)) (js ''done'' @ js ''\<newline>\<newline>_cc 1.0s'' @ footer_tail)]"
    by (rule n1) (simp add: sample_run_facts body_samples)
  have n1b: "updates 0 (snd (play (handleMessage sample_host sample_config) sample_host
         (sample_chunks @ Settled 0 (Inr (Full sample_answer)) 2000 # [UpdateReturned 0 None])
         (sample_running))) =
     [UpdateMessage (js ''D1'') (js ''9.9'') (js ''do''),
      UpdateMessage (js ''D1'') (js ''9.9'')
        (js ''done'' @ js ''\<newline>\<newline>_cc 1.0s'' @ footer_tail)]"
    unfolding n1a
    by (simp add: sample_chunks_facts(3) sample_forwarded sample_run_facts
        body_samples [unfolded sdk_body_def])
  note n2 = final_update_is_last
    [OF sample_chunks_facts(1) sample_chunks_facts(2),
     where h = sample_host and cfg = sample_fast and now = 2000 and fast = sample_sdk
       and sys = "sample_running\<lparr>runs := [0 \<mapsto> sample_run\<lparr>run_quick := True\<rparr>]\<rparr>" and ru = "sample_run\<lparr>run_quick := True\<rparr>", THEN conjunct2, THEN conjunct2, THEN conjunct1, rule_format]
  have n2a: "updates 0 (snd (play (handleMessage sample_host sample_fast) sample_host
         (sample_chunks @ Settled 0 (Inr (Fast sample_sdk)) 2000 # [UpdateReturned 0 None])
         (sample_running\<lparr>runs := [0 \<mapsto> sample_run\<lparr>run_quick := True\<rparr>]\<rparr>))) =
       forwarded (sample_run\<lparr>run_quick := True\<rparr>) (chunks_of 0 sample_chunks) @
       [UpdateMessage (run_chan (sample_run\<lparr>run_quick := True\<rparr>)) (run_ts (sample_run\<lparr>run_quick := True\<rparr>))
         (trim (sdk_result sample_sdk) None @
          sdk_meta sample_host (run_file (sample_run\<lparr>run_quick := True\<rparr>)) (2000 - run_t0 (sample_run\<lparr>run_quick := True\<rparr>)) sample_sdk)]"
    by (rule n2) (simp add: sample_run_facts body_samples)
  have n2b: "updates 0 (snd (play (handleMessage sample_host sample_fast) sample_host
         (sample_chunks @ Settled 0 (Inr (Fast sample_sdk)) 2000 # [UpdateReturned 0 None])
         (sample_running\<lparr>runs := [0 \<mapsto> sample_run\<lparr>run_quick := True\<rparr>]\<rparr>))) =
     [UpdateMessage (js ''D1'') (js ''9.9'') (js ''do''),
      UpdateMessage (js ''D1'') (js ''9.9'')
        (js ''done'' @ js ''\<newline>\<newline>_quick 1.0s $0.0000'' @ footer_tail)]"
    unfolding n2a
    by (simp add: sample_chunks_facts(3) sample_forwarded sample_run_facts
        body_samples [unfolded sdk_body_def])
  note n3 = final_update_is_last
    [OF sample_chunks_facts(1) sample_chunks_facts(2),
     where h = sample_host and cfg = sample_config and now = 2000 and out = sample_answer
       and old = "sample_running_old" and rn = "sample_run_old" and body = "js ''done'' @ js ''\<newline>\<newline>_1.0s'' @ footer_tail", THEN conjunct2, THEN conjunct2, THEN conjunct2, THEN conjunct1, rule_format]
  have n3a: "updates 0 (snd (play (app_message sample_host sample_config) sample_host
         (sample_chunks @ Settled 0 (Inr (Full sample_answer)) 2000 # [UpdateReturned 0 None])
         (sample_running_old))) =
       forwarded (sample_run_old) (chunks_of 0 sample_chunks) @
       [UpdateMessage (run_chan (sample_run_old)) (run_ts (sample_run_old)) (js ''done'' @ js ''\<newline>\<newline>_1.0s'' @ footer_tail)]"
    by (rule n3) (simp add: sample_run_facts body_samples)
  have n3b: "updates 0 (snd (play (app_message sample_host sample_config) sample_host
         (sample_chunks @ Settled 0 (Inr (Full sample_answer)) 2000 # [UpdateReturned 0 None])
         (sample_running_old))) =
     [UpdateMessage (js ''D1'') (js ''9.9'') (js ''do''),
      UpdateMessage (js ''D1'') (js ''9.9'')
        (js ''done'' @ js ''\<newline>\<newline>_1.0s'' @ footer_tail)]"
    unfolding n3a
    by (simp add: sample_chunks_facts(3) sample_forwarded sample_run_facts
        body_samples [unfolded sdk_body_def])
  note n4 = final_update_is_last
    [OF sample_chunks_facts(1) sample_chunks_facts(2),
     where h = sample_host and cfg = sample_fast and now = 2000 and fast = sample_sdk
       and old = "sample_running_old\<lparr>runs := [0 \<mapsto> sample_run_old\<lparr>run_quick := True\<rparr>]\<rparr>" and rn = "sample_run_old\<lparr>run_quick := True\<rparr>", THEN conjunct2, THEN conjunct2, THEN conjunct2, THEN conjunct2, rule_format]
  have n4a: "updates 0 (snd (play (app_message sample_host sample_fast) sample_host
         (sample_chunks @ Settled 0 (Inr (Fast sample_sdk)) 2000 # [UpdateReturned 0 None])
         (sample_running_old\<lparr>runs := [0 \<mapsto> sample_run_old\<lparr>run_quick := True\<rparr>]\<rparr>))) =
       forwarded (sample_run_old\<lparr>run_quick := True\<rparr>) (chunks_of 0 sample_chunks) @
       [UpdateMessage (run_chan (sample_run_old\<lparr>run_quick := True\<rparr>)) (run_ts (sample_run_old\<lparr>run_quick := True\<rparr>))
         (trim (sdk_result sample_sdk) None @
          sdk_meta sample_host (run_file (sample_run_old\<lparr>run_quick := True\<rparr>)) (2000 - run_t0 (sample_run_old\<lparr>run_quick := True\<rparr>)) sample_sdk)]"
    by (rule n4) (simp add: sample_run_facts body_samples)
  have n4b: "updates 0 (snd (play (app_message sample_host sample_fast) sample_host
         (sample_chunks @ Settled 0 (Inr (Fast sample_sdk)) 2000 # [UpdateReturned 0 None])
         (sample_running_old\<lparr>runs := [0 \<mapsto> sample_run_old\<lparr>run_quick := True\<rparr>]\<rparr>))) =
     [UpdateMessage (js ''D1'') (js ''9.9'') (js ''do''),
      UpdateMessage (js ''D1'') (js ''9.9'')
        (js ''done'' @ js ''\<newline>\<newline>_1.0s $0.0000'' @ footer_tail)]"
    unfolding n4a
    by (simp add: sample_chunks_facts(3) sample_forwarded sample_run_facts
        body_samples [unfolded sdk_body_def])
  from n1b n2b n3b n4b sample_start(1) sample_run_facts(1) sample_chunks_facts(3) res body_samples(1)
  show ?thesis by blast
qed

lemma sample_errors:
  "error_message sample_host SliceNotFunction = js ''t.slice is not a function''"
  "error_message sample_host ToFixedNotFunction = js ''out.costUsd.toFixed is not a function''"
  by (simp_all add: sample_host_def)

lemmas run_simps =
  after_post_def on_chunk_def after_invocation_def after_update_def to_update_def
  to_catch_def liveUpdate_def throttle0_def boot_def sample_run_def sample_run_old_def
  trim_short Let_def

text \<open>
  The claim as stated fails on the code. The worker resolves the invocation with the
  result text \<open>done\<close>; the last text the chat message is given is not that text but the
  text followed by the footer, in both files. An assistant record that the worker
  prints after its result record still reaches \<open>onChunk\<close> (the stdout handler stays in
  place after \<open>resolve\<close>), and \<open>liveUpdate\<close> forwards it after the final update. When
  the final update is rejected, the last text is the error notice; when the result is
  a number, the handler cannot form the final text and the only update is the error
  notice.
\<close>

theorem last_update_is_not_the_result_text:
  "result sample_answer = JStr (js ''done'') \<and>
   updates 0 (snd (play (handleMessage sample_host sample_config) sample_host
      [Message sample_message, PostReturned 0 (Some (js ''9.9'')) 1000,
       OnChunk 0 (js ''do'') 1000, Settled 0 (Inr (Full sample_answer)) 2000,
       UpdateReturned 0 None] boot)) =
     [UpdateMessage (js ''D1'') (js ''9.9'') (js ''do''),
      UpdateMessage (js ''D1'') (js ''9.9'')
        (js ''done'' @ js ''\<newline>\<newline>_cc 1.0s'' @ footer_tail)] \<and>
   js ''done'' @ js ''\<newline>\<newline>_cc 1.0s'' @ footer_tail \<noteq> js ''done'' \<and>
   updates 0 (snd (play (app_message sample_host sample_config) sample_host
      [Message sample_message, PostReturned 0 (Some (js ''9.9'')) 1000,
       OnChunk 0 (js ''do'') 1000, Settled 0 (Inr (Full sample_answer)) 2000,
       UpdateReturned 0 None] boot)) =
     [UpdateMessage (js ''D1'') (js ''9.9'') (js ''do''),
      UpdateMessage (js ''D1'') (js ''9.9'')
        (js ''done'' @ js ''\<newline>\<newline>_1.0s'' @ footer_tail)] \<and>
   settled (askClaude sample_runtime part_000 0
      [Data (bytes (line_success @ ''\<newline>'')) 1000]) =
     Some (Resolved sample_answer) \<and>
   chunks (askClaude sample_runtime part_000 0
      [Data (bytes (line_success @ ''\<newline>'')) 1000,
       Data (bytes (line_text @ ''\<newline>'')) 2000]) = [js ''hi''] \<and>
   updates 0 (snd (play (handleMessage sample_host sample_config) sample_host
      [Message sample_message, PostReturned 0 (Some (js ''9.9'')) 1000,
       Settled 0 (Inr (Full sample_answer)) 2000, UpdateReturned 0 None,
       OnChunk 0 (js ''hi'') 3000] boot)) =
     [UpdateMessage (js ''D1'') (js ''9.9'')
        (js ''done'' @ js ''\<newline>\<newline>_cc 1.0s'' @ footer_tail),
      UpdateMessage (js ''D1'') (js ''9.9'') (js ''hi'')] \<and>
   updates 0 (snd (play (handleMessage sample_host sample_config) sample_host
      [Message sample_message, PostReturned 0 (Some (js ''9.9'')) 1000,
       Settled 0 (Inr (Full sample_answer)) 2000,
       UpdateReturned 0 (Some (js ''msg_too_long''))] boot)) =
     [UpdateMessage (js ''D1'') (js ''9.9'')
        (js ''done'' @ js ''\<newline>\<newline>_cc 1.0s'' @ footer_tail),
      UpdateMessage (js ''D1'') (js ''9.9'') (js ''Error: msg_too_long'')] \<and>
   updates 0 (snd (play (handleMessage sample_host sample_config) sample_host
      [Message sample_message, PostReturned 0 (Some (js ''9.9'')) 1000,
       Settled 0 (Inr (Full sample_number)) 2000] boot)) =
     [UpdateMessage (js ''D1'') (js ''9.9'') (js ''Error: t.slice is not a function'')]"
proof (intro conjI)
  show "result sample_answer = JStr (js ''done'')" by (simp add: sample_answer_def)
  show "updates 0 (snd (play (handleMessage sample_host sample_config) sample_host
      [Message sample_message, PostReturned 0 (Some (js ''9.9'')) 1000,
       OnChunk 0 (js ''do'') 1000, Settled 0 (Inr (Full sample_answer)) 2000,
       UpdateReturned 0 None] boot)) =
     [UpdateMessage (js ''D1'') (js ''9.9'') (js ''do''),
      UpdateMessage (js ''D1'') (js ''9.9'')
        (js ''done'' @ js ''\<newline>\<newline>_cc 1.0s'' @ footer_tail)]"
    by (simp add: handleMessage_sample run_simps body_samples js_simps)
  show "js ''done'' @ js ''\<newline>\<newline>_cc 1.0s'' @ footer_tail \<noteq> js ''done''"
    by (simp add: js_simps)
  show "updates 0 (snd (play (app_message sample_host sample_config) sample_host
      [Message sample_message, PostReturned 0 (Some (js ''9.9'')) 1000,
       OnChunk 0 (js ''do'') 1000, Settled 0 (Inr (Full sample_answer)) 2000,
       UpdateReturned 0 None] boot)) =
     [UpdateMessage (js ''D1'') (js ''9.9'') (js ''do''),
      UpdateMessage (js ''D1'') (js ''9.9'')
        (js ''done'' @ js ''\<newline>\<newline>_1.0s'' @ footer_tail)]"
    by (simp add: app_message_sample run_simps body_samples js_simps)
  show "settled (askClaude sample_runtime part_000 0
      [Data (bytes (line_success @ ''\<newline>'')) 1000]) =
     Some (Resolved sample_answer)"
    by (simp add: sample_simps sample_answer_def)
  show "chunks (askClaude sample_runtime part_000 0
      [Data (bytes (line_success @ ''\<newline>'')) 1000,
       Data (bytes (line_text @ ''\<newline>'')) 2000]) = [js ''hi'']"
    by (simp add: sample_simps)
  show "updates 0 (snd (play (handleMessage sample_host sample_config) sample_host
      [Message sample_message, PostReturned 0 (Some (js ''9.9'')) 1000,
       Settled 0 (Inr (Full sample_answer)) 2000, UpdateReturned 0 None,
       OnChunk 0 (js ''hi'') 3000] boot)) =
     [UpdateMessage (js ''D1'') (js ''9.9'')
        (js ''done'' @ js ''\<newline>\<newline>_cc 1.0s'' @ footer_tail),
      UpdateMessage (js ''D1'') (js ''9.9'') (js ''hi'')]"
    by (simp add: handleMessage_sample run_simps body_samples js_simps)
  show "updates 0 (snd (play (handleMessage sample_host sample_config) sample_host
      [Message sample_message, PostReturned 0 (Some (js ''9.9'')) 1000,
       Settled 0 (Inr (Full sample_answer)) 2000,
       UpdateReturned 0 (Some (js ''msg_too_long''))] boot)) =
     [UpdateMessage (js ''D1'') (js ''9.9'')
        (js ''done'' @ js ''\<newline>\<newline>_cc 1.0s'' @ footer_tail),
      UpdateMessage (js ''D1'') (js ''9.9'') (js ''Error: msg_too_long'')]"
    by (simp add: handleMessage_sample run_simps body_samples js_simps)
  show "updates 0 (snd (play (handleMessage sample_host sample_config) sample_host
      [Message sample_message, PostReturned 0 (Some (js ''9.9'')) 1000,
       Settled 0 (Inr (Full sample_number)) 2000] boot)) =
     [UpdateMessage (js ''D1'') (js ''9.9'') (js ''Error: t.slice is not a function'')]"
    by (simp add: handleMessage_sample run_simps body_samples sample_errors js_simps)
qed

subsection \<open>Reset\<close>

text \<open>
  The session state of key \<open>k\<close> stays empty over an event that is not the return of
  a successful invocation to a run of that key.
\<close>

lemma clean_step:
  assumes arr: "\<And>m s. histories s k = None \<and> k \<notin> ccSessions s \<Longrightarrow>
      histories (fst (arrive m s)) k = None \<and> k \<notin> ccSessions (fst (arrive m s))"
    and cl: "histories sys k = None \<and> k \<notin> ccSessions sys"
    and nc: "\<not> completes k sys e"
  shows "histories (fst (deliver arrive h e sys)) k = None \<and>
         k \<notin> ccSessions (fst (deliver arrive h e sys))"
proof (cases e)
  case (Message m)
  with arr [OF cl, of m] show ?thesis by simp
next
  case (PostReturned r p now)
  with cl show ?thesis by (simp add: after_post_def split: option.splits)
next
  case (OnChunk r t now)
  with cl show ?thesis by (simp add: on_chunk_def split: option.splits prod.splits)
next
  case (Settled r outcome now)
  with cl nc show ?thesis
    by (auto simp: after_invocation_def to_catch_def to_update_def
        split: option.splits sum.splits reply.splits)
next
  case (UpdateReturned r res)
  with cl show ?thesis by (simp add: after_update_def to_catch_def split: option.splits)
qed

lemma clean_play:
  assumes arr: "\<And>m s. histories s k = None \<and> k \<notin> ccSessions s \<Longrightarrow>
      histories (fst (arrive m s)) k = None \<and> k \<notin> ccSessions (fst (arrive m s))"
  shows "histories sys k = None \<and> k \<notin> ccSessions sys \<Longrightarrow> undisturbed arrive h k es sys \<Longrightarrow>
     histories (fst (play arrive h es sys)) k = None \<and>
     k \<notin> ccSessions (fst (play arrive h es sys))"
proof (induction es arbitrary: sys)
  case Nil
  then show ?case by simp
next
  case (Cons e es)
  from Cons.prems(2) have nc: "\<not> completes k sys e"
    and rest: "undisturbed arrive h k es (fst (deliver arrive h e sys))" by simp_all
  from clean_step [OF arr Cons.prems(1) nc, where h = h]
  have "histories (fst (deliver arrive h e sys)) k = None \<and>
        k \<notin> ccSessions (fst (deliver arrive h e sys))" .
  from Cons.IH [OF this rest] show ?case by (simp add: play_Cons del: play.simps)
qed

lemma handleMessage_keeps_clean:
  "histories s k = None \<and> k \<notin> ccSessions s \<Longrightarrow>
   histories (fst (handleMessage h cfg m s)) k = None \<and>
   k \<notin> ccSessions (fst (handleMessage h cfg m s))"
  by (simp add: handleMessage_def Let_def split: option.splits)

lemma app_message_keeps_clean:
  "histories s k = None \<and> k \<notin> ccSessions s \<Longrightarrow>
   histories (fst (app_message h cfg m s)) k = None \<and>
   k \<notin> ccSessions (fst (app_message h cfg m s))"
  by (simp add: app_message_def Let_def split: option.splits)

text \<open>The invocation a run starts when the session state of its key is empty.\<close>

lemma clean_start:
  assumes "histories s (run_key ru) = None \<and> run_key ru \<notin> ccSessions s"
    and "runs s r = Some ru" and "run_phase ru = Posting"
  shows "snd (after_post r (Some ts) now s) =
     [(r, if run_quick ru then CallSDK (run_text ru) []
          else CallClaude (run_text ru) False (run_dir ru))]"
  using assms by (simp add: after_post_def)

lemma handleMessage_reset:
  assumes "\<not> ignored cfg m" "rawText m = Some raw" "reset_command (effective_text cfg raw)"
  shows "handleMessage h cfg m sys =
     (sys\<lparr>histories := (histories sys)(msg_channel m := None),
          ccSessions := ccSessions sys - {msg_channel m},
          next_run := Suc (next_run sys)\<rparr>,
      [(next_run sys, PostMessage (chan cfg m) (replyThread m) (js ''Reset.''))])"
  using assms by (simp add: handleMessage_def Let_def)

lemma app_message_reset:
  assumes "\<not> ignored cfg m" "rawText m = Some raw" "reset_command raw"
  shows "app_message h cfg m old =
     (old\<lparr>histories := (histories old)(threadTs m := None),
          ccSessions := ccSessions old - {threadTs m},
          next_run := Suc (next_run old)\<rparr>,
      [(next_run old, PostMessage (chan cfg m) (threadTs m) (js ''Reset.''))])"
  using assms by (simp add: app_message_def Let_def)

text \<open>
  C8, as the code has it. A message that the handler accepts (a direct message of
  the allowed user with no subtype and a non-blank text) and whose text, as the
  handler tests it, matches \<open>^reset\b\<close> without regard to case (as it does whenever
  the text of the message itself matches) removes the history and the session mark
  of its key, posts \<open>Reset.\<close> and returns: it makes no invocation and leaves no run of
  the handler behind. The handler does not wait for the invocations under way, so
  what a later message finds depends on them: over any sequence of events after the
  reset in which no invocation returns successfully to a run of that key, a run of
  that key whose placeholder is then posted starts \<open>askClaude\<close> without the
  continuation flag in full mode and \<open>askSDK\<close> with the empty history in fast mode.
  This holds for the handler of the newer file (key \<open>message.channel\<close>) and for the
  handler of the older file (key \<open>thread_ts || ts\<close>).
\<close>

theorem reset_isolates_state:
  fixes sys :: "jsstring system" and old :: "jsstring option system"
  assumes "\<not> ignored cfg m" and "rawText m = Some raw"
  shows
  "(msg_text m = Some t \<and> reset_command t \<longrightarrow>
      reset_command (effective_text cfg raw) \<and> reset_command raw) \<and>
   (reset_command (effective_text cfg raw) \<longrightarrow>
      handleMessage h cfg m sys =
        (sys\<lparr>histories := (histories sys)(msg_channel m := None),
             ccSessions := ccSessions sys - {msg_channel m},
             next_run := Suc (next_run sys)\<rparr>,
         [(next_run sys, PostMessage (chan cfg m) (replyThread m) (js ''Reset.''))]) \<and>
      histories (fst (handleMessage h cfg m sys)) (msg_channel m) = None \<and>
      msg_channel m \<notin> ccSessions (fst (handleMessage h cfg m sys)) \<and>
      runs (fst (handleMessage h cfg m sys)) = runs sys \<and>
      (undisturbed (handleMessage h cfg) h (msg_channel m) es (fst (handleMessage h cfg m sys)) \<and>
       runs (fst (play (handleMessage h cfg) h es (fst (handleMessage h cfg m sys)))) r = Some ru \<and>
       run_key ru = msg_channel m \<and> run_phase ru = Posting \<longrightarrow>
         snd (deliver (handleMessage h cfg) h (PostReturned r (Some ts) now)
                (fst (play (handleMessage h cfg) h es (fst (handleMessage h cfg m sys))))) =
         [(r, if run_quick ru then CallSDK (run_text ru) []
              else CallClaude (run_text ru) False (run_dir ru))])) \<and>
   (reset_command raw \<longrightarrow>
      app_message h cfg m old =
        (old\<lparr>histories := (histories old)(threadTs m := None),
             ccSessions := ccSessions old - {threadTs m},
             next_run := Suc (next_run old)\<rparr>,
         [(next_run old, PostMessage (chan cfg m) (threadTs m) (js ''Reset.''))]) \<and>
      histories (fst (app_message h cfg m old)) (threadTs m) = None \<and>
      threadTs m \<notin> ccSessions (fst (app_message h cfg m old)) \<and>
      runs (fst (app_message h cfg m old)) = runs old \<and>
      (undisturbed (app_message h cfg) h (threadTs m) es (fst (app_message h cfg m old)) \<and>
       runs (fst (play (app_message h cfg) h es (fst (app_message h cfg m old)))) r = Some rn \<and>
       run_key rn = threadTs m \<and> run_phase rn = Posting \<longrightarrow>
         snd (deliver (app_message h cfg) h (PostReturned r (Some ts) now)
                (fst (play (app_message h cfg) h es (fst (app_message h cfg m old))))) =
         [(r, if run_quick rn then CallSDK (run_text rn) []
              else CallClaude (run_text rn) False (run_dir rn))]))"
proof (intro conjI impI)
  assume a: "msg_text m = Some t \<and> reset_command t"
  with assms(2) have "raw = js_trim t" by (simp add: rawText_def split: if_splits)
  with a reset_text_survives [of t cfg]
  show "reset_command (effective_text cfg raw)" and "reset_command raw" by simp_all
next
  assume r: "reset_command (effective_text cfg raw)"
  note eq = handleMessage_reset [OF assms r, of h sys]
  show "handleMessage h cfg m sys =
        (sys\<lparr>histories := (histories sys)(msg_channel m := None),
             ccSessions := ccSessions sys - {msg_channel m},
             next_run := Suc (next_run sys)\<rparr>,
         [(next_run sys, PostMessage (chan cfg m) (replyThread m) (js ''Reset.''))])"
    by (rule eq)
  show "histories (fst (handleMessage h cfg m sys)) (msg_channel m) = None" by (simp add: eq)
  show "msg_channel m \<notin> ccSessions (fst (handleMessage h cfg m sys))" by (simp add: eq)
  show "runs (fst (handleMessage h cfg m sys)) = runs sys" by (simp add: eq)
  let ?s = "fst (handleMessage h cfg m sys)"
  assume n: "undisturbed (handleMessage h cfg) h (msg_channel m) es ?s \<and>
       runs (fst (play (handleMessage h cfg) h es ?s)) r = Some ru \<and>
       run_key ru = msg_channel m \<and> run_phase ru = Posting"
  have cl: "histories ?s (msg_channel m) = None \<and> msg_channel m \<notin> ccSessions ?s"
    by (simp add: eq)
  from n have un: "undisturbed (handleMessage h cfg) h (msg_channel m) es ?s" by simp
  have "histories (fst (play (handleMessage h cfg) h es ?s)) (msg_channel m) = None \<and>
        msg_channel m \<notin> ccSessions (fst (play (handleMessage h cfg) h es ?s))"
    by (rule clean_play [OF handleMessage_keeps_clean cl un])
  with n have "histories (fst (play (handleMessage h cfg) h es ?s)) (run_key ru) = None \<and>
        run_key ru \<notin> ccSessions (fst (play (handleMessage h cfg) h es ?s))" by simp
  from clean_start [OF this, of r ts now] n
  show "snd (deliver (handleMessage h cfg) h (PostReturned r (Some ts) now)
                (fst (play (handleMessage h cfg) h es ?s))) =
         [(r, if run_quick ru then CallSDK (run_text ru) []
              else CallClaude (run_text ru) False (run_dir ru))]"
    by simp
next
  assume r: "reset_command raw"
  note eq = app_message_reset [OF assms r, of h old]
  show "app_message h cfg m old =
        (old\<lparr>histories := (histories old)(threadTs m := None),
             ccSessions := ccSessions old - {threadTs m},
             next_run := Suc (next_run old)\<rparr>,
         [(next_run old, PostMessage (chan cfg m) (threadTs m) (js ''Reset.''))])"
    by (rule eq)
  show "histories (fst (app_message h cfg m old)) (threadTs m) = None" by (simp add: eq)
  show "threadTs m \<notin> ccSessions (fst (app_message h cfg m old))" by (simp add: eq)
  show "runs (fst (app_message h cfg m old)) = runs old" by (simp add: eq)
  let ?s = "fst (app_message h cfg m old)"
  assume n: "undisturbed (app_message h cfg) h (threadTs m) es ?s \<and>
       runs (fst (play (app_message h cfg) h es ?s)) r = Some rn \<and>
       run_key rn = threadTs m \<and> run_phase rn = Posting"
  have cl: "histories ?s (threadTs m) = None \<and> threadTs m \<notin> ccSessions ?s"
    by (simp add: eq)
  from n have un: "undisturbed (app_message h cfg) h (threadTs m) es ?s" by simp
  have "histories (fst (play (app_message h cfg) h es ?s)) (threadTs m) = None \<and>
        threadTs m \<notin> ccSessions (fst (play (app_message h cfg) h es ?s))"
    by (rule clean_play [OF app_message_keeps_clean cl un])
  with n have "histories (fst (play (app_message h cfg) h es ?s)) (run_key rn) = None \<and>
        run_key rn \<notin> ccSessions (fst (play (app_message h cfg) h es ?s))" by simp
  from clean_start [OF this, of r ts now] n
  show "snd (deliver (app_message h cfg) h (PostReturned r (Some ts) now)
                (fst (play (app_message h cfg) h es ?s))) =
         [(r, if run_quick rn then CallSDK (run_text rn) []
              else CallClaude (run_text rn) False (run_dir rn))]"
    by simp
qed

lemma posting_facts:
  "run_key (sample_run\<lparr>run_phase := Posting, run_ts := [], run_t0 := 0\<rparr>) = js ''D1''"
  "run_phase (sample_run\<lparr>run_phase := Posting, run_ts := [], run_t0 := 0\<rparr>) = Posting"
  "run_key (sample_run\<lparr>run_quick := True, run_phase := Posting, run_ts := [], run_t0 := 0\<rparr>) =
     js ''D1''"
  "run_key (sample_run_old\<lparr>run_phase := Posting, run_ts := [], run_t0 := 0\<rparr>) =
     Some (js ''1.2'')"
  "run_text sample_run = js ''hello''" "run_dir sample_run = js ''/w''"
  "run_text sample_run_old = js ''hello''" "run_dir sample_run_old = js ''/w''"
  by (simp_all add: sample_run_def sample_run_old_def)

theorem reset_isolates_state_witness:
  "\<not> ignored sample_config sample_reset \<and>
   rawText sample_reset = Some (js ''Reset now'') \<and>
   msg_text sample_reset = Some (js ''Reset now'') \<and>
   reset_command (js ''Reset now'') \<and>
   reset_command (effective_text sample_config (js ''Reset now'')) \<and>
   snd (play (handleMessage sample_host sample_config) sample_host
          [Message sample_message, PostReturned 0 (Some (js ''9.9'')) 1000] sample_system) =
     [(0, PostMessage (js ''D1'') (Some (js ''1.2'')) (js ''_cc..._'')),
      (0, CallClaude (js ''hello'') True (js ''/w''))] \<and>
   snd (handleMessage sample_host sample_config sample_reset sample_system) =
     [(0, PostMessage (js ''D1'') (Some (js ''1.2'')) (js ''Reset.''))] \<and>
   js ''D1'' \<notin> ccSessions (fst (handleMessage sample_host sample_config sample_reset sample_system)) \<and>
   undisturbed (handleMessage sample_host sample_config) sample_host (js ''D1'')
     [Message sample_message, PostReturned 1 (Some (js ''9.9'')) 1000,
      Settled 1 (Inl (js ''exit 1'')) 1500, Message sample_message]
     (fst (handleMessage sample_host sample_config sample_reset sample_system)) \<and>
   snd (deliver (handleMessage sample_host sample_config) sample_host
          (PostReturned 2 (Some (js ''9.9'')) 2000)
          (fst (play (handleMessage sample_host sample_config) sample_host
                  [Message sample_message, PostReturned 1 (Some (js ''9.9'')) 1000,
                   Settled 1 (Inl (js ''exit 1'')) 1500, Message sample_message]
                  (fst (handleMessage sample_host sample_config sample_reset sample_system))))) =
     [(2, CallClaude (js ''hello'') False (js ''/w''))] \<and>
   snd (play (handleMessage sample_host sample_fast) sample_host
          [Message sample_quick, PostReturned 0 (Some (js ''9.9'')) 1000] sample_system) =
     [(0, PostMessage (js ''D1'') (Some (js ''1.2'')) (js ''_..._'')),
      (0, CallSDK (js ''hello'') [(user, js ''q''), (assistant, js ''a'')])] \<and>
   snd (deliver (handleMessage sample_host sample_fast) sample_host
          (PostReturned 1 (Some (js ''9.9'')) 2000)
          (fst (play (handleMessage sample_host sample_fast) sample_host
                  [Message sample_quick]
                  (fst (handleMessage sample_host sample_fast sample_reset sample_system))))) =
     [(1, CallSDK (js ''hello'') [])] \<and>
   snd (play (app_message sample_host sample_config) sample_host
          [Message sample_message, PostReturned 0 (Some (js ''9.9'')) 1000] sample_system_old) =
     [(0, PostMessage (js ''D1'') (Some (js ''1.2'')) (js ''_..._'')),
      (0, CallClaude (js ''hello'') True (js ''/w''))] \<and>
   snd (deliver (app_message sample_host sample_config) sample_host
          (PostReturned 1 (Some (js ''9.9'')) 2000)
          (fst (play (app_message sample_host sample_config) sample_host
                  [Message sample_message]
                  (fst (app_message sample_host sample_config sample_reset sample_system_old))))) =
     [(1, CallClaude (js ''hello'') False (js ''/w''))]"
proof -
  note t = reset_isolates_state
    [OF sample_facts(1) sample_facts(2), where h = sample_host and sys = sample_system
       and es = "[Message sample_message, PostReturned 1 (Some (js ''9.9'')) 1000,
                  Settled 1 (Inl (js ''exit 1'')) 1500, Message sample_message]"
       and r = 2 and ts = "js ''9.9''" and now = 2000
       and ru = "sample_run\<lparr>run_phase := Posting, run_ts := [], run_t0 := 0\<rparr>",
     THEN conjunct2, THEN conjunct1, rule_format, OF sample_facts(3)]
  have un: "undisturbed (handleMessage sample_host sample_config) sample_host (js ''D1'')
     [Message sample_message, PostReturned 1 (Some (js ''9.9'')) 1000,
      Settled 1 (Inl (js ''exit 1'')) 1500, Message sample_message]
     (fst (handleMessage sample_host sample_config sample_reset sample_system))"
    by (simp add: handleMessage_sample handleMessage_sample_reset run_simps sample_system_def)
  have c1: "snd (deliver (handleMessage sample_host sample_config) sample_host
          (PostReturned 2 (Some (js ''9.9'')) 2000)
          (fst (play (handleMessage sample_host sample_config) sample_host
                  [Message sample_message, PostReturned 1 (Some (js ''9.9'')) 1000,
                   Settled 1 (Inl (js ''exit 1'')) 1500, Message sample_message]
                  (fst (handleMessage sample_host sample_config sample_reset sample_system))))) =
     [(2, if run_quick (sample_run\<lparr>run_phase := Posting, run_ts := [], run_t0 := 0\<rparr>)
          then CallSDK (run_text (sample_run\<lparr>run_phase := Posting, run_ts := [], run_t0 := 0\<rparr>)) []
          else CallClaude (run_text (sample_run\<lparr>run_phase := Posting, run_ts := [], run_t0 := 0\<rparr>))
                 False (run_dir (sample_run\<lparr>run_phase := Posting, run_ts := [], run_t0 := 0\<rparr>)))]"
    by (rule t [THEN conjunct2, THEN conjunct2, THEN conjunct2, THEN conjunct2, rule_format])
       (simp add: un [simplified sample_facts] sample_facts posting_facts handleMessage_sample
          handleMessage_sample_reset run_simps sample_system_def)
  have mark: "js ''D1'' \<notin>
      ccSessions (fst (handleMessage sample_host sample_config sample_reset sample_system))"
    using t [THEN conjunct2, THEN conjunct2, THEN conjunct1] by (simp add: sample_facts)
  note f = reset_isolates_state
    [OF fast_facts(1) sample_facts(2), where h = sample_host and sys = sample_system
       and es = "[Message sample_quick]" and r = 1 and ts = "js ''9.9''" and now = 2000
       and ru = "sample_run\<lparr>run_quick := True, run_phase := Posting, run_ts := [], run_t0 := 0\<rparr>",
     THEN conjunct2, THEN conjunct1, rule_format, OF fast_facts(2),
     THEN conjunct2, THEN conjunct2, THEN conjunct2, THEN conjunct2, rule_format]
  have c2: "snd (deliver (handleMessage sample_host sample_fast) sample_host
          (PostReturned 1 (Some (js ''9.9'')) 2000)
          (fst (play (handleMessage sample_host sample_fast) sample_host
                  [Message sample_quick]
                  (fst (handleMessage sample_host sample_fast sample_reset sample_system))))) =
     [(1, if run_quick (sample_run\<lparr>run_quick := True, run_phase := Posting, run_ts := [], run_t0 := 0\<rparr>)
          then CallSDK (run_text (sample_run\<lparr>run_quick := True, run_phase := Posting, run_ts := [], run_t0 := 0\<rparr>)) []
          else CallClaude (run_text (sample_run\<lparr>run_quick := True, run_phase := Posting, run_ts := [], run_t0 := 0\<rparr>))
                 False (run_dir (sample_run\<lparr>run_quick := True, run_phase := Posting, run_ts := [], run_t0 := 0\<rparr>)))]"
    by (rule f)
       (simp add: sample_facts posting_facts handleMessage_sample_quick
          handleMessage_sample_reset run_simps sample_system_def)
  note o = reset_isolates_state
    [OF sample_facts(1) sample_facts(2), where h = sample_host and old = sample_system_old
       and es = "[Message sample_message]" and r = 1 and ts = "js ''9.9''" and now = 2000
       and rn = "sample_run_old\<lparr>run_phase := Posting, run_ts := [], run_t0 := 0\<rparr>",
     THEN conjunct2, THEN conjunct2, rule_format, OF sample_facts(4),
     THEN conjunct2, THEN conjunct2, THEN conjunct2, THEN conjunct2, rule_format]
  have c3: "snd (deliver (app_message sample_host sample_config) sample_host
          (PostReturned 1 (Some (js ''9.9'')) 2000)
          (fst (play (app_message sample_host sample_config) sample_host
                  [Message sample_message]
                  (fst (app_message sample_host sample_config sample_reset sample_system_old))))) =
     [(1, if run_quick (sample_run_old\<lparr>run_phase := Posting, run_ts := [], run_t0 := 0\<rparr>)
          then CallSDK (run_text (sample_run_old\<lparr>run_phase := Posting, run_ts := [], run_t0 := 0\<rparr>)) []
          else CallClaude (run_text (sample_run_old\<lparr>run_phase := Posting, run_ts := [], run_t0 := 0\<rparr>))
                 False (run_dir (sample_run_old\<lparr>run_phase := Posting, run_ts := [], run_t0 := 0\<rparr>)))]"
    by (rule o)
       (simp add: sample_facts posting_facts app_message_sample
          app_message_sample_reset run_simps sample_system_old_def)
  have d1: "snd (deliver (handleMessage sample_host sample_config) sample_host
          (PostReturned 2 (Some (js ''9.9'')) 2000)
          (fst (play (handleMessage sample_host sample_config) sample_host
                  [Message sample_message, PostReturned 1 (Some (js ''9.9'')) 1000,
                   Settled 1 (Inl (js ''exit 1'')) 1500, Message sample_message]
                  (fst (handleMessage sample_host sample_config sample_reset sample_system))))) =
     [(2, CallClaude (js ''hello'') False (js ''/w''))]"
    unfolding c1 by (simp add: sample_run_facts posting_facts)
  have d2: "snd (deliver (handleMessage sample_host sample_fast) sample_host
          (PostReturned 1 (Some (js ''9.9'')) 2000)
          (fst (play (handleMessage sample_host sample_fast) sample_host
                  [Message sample_quick]
                  (fst (handleMessage sample_host sample_fast sample_reset sample_system))))) =
     [(1, CallSDK (js ''hello'') [])]"
    unfolding c2 by (simp add: sample_run_facts posting_facts)
  have d3: "snd (deliver (app_message sample_host sample_config) sample_host
          (PostReturned 1 (Some (js ''9.9'')) 2000)
          (fst (play (app_message sample_host sample_config) sample_host
                  [Message sample_message]
                  (fst (app_message sample_host sample_config sample_reset sample_system_old))))) =
     [(1, CallClaude (js ''hello'') False (js ''/w''))]"
    unfolding c3 by (simp add: sample_run_facts posting_facts)
  have b1: "snd (play (handleMessage sample_host sample_config) sample_host
          [Message sample_message, PostReturned 0 (Some (js ''9.9'')) 1000] sample_system) =
     [(0, PostMessage (js ''D1'') (Some (js ''1.2'')) (js ''_cc..._'')),
      (0, CallClaude (js ''hello'') True (js ''/w''))]"
    by (simp add: handleMessage_sample run_simps sample_system_def)
  have b2: "snd (play (handleMessage sample_host sample_fast) sample_host
          [Message sample_quick, PostReturned 0 (Some (js ''9.9'')) 1000] sample_system) =
     [(0, PostMessage (js ''D1'') (Some (js ''1.2'')) (js ''_..._'')),
      (0, CallSDK (js ''hello'') [(user, js ''q''), (assistant, js ''a'')])]"
    by (simp add: handleMessage_sample_quick run_simps sample_system_def)
  have b3: "snd (play (app_message sample_host sample_config) sample_host
          [Message sample_message, PostReturned 0 (Some (js ''9.9'')) 1000] sample_system_old) =
     [(0, PostMessage (js ''D1'') (Some (js ''1.2'')) (js ''_..._'')),
      (0, CallClaude (js ''hello'') True (js ''/w''))]"
    by (simp add: app_message_sample run_simps sample_system_old_def)
  have b4: "snd (handleMessage sample_host sample_config sample_reset sample_system) =
     [(0, PostMessage (js ''D1'') (Some (js ''1.2'')) (js ''Reset.''))]"
    by (simp add: handleMessage_sample_reset sample_system_def)
  from d1 d2 d3 b1 b2 b3 b4 un mark sample_facts(1) sample_facts(2) sample_facts(23)
    sample_facts(4) sample_facts(3)
  show ?thesis by blast
qed

text \<open>
  The claim as stated fails on the code. A message starts an invocation, a reset for
  the same key is handled while the invocation is under way, and the invocation then
  returns: the run sets the session mark of the key again (in fast mode it stores
  the history again, with its own turn), and the next message of the key is invoked
  with the continuation flag (in fast mode with a history that is not empty),
  although a reset came after everything the conversation held.
\<close>

theorem reset_is_undone_by_a_run_under_way:
  "reset_command (js ''Reset now'') \<and>
   rawText sample_reset = Some (js ''Reset now'') \<and>
   invocations 2 (snd (play (handleMessage sample_host sample_config) sample_host
      [Message sample_message, PostReturned 0 (Some (js ''9.9'')) 1000,
       Message sample_reset,
       Settled 0 (Inr (Full sample_answer)) 2000,
       Message sample_message, PostReturned 2 (Some (js ''9.9'')) 3000] boot)) =
     [CallClaude (js ''hello'') True (js ''/w'')] \<and>
   invocations 2 (snd (play (handleMessage sample_host sample_fast) sample_host
      [Message sample_quick, PostReturned 0 (Some (js ''9.9'')) 1000,
       Message sample_reset,
       Settled 0 (Inr (Fast sample_sdk)) 2000,
       Message sample_quick, PostReturned 2 (Some (js ''9.9'')) 3000] boot)) =
     [CallSDK (js ''hello'') [(user, js ''hello''), (assistant, js ''done'')]] \<and>
   invocations 2 (snd (play (app_message sample_host sample_config) sample_host
      [Message sample_message, PostReturned 0 (Some (js ''9.9'')) 1000,
       Message sample_reset,
       Settled 0 (Inr (Full sample_answer)) 2000,
       Message sample_message, PostReturned 2 (Some (js ''9.9'')) 3000] boot)) =
     [CallClaude (js ''hello'') True (js ''/w'')] \<and>
   invocations 2 (snd (play (app_message sample_host sample_fast) sample_host
      [Message sample_message, PostReturned 0 (Some (js ''9.9'')) 1000,
       Message sample_reset,
       Settled 0 (Inr (Fast sample_sdk)) 2000,
       Message sample_message, PostReturned 2 (Some (js ''9.9'')) 3000] boot)) =
     [CallSDK (js ''hello'') [(user, js ''hello''), (assistant, js ''done'')]]"
proof (intro conjI)
  show "reset_command (js ''Reset now'')" by (rule sample_facts(4))
  show "rawText sample_reset = Some (js ''Reset now'')" by (rule sample_facts(2))
  show "invocations 2 (snd (play (handleMessage sample_host sample_config) sample_host
      [Message sample_message, PostReturned 0 (Some (js ''9.9'')) 1000,
       Message sample_reset,
       Settled 0 (Inr (Full sample_answer)) 2000,
       Message sample_message, PostReturned 2 (Some (js ''9.9'')) 3000] boot)) =
     [CallClaude (js ''hello'') True (js ''/w'')]"
    by (simp add: handleMessage_sample handleMessage_sample_reset run_simps body_samples)
  show "invocations 2 (snd (play (handleMessage sample_host sample_fast) sample_host
      [Message sample_quick, PostReturned 0 (Some (js ''9.9'')) 1000,
       Message sample_reset,
       Settled 0 (Inr (Fast sample_sdk)) 2000,
       Message sample_quick, PostReturned 2 (Some (js ''9.9'')) 3000] boot)) =
     [CallSDK (js ''hello'') [(user, js ''hello''), (assistant, js ''done'')]]"
    by (simp add: handleMessage_sample_quick handleMessage_sample_reset run_simps
        history_push_def sample_sdk_def)
  show "invocations 2 (snd (play (app_message sample_host sample_config) sample_host
      [Message sample_message, PostReturned 0 (Some (js ''9.9'')) 1000,
       Message sample_reset,
       Settled 0 (Inr (Full sample_answer)) 2000,
       Message sample_message, PostReturned 2 (Some (js ''9.9'')) 3000] boot)) =
     [CallClaude (js ''hello'') True (js ''/w'')]"
    by (simp add: app_message_sample app_message_sample_reset run_simps body_samples)
  show "invocations 2 (snd (play (app_message sample_host sample_fast) sample_host
      [Message sample_message, PostReturned 0 (Some (js ''9.9'')) 1000,
       Message sample_reset,
       Settled 0 (Inr (Fast sample_sdk)) 2000,
       Message sample_message, PostReturned 2 (Some (js ''9.9'')) 3000] boot)) =
     [CallSDK (js ''hello'') [(user, js ''hello''), (assistant, js ''done'')]]"
    by (simp add: app_message_sample app_message_sample_reset run_simps
        history_push_def sample_sdk_def)
qed
end
